(* ===== verification/Prelude.thy ===== *)
theory Prelude
  imports Main "HOL-Library.Word" "HOL-Library.Multiset"
begin

text \<open>
  What the components share: the names of the machine types, environment variables,
  the halves of a 32-bit word, the loop that stores a batch of entries in a hash map,
  and the three interfaces of the library: a control surface over simulated values,
  a sawtooth, and an ordered view that is walked by successor.
\<close>

unbundle bit_operations_syntax

type_synonym u8 = "8 word"
type_synonym u16 = "16 word"
type_synonym u32 = "32 word"
type_synonym u64 = "64 word"
type_synonym i32 = "32 word"
type_synonym i64 = "64 word"
type_synonym bytes = "u8 list"

text \<open>\<open>std::env::var\<close>: \<open>None\<close> for a variable that is unset or not Unicode.\<close>

type_synonym env = "string \<Rightarrow> string option"

text \<open>Facts that let \<open>simp\<close> read a store after a write, and frame facts of the writers.\<close>

named_theorems store_simps
named_theorems frame_simps

subsection \<open>Two 16-bit registers as one 32-bit word, high word first\<close>

text \<open>\<open>(raw >> 16) as u16\<close>, \<open>raw as u16\<close> and \<open>(high << 16) | low\<close>.\<close>

definition hi16 :: "u32 \<Rightarrow> u16" where
  "hi16 raw = ucast (drop_bit 16 raw)"

definition lo16 :: "u32 \<Rightarrow> u16" where
  "lo16 raw = ucast raw"

definition join16 :: "u16 \<Rightarrow> u16 \<Rightarrow> u32" where
  "join16 high low = push_bit 16 (ucast high) OR ucast low"

lemma join16_hi_lo [simp]: "join16 (hi16 x) (lo16 x) = x"
  by (rule bit_word_eqI) (auto simp: join16_def hi16_def lo16_def bit_simps)

lemma hi16_join [simp]: "hi16 (join16 h l) = h"
  by (rule bit_word_eqI) (auto simp: join16_def hi16_def bit_simps dest: bit_imp_le_length)

lemma lo16_join [simp]: "lo16 (join16 h l) = l"
  by (rule bit_word_eqI) (auto simp: join16_def lo16_def bit_simps)

lemma join16_eq_iff [simp]: "join16 h l = join16 h' l' \<longleftrightarrow> h = h' \<and> l = l'"
  by (metis hi16_join lo16_join)

subsection \<open>Storing a batch\<close>

text \<open>\<open>for (k, v) in batch \{ map.insert(k, v) \}\<close>, in the order the batch is visited.\<close>

primrec insert_all :: "('k \<times> 'v) list \<Rightarrow> ('k \<rightharpoonup> 'v) \<Rightarrow> ('k \<rightharpoonup> 'v)" where
  "insert_all [] m = m"
| "insert_all (kv # kvs) m = insert_all kvs (m(fst kv \<mapsto> snd kv))"

lemma insert_all_notin [store_simps]:
  "k \<notin> fst ` set kvs \<Longrightarrow> insert_all kvs m k = m k"
  by (induction kvs arbitrary: m) auto

text \<open>The last entry of a key wins.\<close>

lemma insert_all_lookup:
  "insert_all kvs m k = (case map_of (rev kvs) k of None \<Rightarrow> m k | Some v \<Rightarrow> Some v)"
proof (induction kvs arbitrary: m)
  case Nil then show ?case by simp
next
  case (Cons kv kvs)
  then show ?case by (cases kv) (auto simp: map_add_def split: option.split)
qed

lemma insert_all_mono: "m k \<noteq> None \<Longrightarrow> insert_all kvs m k \<noteq> None"
  by (induction kvs arbitrary: m) auto

lemma insert_all_dom: "dom (insert_all kvs m) = dom m \<union> fst ` set kvs"
  by (induction kvs arbitrary: m) auto

text \<open>The order in which a hash map is visited does not matter: its keys are distinct.\<close>

lemma insert_all_perm:
  assumes "distinct (map fst kvs)" "mset kvs = mset kvs'"
  shows "insert_all kvs m = insert_all kvs' m"
proof
  fix k
  have "distinct (map fst kvs')" using assms by (metis mset_eq_imp_distinct_iff mset_map)
  then have "map_of (rev kvs) = map_of (rev kvs')"
    using assms by (metis map_of_inject_set mset_eq_setD set_rev rev_map distinct_rev)
  then show "insert_all kvs m k = insert_all kvs' m k" by (simp add: insert_all_lookup)
qed

subsection \<open>The interface of a control surface\<close>

text \<open>
  A store of values that a simulator keeps moving and that an external client can
  override batch by batch.  \<open>owned\<close> says which keys the client has taken over, \<open>sim\<close> is
  one simulator step, \<open>put\<close> one batch write; \<open>scope\<close> holds the keys for which the
  simulator honours the ownership.
\<close>

locale control_surface =
  fixes lookup :: "'s \<Rightarrow> 'k \<Rightarrow> 'v option"
    and owned :: "'s \<Rightarrow> 'k \<Rightarrow> bool"
    and sim :: "'s \<Rightarrow> 's \<Rightarrow> bool"
    and put :: "('k \<times> 'v) list \<Rightarrow> 's \<Rightarrow> 's"
    and scope :: "'k \<Rightarrow> bool"
  assumes sim_keeps: "sim s t \<Longrightarrow> owned s k \<Longrightarrow> scope k \<Longrightarrow> lookup t k = lookup s k"
    and sim_owned: "sim s t \<Longrightarrow> owned s k \<Longrightarrow> owned t k"
    and put_lookup:
      "lookup (put b s) k = (case map_of (rev b) k of None \<Rightarrow> lookup s k | Some v \<Rightarrow> Some v)"
    and put_owned: "owned (put b s) k \<longleftrightarrow> owned s k \<or> k \<in> fst ` set b"
begin

text \<open>Any interleaving of simulator steps and batches; the batches are recorded in order.\<close>

inductive run :: "'s \<Rightarrow> ('k \<times> 'v) list list \<Rightarrow> 's \<Rightarrow> bool" where
  run_start: "run s [] s"
| run_sim: "run s bs t \<Longrightarrow> sim t u \<Longrightarrow> run s bs u"
| run_put: "run s bs t \<Longrightarrow> run s (bs @ [b]) (put b t)"

lemma run_owned: "run s bs t \<Longrightarrow> owned s k \<or> (\<exists>b\<in>set bs. k \<in> fst ` set b) \<Longrightarrow> owned t k"
  by (induction rule: run.induct) (auto simp: put_owned intro: sim_owned)

lemma last_write_snoc:
  "map_of (rev (concat (bs @ [b]))) k =
     (case map_of (rev b) k of None \<Rightarrow> map_of (rev (concat bs)) k | Some v \<Rightarrow> Some v)"
  by (simp add: map_add_def)

text \<open>The last batch that names a key decides what it reads, for good.\<close>

lemma run_last_write:
  assumes "run s bs t" "scope k"
    and "owned s k \<or> (\<exists>b\<in>set bs. k \<in> fst ` set b)"
  shows "lookup t k = (case map_of (rev (concat bs)) k of None \<Rightarrow> lookup s k | Some v \<Rightarrow> Some v)"
  using assms
proof (induction rule: run.induct)
  case (run_start s)
  then show ?case by simp
next
  case (run_sim s bs t u)
  from run_sim.hyps(1) run_sim.prems(2) have "owned t k" by (rule run_owned)
  with run_sim.hyps(2) have "lookup u k = lookup t k" using run_sim.prems(1) by (rule sim_keeps)
  then show ?case using run_sim.IH [OF run_sim.prems] by simp
next
  case (run_put s bs t b)
  show ?case
  proof (cases "map_of (rev b) k")
    case (Some v)
    then show ?thesis by (simp only: put_lookup last_write_snoc option.case)
  next
    case None
    then have "k \<notin> fst ` set b" by (simp add: map_of_eq_None_iff)
    with run_put.prems have "owned s k \<or> (\<exists>b\<in>set bs. k \<in> fst ` set b)" by auto
    from run_put.IH [OF run_put.prems(1) this] None show ?thesis
      by (simp only: put_lookup last_write_snoc option.case)
  qed
qed

corollary run_put_sticks:
  assumes "run (put b s) bs t" "scope k" "map_of (rev b) k = Some v"
    and "\<forall>b'\<in>set bs. k \<notin> fst ` set b'"
  shows "lookup t k = Some v"
proof -
  have "k \<in> fst ` set b" using assms(3) by (metis map_of_SomeD fst_conv image_eqI set_rev)
  then have "owned (put b s) k" by (simp add: put_owned)
  moreover have "map_of (rev (concat bs)) k = None"
    using assms(4) by (auto simp: map_of_eq_None_iff)
  ultimately show ?thesis using run_last_write [OF assms(1,2)] assms(3)
    by (simp add: put_lookup)
qed

end

subsection \<open>The interface of a sawtooth\<close>

text \<open>
  A value that climbs by steps inside a band and falls back to its lower end.  \<open>rank\<close>
  bounds the steps left until the fall.
\<close>

locale sawtooth =
  fixes next_saw :: "'a::linorder \<Rightarrow> 'a" and lo hi :: 'a and rank :: "'a \<Rightarrow> nat"
  assumes band: "lo \<le> hi"
    and next_cases: "lo \<le> x \<Longrightarrow> x \<le> hi \<Longrightarrow>
      next_saw x = lo \<or> x < next_saw x \<and> next_saw x \<le> hi \<and> rank (next_saw x) < rank x"
begin

lemma next_in_band: "lo \<le> x \<Longrightarrow> x \<le> hi \<Longrightarrow> lo \<le> next_saw x \<and> next_saw x \<le> hi"
  using next_cases [of x] band by auto

lemma iterate_in_band:
  "lo \<le> x \<Longrightarrow> x \<le> hi \<Longrightarrow> lo \<le> (next_saw ^^ n) x \<and> (next_saw ^^ n) x \<le> hi"
  by (induction n) (auto dest: next_in_band)

text \<open>From anywhere in the band the lower end is reached within \<open>rank x + 1\<close> steps.\<close>

lemma returns_to_lo:
  "lo \<le> x \<Longrightarrow> x \<le> hi \<Longrightarrow> \<exists>n. 0 < n \<and> n \<le> Suc (rank x) \<and> (next_saw ^^ n) x = lo"
proof (induction "rank x" arbitrary: x rule: less_induct)
  case less
  from next_cases [OF less.prems] show ?case
  proof
    assume "next_saw x = lo"
    then show ?thesis by (intro exI [of _ 1]) simp
  next
    assume a: "x < next_saw x \<and> next_saw x \<le> hi \<and> rank (next_saw x) < rank x"
    then have "lo \<le> next_saw x" "next_saw x \<le> hi" using less.prems by auto
    with less.hyps [of "next_saw x"] a obtain n where
      n: "0 < n" "n \<le> Suc (rank (next_saw x))" "(next_saw ^^ n) (next_saw x) = lo" by blast
    then have "(next_saw ^^ Suc n) x = lo" by (simp add: funpow_swap1)
    moreover have "Suc n \<le> Suc (rank x)" using n(2) a by simp
    ultimately show ?thesis by blast
  qed
qed

text \<open>So it is there again and again.\<close>

lemma recurs:
  assumes "lo \<le> x" "x \<le> hi"
  shows "\<exists>n\<ge>m. (next_saw ^^ n) x = lo"
proof -
  have "lo \<le> (next_saw ^^ m) x" "(next_saw ^^ m) x \<le> hi" using iterate_in_band assms by auto
  from returns_to_lo [OF this] obtain n where "(next_saw ^^ n) ((next_saw ^^ m) x) = lo" by blast
  then have "(next_saw ^^ (n + m)) x = lo" by (simp add: funpow_add)
  then show ?thesis by (intro exI [of _ "n + m"]) simp
qed

end

subsection \<open>The interface of an ordered view\<close>

text \<open>Asking for the successor of the last answer, at most \<open>n\<close> times.\<close>

primrec walk :: "('k \<Rightarrow> 'k option) \<Rightarrow> nat \<Rightarrow> 'k \<Rightarrow> 'k list" where
  "walk nxt 0 k = []"
| "walk nxt (Suc n) k = (case nxt k of None \<Rightarrow> [] | Some k' \<Rightarrow> k' # walk nxt n k')"

text \<open>A finite set of keys in which a client moves from each key to the least one above it.\<close>

locale ordered_view =
  fixes view_keys :: "'m \<Rightarrow> 'k::linorder set" and succ_of :: "'m \<Rightarrow> 'k \<Rightarrow> 'k option"
  assumes finite_keys: "finite (view_keys m)"
    and succ_least: "succ_of m k = Some k' \<Longrightarrow>
      k' \<in> view_keys m \<and> k < k' \<and> (\<forall>j\<in>view_keys m. k < j \<longrightarrow> k' \<le> j)"
    and succ_none: "succ_of m k = None \<Longrightarrow> \<forall>j\<in>view_keys m. j \<le> k"
begin

text \<open>The walk visits every key above the start once, in order, and then stops.\<close>

lemma walk_complete:
  "card {j \<in> view_keys m. k < j} \<le> n \<Longrightarrow>
   walk (succ_of m) n k = sorted_list_of_set {j \<in> view_keys m. k < j}"
proof (induction n arbitrary: k)
  case 0
  then have e: "{j \<in> view_keys m. k < j} = {}" using finite_keys [of m] by simp
  show ?case unfolding e by simp
next
  case (Suc n)
  let ?A = "{j \<in> view_keys m. k < j}"
  have fin: "finite ?A" using finite_keys [of m] by simp
  show ?case
  proof (cases "succ_of m k")
    case None
    then have e: "?A = {}" using succ_none by (auto simp: not_less)
    show ?thesis unfolding e using None by simp
  next
    case (Some k')
    then have k': "k' \<in> ?A" "\<And>j. j \<in> ?A \<Longrightarrow> k' \<le> j" using succ_least [OF Some] by auto
    then have min: "Min ?A = k'" using fin by (intro Min_eqI)
    have rest: "?A - {k'} = {j \<in> view_keys m. k' < j}"
      using k' by (auto simp: less_le)
    have "card (?A - {k'}) \<le> n" using Suc.prems k'(1) fin by simp
    then have "walk (succ_of m) n k' = sorted_list_of_set (?A - {k'})" using Suc.IH [of k'] rest by simp
    moreover have "sorted_list_of_set ?A = k' # sorted_list_of_set (?A - {k'})"
      using sorted_list_of_set_nonempty [OF fin] k'(1) min by auto
    ultimately show ?thesis using Some by simp
  qed
qed

end

subsection \<open>Answers of the HTTP surfaces\<close>

datatype http_status = NO_CONTENT | OK | BAD_REQUEST | UNPROCESSABLE_ENTITY
  | NOT_FOUND | METHOD_NOT_ALLOWED | REJECTED

end
