(* ===== verification/Rounding.thy ===== *)
theory Rounding
  imports Complex_Main "HOL-Library.Log_Nat"
begin

text \<open>
  Rounding to a binary floating-point grid, on rationals.  The grid of a format with
  precision \<open>p\<close> and least exponent \<open>e\<close> holds the numbers \<open>m * 2 ^ k\<close> with
  \<open>\<bar>m\<bar> \<le> 2 ^ p\<close> and \<open>k \<ge> e\<close>; \<open>rnd p e\<close> takes a rational to the nearest point of that
  grid, ties to the even multiple, as IEEE 754 prescribes for every arithmetic
  operation, conversion and decimal literal.  The overflow to infinity and the signed
  zero are added in theory Floats.
\<close>

subsection \<open>Round half to even\<close>

definition rne :: "rat \<Rightarrow> int" where
  "rne y = (let f = \<lfloor>y\<rfloor>; r = y - of_int f in
     if r < 1 / 2 then f else if r > 1 / 2 then f + 1
     else if even f then f else f + 1)"

lemma rne_of_int [simp]: "rne (of_int k) = k"
  by (simp add: rne_def)

lemma rne_0 [simp]: "rne 0 = 0" and rne_1 [simp]: "rne 1 = 1"
  using rne_of_int [of 0] rne_of_int [of 1] by simp_all

lemma rne_numeral [simp]: "rne (numeral n) = numeral n" and
  rne_neg_numeral [simp]: "rne (- numeral n) = - numeral n"
  using rne_of_int [of "numeral n"] rne_of_int [of "- numeral n"] by simp_all

lemma rne_close: "\<bar>of_int (rne y) - y\<bar> \<le> 1 / 2"
  using floor_correct [of y] by (auto simp: rne_def Let_def abs_le_iff)

lemma rne_floor_cases: "rne y = \<lfloor>y\<rfloor> \<or> rne y = \<lfloor>y\<rfloor> + 1"
  by (auto simp: rne_def Let_def)

lemma rne_mono:
  assumes "x \<le> y" shows "rne x \<le> rne y"
proof (cases "\<lfloor>x\<rfloor> = \<lfloor>y\<rfloor>")
  case True
  with assms show ?thesis by (auto simp: rne_def Let_def)
next
  case False
  moreover have "\<lfloor>x\<rfloor> \<le> \<lfloor>y\<rfloor>" using assms by (rule floor_mono)
  ultimately have "\<lfloor>x\<rfloor> + 1 \<le> \<lfloor>y\<rfloor>" by simp
  then show ?thesis using rne_floor_cases [of x] rne_floor_cases [of y] by auto
qed

lemma rne_minus: "rne (- y) = - rne y"
proof (cases "y = of_int \<lfloor>y\<rfloor>")
  case True
  then have "rne (- y) = rne (of_int (- \<lfloor>y\<rfloor>))" and "rne y = \<lfloor>y\<rfloor>"
    by (metis of_int_minus, metis rne_of_int)
  then show ?thesis by (simp only: rne_of_int)
next
  case False
  then have fl: "\<lfloor>- y\<rfloor> = - \<lfloor>y\<rfloor> - 1"
    by (simp add: floor_eq_iff) linarith
  show ?thesis
    unfolding rne_def Let_def fl by (auto simp: not_less split: if_splits)
qed

subsection \<open>Binary logarithm of a positive rational\<close>

definition ilog2 :: "rat \<Rightarrow> int" where
  "ilog2 x = (if 1 \<le> x then bitlen \<lfloor>x\<rfloor> - 1 else - bitlen (\<lceil>1 / x\<rceil> - 1))"

lemma bitlen_numeral_simps [simp]:
  "bitlen 1 = 1"
  "bitlen (numeral (Num.Bit0 n)) = bitlen (numeral n) + 1"
  "bitlen (numeral (Num.Bit1 n)) = bitlen (numeral n) + 1"
  by (subst compute_bitlen; simp)+

lemma ilog2_bounds:
  assumes "0 < x"
  shows "2 powi ilog2 x \<le> x" and "x < 2 powi (ilog2 x + 1)"
proof -
  have "2 powi ilog2 x \<le> x \<and> x < 2 powi (ilog2 x + 1)"
  proof (cases "1 \<le> x")
    case True
    let ?b = "bitlen \<lfloor>x\<rfloor>"
    have pos: "0 < \<lfloor>x\<rfloor>" using True by simp
    then have b: "2 ^ nat (?b - 1) \<le> \<lfloor>x\<rfloor>" "\<lfloor>x\<rfloor> < 2 ^ nat ?b"
      using bitlen_bounds by auto
    have b1: "1 \<le> ?b" using pos by (simp add: bitlen_alt_def)
    have lo: "(2::rat) powi (?b - 1) = of_int (2 ^ nat (?b - 1))"
      and hi: "(2::rat) powi ?b = of_int (2 ^ nat ?b)"
      using b1 by (simp_all add: power_int_def)
    have "2 powi (?b - 1) \<le> x" unfolding lo using b(1) by (metis le_floor_iff)
    moreover have "x < 2 powi ?b" unfolding hi using b(2) by (metis floor_less_iff)
    ultimately show ?thesis using True by (simp add: ilog2_def)
  next
    case False
    let ?c = "\<lceil>1 / x\<rceil> - 1"
    let ?b = "bitlen ?c"
    have "1 < 1 / x" using False assms by simp
    then have "2 \<le> \<lceil>1 / x\<rceil>" by linarith
    then have pos: "0 < ?c" by simp
    then have b: "2 ^ nat (?b - 1) \<le> ?c" "?c < 2 ^ nat ?b"
      using bitlen_bounds [OF pos] by blast+
    have b1: "1 \<le> ?b" using pos by (simp add: bitlen_alt_def)
    have "\<lceil>1 / x\<rceil> \<le> 2 ^ nat ?b" using b(2) by simp
    then have "1 / x \<le> of_int (2 ^ nat ?b)" by (simp add: ceiling_le_iff)
    then have up: "1 / x \<le> 2 powi ?b" using b1 by (simp add: power_int_def)
    have "2 ^ nat (?b - 1) < \<lceil>1 / x\<rceil>" using b(1) by linarith
    then have "of_int (2 ^ nat (?b - 1)) < 1 / x" by (simp add: less_ceiling_iff)
    then have dn: "2 powi (?b - 1) < 1 / x" using b1 by (simp add: power_int_def)
    have "2 powi (- ?b) \<le> x"
      using up assms by (simp add: power_int_minus field_simps)
    moreover have "x < 2 powi (1 - ?b)"
    proof -
      have "(2::rat) powi (1 - ?b) = inverse (2 powi (?b - 1))"
        by (metis minus_diff_eq power_int_minus)
      moreover have "x < inverse (2 powi (?b - 1))"
        using less_imp_inverse_less [OF dn] by simp
      ultimately show ?thesis by simp
    qed
    ultimately show ?thesis using False by (simp add: ilog2_def add.commute)
  qed
  then show "2 powi ilog2 x \<le> x" and "x < 2 powi (ilog2 x + 1)" by auto
qed

lemma powi2_pos [simp]: "(0::rat) < 2 powi k"
  by (simp add: zero_less_power_int)

lemma powi2_le_iff: "(2::rat) powi a \<le> 2 powi b \<longleftrightarrow> a \<le> b"
  by (metis linorder_not_le one_less_numeral_iff power_int_strict_increasing
      power_int_increasing semiring_norm(76) order.order_iff_strict)

lemma powi2_less_iff: "(2::rat) powi a < 2 powi b \<longleftrightarrow> a < b"
  by (metis linorder_not_le powi2_le_iff)

lemma ilog2_unique:
  assumes "2 powi k \<le> x" and "x < 2 powi (k + 1)"
  shows "ilog2 x = k"
proof -
  have "0 < x" using assms(1) powi2_pos [of k] by linarith
  note b = ilog2_bounds [OF this]
  have "(2::rat) powi ilog2 x < 2 powi (k + 1)" "(2::rat) powi k < 2 powi (ilog2 x + 1)"
    using assms b by linarith+
  then show ?thesis by (simp add: powi2_less_iff)
qed

lemma ilog2_mono:
  assumes "0 < x" and "x \<le> y" shows "ilog2 x \<le> ilog2 y"
proof -
  have "(2::rat) powi ilog2 x < 2 powi (ilog2 y + 1)"
    using ilog2_bounds [OF assms(1)] ilog2_bounds [of y] assms by linarith
  then show ?thesis by (simp add: powi2_less_iff)
qed

subsection \<open>Rounding to the grid of a format\<close>

text \<open>The exponent of the last place of \<open>x\<close>: never below the least exponent \<open>e\<close>.\<close>

definition ulp_exp :: "nat \<Rightarrow> int \<Rightarrow> rat \<Rightarrow> int" where
  "ulp_exp p e x = max e (ilog2 \<bar>x\<bar> - (int p - 1))"

definition rnd :: "nat \<Rightarrow> int \<Rightarrow> rat \<Rightarrow> rat" where
  "rnd p e x = (if x = 0 then 0
     else let q = 2 powi ulp_exp p e x in of_int (rne (x / q)) * q)"

lemma rnd_0 [simp]: "rnd p e 0 = 0"
  by (simp add: rnd_def)

lemma rnd_minus [simp]: "rnd p e (- x) = - rnd p e x"
  by (simp add: rnd_def ulp_exp_def Let_def rne_minus)

lemma rnd_nonneg: "0 \<le> x \<Longrightarrow> 0 \<le> rnd p e x"
  using rne_mono [of 0 "x / 2 powi ulp_exp p e x"]
  by (auto simp: rnd_def Let_def intro!: mult_nonneg_nonneg divide_nonneg_nonneg)

text \<open>The error of a rounding is at most half a unit in the last place.\<close>

lemma rnd_error: "\<bar>rnd p e x - x\<bar> \<le> 2 powi ulp_exp p e x / 2"
proof (cases "x = 0")
  case False
  let ?q = "(2::rat) powi ulp_exp p e x"
  have "rnd p e x - x = (of_int (rne (x / ?q)) - x / ?q) * ?q"
    using False by (simp add: rnd_def Let_def left_diff_distrib)
  then have "\<bar>rnd p e x - x\<bar> = \<bar>of_int (rne (x / ?q)) - x / ?q\<bar> * ?q"
    by (simp add: abs_mult)
  also have "\<dots> \<le> 1 / 2 * ?q"
    by (rule mult_right_mono [OF rne_close]) simp
  finally show ?thesis by simp
qed simp

text \<open>Every point of the grid is a fixed point.\<close>

definition on_grid :: "nat \<Rightarrow> int \<Rightarrow> rat \<Rightarrow> bool" where
  "on_grid p e x \<longleftrightarrow> rnd p e x = x"

lemma rnd_multiple:
  assumes "x = of_int m * 2 powi ulp_exp p e x"
  shows "rnd p e x = x"
proof (cases "x = 0")
  case False
  let ?q = "(2::rat) powi ulp_exp p e x"
  have "x / ?q = of_int m" using assms by (simp add: field_simps)
  then have "rnd p e x = of_int m * ?q" using False by (simp add: rnd_def Let_def)
  with assms show ?thesis by simp
qed simp

lemma powi2_shift:
  assumes "l \<le> k"
  shows "(2::rat) powi k = of_int (2 ^ nat (k - l)) * 2 powi l"
proof -
  have "(2::rat) powi k = 2 powi (k - l) * 2 powi l"
    by (simp flip: power_int_add)
  then show ?thesis using assms by (simp add: power_int_def)
qed

lemma rnd_exact:
  assumes "e \<le> k" and "\<bar>m\<bar> < 2 ^ p"
  shows "rnd p e (of_int m * 2 powi k) = of_int m * 2 powi k"
proof (cases "m = 0")
  case False
  let ?x = "of_int m * (2::rat) powi k"
  have ax: "\<bar>?x\<bar> = of_int \<bar>m\<bar> * 2 powi k" by (simp add: abs_mult)
  have "0 < \<bar>?x\<bar>" using False by simp
  note b = ilog2_bounds [OF this]
  have "of_int \<bar>m\<bar> < (of_int (2 ^ p) :: rat)" using assms(2) by (simp only: of_int_less_iff)
  then have "\<bar>?x\<bar> < 2 ^ p * 2 powi k" unfolding ax by simp
  also have "\<dots> = 2 powi (int p + k)" by (simp add: power_int_add)
  finally have "(2::rat) powi ilog2 \<bar>?x\<bar> < 2 powi (int p + k)" using b(1) by linarith
  then have "ilog2 \<bar>?x\<bar> < int p + k" by (simp add: powi2_less_iff)
  then have le: "ulp_exp p e ?x \<le> k" using assms(1) by (simp add: ulp_exp_def)
  have "?x = of_int (m * 2 ^ nat (k - ulp_exp p e ?x)) * 2 powi ulp_exp p e ?x"
    using powi2_shift [OF le] by simp
  then show ?thesis by (rule rnd_multiple)
qed simp

lemma rnd_powi2:
  assumes "e \<le> k" "0 < p" shows "rnd p e (2 powi k) = 2 powi k"
  using rnd_exact [OF assms(1), of 1 p] assms(2) by (simp add: one_less_power)

lemma rnd_of_int:
  assumes "e \<le> 0" and "\<bar>m\<bar> < 2 ^ p" shows "rnd p e (of_int m) = of_int m"
  using rnd_exact [OF assms] by simp

text \<open>Rounding is monotone: the key fact for every bound proved over floats.\<close>

lemma rnd_mono_pos:
  assumes "0 < x" "x \<le> y" "0 < p"
  shows "rnd p e x \<le> rnd p e y"
proof -
  have y: "0 < y" using assms by simp
  let ?qx = "ulp_exp p e x" and ?qy = "ulp_exp p e y"
  have rx: "rnd p e x = of_int (rne (x / 2 powi ?qx)) * 2 powi ?qx"
    and ry: "rnd p e y = of_int (rne (y / 2 powi ?qy)) * 2 powi ?qy"
    using assms(1) y by (simp_all add: rnd_def Let_def)
  have il: "ilog2 x \<le> ilog2 y" using assms by (simp add: ilog2_mono)
  then have "?qx \<le> ?qy" using assms(1) y by (simp add: ulp_exp_def)
  then consider "?qx = ?qy" | "?qx < ?qy" by linarith
  then show ?thesis
  proof cases
    case 1
    have "rne (x / 2 powi ?qx) \<le> rne (y / 2 powi ?qx)"
      using assms(2) by (intro rne_mono divide_right_mono) auto
    with 1 show ?thesis unfolding rx ry by (simp add: mult_right_mono)
  next
    case 2
    let ?b = "ilog2 y"
    have qy: "?qy = ?b - (int p - 1)" and lt: "ilog2 x < ?b"
      using 2 assms(1) y by (auto simp: ulp_exp_def max_def split: if_splits)
    have lx: "?qx \<le> ?b" and ly: "?qy \<le> ?b" using 2 qy assms(3) by auto
    have "(2::rat) powi (ilog2 x + 1) \<le> 2 powi ?b" using lt by (simp add: powi2_le_iff)
    then have xb: "x \<le> 2 powi ?b" using ilog2_bounds(2) [OF assms(1)] by linarith
    have mid: "of_int (rne (2 powi ?b / 2 powi q)) * 2 powi q = (2::rat) powi ?b"
      if "q \<le> ?b" for q
      using powi2_shift [OF that] by (metis divide_eq_eq less_irrefl powi2_pos rne_of_int)
    have "rne (x / 2 powi ?qx) \<le> rne (2 powi ?b / 2 powi ?qx)"
      using xb by (intro rne_mono divide_right_mono) auto
    then have "rnd p e x \<le> of_int (rne (2 powi ?b / 2 powi ?qx)) * 2 powi ?qx"
      unfolding rx by (simp add: mult_right_mono)
    also have "\<dots> = of_int (rne (2 powi ?b / 2 powi ?qy)) * 2 powi ?qy"
      using mid [OF lx] mid [OF ly] by simp
    also have "\<dots> \<le> rnd p e y"
      unfolding ry using ilog2_bounds(1) [OF y]
      by (intro mult_right_mono) (auto intro!: rne_mono divide_right_mono)
    finally show ?thesis .
  qed
qed

lemma rnd_mono:
  assumes "x \<le> y" and p: "0 < p"
  shows "rnd p e x \<le> rnd p e y"
proof -
  consider "0 < x" | "x \<le> 0" "0 \<le> y" | "y < 0" using assms(1) by linarith
  then show ?thesis
  proof cases
    case 1 with assms show ?thesis by (simp add: rnd_mono_pos)
  next
    case 2
    then have "0 \<le> rnd p e (- x)" "0 \<le> rnd p e y" by (simp_all only: rnd_nonneg neg_0_le_iff_le)
    then show ?thesis by simp
  next
    case 3
    then have "rnd p e (- y) \<le> rnd p e (- x)" using assms by (intro rnd_mono_pos) auto
    then show ?thesis by simp
  qed
qed

text \<open>So a bound that is a grid point bounds the rounded value as well.\<close>

lemma rnd_le_grid: "x \<le> b \<Longrightarrow> on_grid p e b \<Longrightarrow> 0 < p \<Longrightarrow> rnd p e x \<le> b"
  using rnd_mono [of x b p e] by (simp add: on_grid_def)

lemma rnd_ge_grid: "b \<le> x \<Longrightarrow> on_grid p e b \<Longrightarrow> 0 < p \<Longrightarrow> b \<le> rnd p e x"
  using rnd_mono [of b x p e] by (simp add: on_grid_def)

text \<open>A rounded value lies on the grid.\<close>

lemma on_grid_rnd:
  assumes p: "0 < p" shows "on_grid p e (rnd p e x)"
proof (cases "x = 0")
  case False
  let ?q = "ulp_exp p e x"
  let ?m = "rne (x / 2 powi ?q)"
  have r: "rnd p e x = of_int ?m * 2 powi ?q" using False by (simp add: rnd_def Let_def)
  have eq: "e \<le> ?q" by (simp add: ulp_exp_def)
  have "0 < \<bar>x\<bar>" using False by simp
  then have "\<bar>x\<bar> < 2 powi (ilog2 \<bar>x\<bar> + 1)" by (rule ilog2_bounds)
  also have "\<dots> \<le> 2 powi (?q + int p)" by (simp add: powi2_le_iff ulp_exp_def)
  finally have "\<bar>x / 2 powi ?q\<bar> \<le> of_int (2 ^ p)"
    by (simp add: power_int_add field_simps)
  then have "x / 2 powi ?q \<le> of_int (2 ^ p)" "of_int (- (2 ^ p)) \<le> x / 2 powi ?q"
    unfolding of_int_minus by (simp_all only: abs_le_iff) linarith
  then have "?m \<le> 2 ^ p" "- (2 ^ p) \<le> ?m"
    by (metis rne_mono rne_of_int)+
  then have "\<bar>?m\<bar> \<le> 2 ^ p" by simp
  then consider "\<bar>?m\<bar> < 2 ^ p" | "?m = 2 ^ p" | "?m = - (2 ^ p)" by linarith
  then show ?thesis
  proof cases
    case 1 then show ?thesis unfolding on_grid_def r by (rule rnd_exact [OF eq])
  next
    case 2
    have "rnd p e x = 2 powi (int p + ?q)" unfolding r 2 by (simp add: power_int_add)
    then show ?thesis using rnd_powi2 [of e "int p + ?q" p] eq p by (simp add: on_grid_def)
  next
    case 3
    have "rnd p e x = - (2 powi (int p + ?q))" unfolding r 3 by (simp add: power_int_add)
    then show ?thesis using rnd_powi2 [of e "int p + ?q" p] eq p by (simp add: on_grid_def)
  qed
qed (simp add: on_grid_def)

subsection \<open>Evaluation on fractions\<close>

text \<open>
  The same rounding on a fraction of integers, by integer division only: the simplifier
  evaluates it on numerals, which is how the concrete instances of this development are
  checked.
\<close>

definition rne_div :: "int \<Rightarrow> int \<Rightarrow> int" where
  "rne_div n d = (let q = n div d in let r = 2 * (n mod d) in
     if r < d then q else if d < r then q + 1 else if even q then q else q + 1)"

definition ilog2_div :: "int \<Rightarrow> int \<Rightarrow> int" where
  "ilog2_div n d = (if d \<le> n then bitlen (n div d) - 1 else - bitlen ((d - 1) div n))"

definition rnd_div :: "nat \<Rightarrow> int \<Rightarrow> int \<Rightarrow> int \<Rightarrow> rat" where
  "rnd_div p e n d = (let q = max e (ilog2_div n d - (int p - 1)) in
     if 0 \<le> q then of_int (rne_div n (d * 2 ^ nat q)) * 2 ^ nat q
     else of_int (rne_div (n * 2 ^ nat (- q)) d) / 2 ^ nat (- q))"

lemma half_fraction:
  assumes "0 < d"
  shows "(of_int a / of_int d < (1 / 2 :: rat)) = (2 * a < d)"
    and "((1 / 2 :: rat) < of_int a / of_int d) = (d < 2 * a)"
proof -
  have "(of_int a / of_int d < (1 / 2 :: rat)) = (of_int (2 * a) < (of_int d :: rat))"
    using assms by (simp add: divide_less_eq mult.commute)
  then show "(of_int a / of_int d < (1 / 2 :: rat)) = (2 * a < d)" by (simp only: of_int_less_iff)
  have "((1 / 2 :: rat) < of_int a / of_int d) = ((of_int d :: rat) < of_int (2 * a))"
    using assms by (simp add: less_divide_eq mult.commute)
  then show "((1 / 2 :: rat) < of_int a / of_int d) = (d < 2 * a)" by (simp only: of_int_less_iff)
qed

lemma neg_div_pos: "0 < n \<Longrightarrow> - (- d div n) = (d - 1) div n + (1 :: int)"
proof -
  assume n: "0 < n"
  let ?q = "(d - 1) div n" and ?r = "(d - 1) mod n"
  have "- d = n * (- (?q + 1)) + (n - 1 - ?r)"
    using mult_div_mod_eq [of n "d - 1"] by (simp add: algebra_simps)
  moreover have "0 \<le> n - 1 - ?r" "n - 1 - ?r < n"
    using n pos_mod_bound [of n "d - 1"] pos_mod_sign [of n "d - 1"] by linarith+
  ultimately have "- d div n = - (?q + 1)" by (rule int_div_pos_eq)
  then show ?thesis by simp
qed

lemma rne_div:
  assumes "0 < d" shows "rne (of_int n / of_int d) = rne_div n d"
proof -
  have fl: "\<lfloor>of_int n / of_int d :: rat\<rfloor> = n div d" by (rule floor_divide_of_int_eq)
  have "(of_int n :: rat) = of_int (n div d) * of_int d + of_int (n mod d)"
    by (metis div_mult_mod_eq of_int_add of_int_mult)
  then have fr: "(of_int n / of_int d :: rat) - of_int (n div d) = of_int (n mod d) / of_int d"
    using assms by (simp add: field_simps)
  have lt: "(of_int (n mod d) / of_int d < (1 / 2 :: rat)) = (2 * (n mod d) < d)"
    and gt: "((1 / 2 :: rat) < of_int (n mod d) / of_int d) = (d < 2 * (n mod d))"
    using half_fraction [OF assms] by blast+
  show ?thesis unfolding rne_def rne_div_def Let_def fl fr lt gt ..
qed

lemma ilog2_div:
  assumes "0 < n" "0 < d" shows "ilog2 (of_int n / of_int d) = ilog2_div n d"
proof -
  have le: "(1 \<le> (of_int n / of_int d :: rat)) = (d \<le> n)" using assms by simp
  have "\<lceil>of_int d / of_int n :: rat\<rceil> - 1 = (d - 1) div n"
    using neg_div_pos [OF assms(1), of d] by (simp add: ceiling_divide_eq_div)
  then show ?thesis
    by (simp add: ilog2_def ilog2_div_def le floor_divide_of_int_eq)
qed

lemma powi2_neg: "q < 0 \<Longrightarrow> (2::rat) powi q = 1 / 2 ^ nat (- q)"
  by (simp add: power_int_def power_one_over)

lemma rnd_div:
  assumes "0 < n" "0 < d" shows "rnd p e (of_int n / of_int d) = rnd_div p e n d"
proof -
  let ?x = "of_int n / of_int d :: rat"
  let ?q = "max e (ilog2_div n d - (int p - 1))"
  have q: "ulp_exp p e ?x = ?q" using assms by (simp add: ulp_exp_def ilog2_div)
  have r: "rnd p e ?x = of_int (rne (?x / 2 powi ?q)) * 2 powi ?q"
    using assms by (simp add: rnd_def q Let_def)
  show ?thesis
  proof (cases "0 \<le> ?q")
    case True
    then have x: "?x / 2 powi ?q = of_int n / of_int (d * 2 ^ nat ?q)" by (simp add: power_int_def)
    have "rne (?x / 2 powi ?q) = rne_div n (d * 2 ^ nat ?q)"
      unfolding x using assms by (intro rne_div) simp
    then show ?thesis using True unfolding r
      by (simp add: rnd_div_def Let_def power_int_def)
  next
    case False
    then have q2: "(2::rat) powi ?q = 1 / 2 ^ nat (- ?q)" by (intro powi2_neg) linarith
    have x: "?x / 2 powi ?q = of_int (n * 2 ^ nat (- ?q)) / of_int d"
      unfolding q2 by simp
    have "rne (?x / 2 powi ?q) = rne_div (n * 2 ^ nat (- ?q)) d"
      unfolding x using assms by (intro rne_div) simp
    then show ?thesis using False unfolding r
      by (simp only: rnd_div_def Let_def q2 if_False mult_1_right times_divide_eq_right)
  qed
qed

lemma rnd_numeral:
  "rnd p e (numeral a / numeral b) = rnd_div p e (numeral a) (numeral b)"
  "rnd p e (1 / numeral b) = rnd_div p e 1 (numeral b)"
  "rnd p e (numeral a) = rnd_div p e (numeral a) 1"
  "rnd p e 1 = rnd_div p e 1 1"
proof -
  show "rnd p e (numeral a / numeral b) = rnd_div p e (numeral a) (numeral b)"
    by (metis of_int_numeral rnd_div zero_less_numeral)
  show "rnd p e (1 / numeral b) = rnd_div p e 1 (numeral b)"
    by (metis of_int_1 of_int_numeral rnd_div zero_less_numeral zero_less_one)
  show "rnd p e (numeral a) = rnd_div p e (numeral a) 1"
    by (metis of_int_1 of_int_numeral div_by_1 rnd_div zero_less_numeral zero_less_one)
  show "rnd p e 1 = rnd_div p e 1 1"
    by (metis of_int_1 div_by_1 rnd_div zero_less_one)
qed

lemma rnd_neg_numeral:
  "rnd p e (- (numeral a / numeral b)) = - rnd_div p e (numeral a) (numeral b)"
  "rnd p e (- (1 / numeral b)) = - rnd_div p e 1 (numeral b)"
  "rnd p e (- numeral a) = - rnd_div p e (numeral a) 1"
  "rnd p e (- 1) = - rnd_div p e 1 1"
  by (simp_all only: rnd_minus rnd_numeral)

lemmas rnd_eval = rnd_numeral rnd_neg_numeral rnd_div_def rne_div_def ilog2_div_def

end
