(* ===== verification/Floats.thy ===== *)
theory Floats
  imports Rounding "HOL-Library.Word"
begin

text \<open>
  Rust's \<open>f64\<close> and \<open>f32\<close>: IEEE 754 binary64 and binary32 with the default rounding.
  A value is not-a-number, an infinity, the negative zero, or a rational of the
  format's grid (\<open>Num 0\<close> is the positive zero), so two values are equal in the
  model exactly when they are the same float up to the payload of a NaN.
\<close>

datatype fp = NaN | PInf | NInf | NegZero | Num rat

datatype fmt = F32 | F64

primrec prec :: "fmt \<Rightarrow> nat" where
  "prec F32 = 24"
| "prec F64 = 53"

primrec emin :: "fmt \<Rightarrow> int" where
  "emin F32 = - 149"
| "emin F64 = - 1074"

text \<open>The first power of two above the largest finite value.\<close>

primrec huge :: "fmt \<Rightarrow> rat" where
  "huge F32 = 2 ^ 128"
| "huge F64 = 2 ^ 1024"

abbreviation frnd :: "fmt \<Rightarrow> rat \<Rightarrow> rat" where
  "frnd f \<equiv> rnd (prec f) (emin f)"

text \<open>Round an exact result into the format; \<open>neg\<close> is the sign of a zero result.\<close>

definition pack :: "fmt \<Rightarrow> bool \<Rightarrow> rat \<Rightarrow> fp" where
  "pack f neg x = (let r = frnd f x in
     if r = 0 then (if neg then NegZero else Num 0)
     else if huge f \<le> r then PInf
     else if r \<le> - huge f then NInf
     else Num r)"

primrec fval :: "fp \<Rightarrow> rat" where
  "fval NaN = 0"
| "fval PInf = 0"
| "fval NInf = 0"
| "fval NegZero = 0"
| "fval (Num x) = x"

primrec is_nan :: "fp \<Rightarrow> bool" where
  "is_nan NaN = True"
| "is_nan PInf = False"
| "is_nan NInf = False"
| "is_nan NegZero = False"
| "is_nan (Num x) = False"

primrec is_inf :: "fp \<Rightarrow> bool" where
  "is_inf NaN = False"
| "is_inf PInf = True"
| "is_inf NInf = True"
| "is_inf NegZero = False"
| "is_inf (Num x) = False"

definition is_finite :: "fp \<Rightarrow> bool" where
  "is_finite x \<longleftrightarrow> \<not> is_nan x \<and> \<not> is_inf x"

primrec signbit :: "fp \<Rightarrow> bool" where
  "signbit NaN = False"
| "signbit PInf = False"
| "signbit NInf = True"
| "signbit NegZero = True"
| "signbit (Num x) = (x < 0)"

lemma is_finite_simps [simp]:
  "\<not> is_finite NaN" "\<not> is_finite PInf" "\<not> is_finite NInf" "is_finite NegZero" "is_finite (Num x)"
  by (simp_all add: is_finite_def)

lemma is_finite_not_nan: "is_finite x \<Longrightarrow> \<not> is_nan x"
  by (simp add: is_finite_def)

subsection \<open>Arithmetic\<close>

primrec fneg :: "fp \<Rightarrow> fp" where
  "fneg NaN = NaN"
| "fneg PInf = NInf"
| "fneg NInf = PInf"
| "fneg NegZero = Num 0"
| "fneg (Num x) = (if x = 0 then NegZero else Num (- x))"

definition finf :: "bool \<Rightarrow> fp" where
  "finf neg = (if neg then NInf else PInf)"

definition fzero :: "bool \<Rightarrow> fp" where
  "fzero neg = (if neg then NegZero else Num 0)"

definition fadd :: "fmt \<Rightarrow> fp \<Rightarrow> fp \<Rightarrow> fp" where
  "fadd f x y =
     (if is_nan x \<or> is_nan y then NaN
      else if is_inf x then (if is_inf y \<and> x \<noteq> y then NaN else x)
      else if is_inf y then y
      else if x = NegZero \<and> y = NegZero then NegZero
      else pack f False (fval x + fval y))"

definition fsub :: "fmt \<Rightarrow> fp \<Rightarrow> fp \<Rightarrow> fp" where
  "fsub f x y = fadd f x (fneg y)"

definition fmul :: "fmt \<Rightarrow> fp \<Rightarrow> fp \<Rightarrow> fp" where
  "fmul f x y =
     (let s = (signbit x \<noteq> signbit y) in
      if is_nan x \<or> is_nan y then NaN
      else if is_inf x then (if is_finite y \<and> fval y = 0 then NaN else finf s)
      else if is_inf y then (if fval x = 0 then NaN else finf s)
      else pack f s (fval x * fval y))"

definition fdiv :: "fmt \<Rightarrow> fp \<Rightarrow> fp \<Rightarrow> fp" where
  "fdiv f x y =
     (let s = (signbit x \<noteq> signbit y) in
      if is_nan x \<or> is_nan y then NaN
      else if is_inf x then (if is_inf y then NaN else finf s)
      else if is_inf y then fzero s
      else if fval y = 0 then (if fval x = 0 then NaN else finf s)
      else pack f s (fval x / fval y))"

text \<open>Comparisons are false on NaN and do not tell the zeros apart.\<close>

definition flt :: "fp \<Rightarrow> fp \<Rightarrow> bool" where
  "flt x y =
     (if is_nan x \<or> is_nan y then False
      else if x = PInf \<or> y = NInf then False
      else if x = NInf \<or> y = PInf then x \<noteq> y
      else fval x < fval y)"

definition fle :: "fp \<Rightarrow> fp \<Rightarrow> bool" where
  "fle x y =
     (if is_nan x \<or> is_nan y then False
      else if x = NInf \<or> y = PInf then True
      else if x = PInf \<or> y = NInf then x = y
      else fval x \<le> fval y)"

definition feq :: "fp \<Rightarrow> fp \<Rightarrow> bool" where
  "feq x y \<longleftrightarrow> fle x y \<and> fle y x"

text \<open>
  \<open>f64::min\<close> ignores one NaN.  On two zeros of different sign Rust may return either;
  the model takes the second.
\<close>

definition fmin :: "fp \<Rightarrow> fp \<Rightarrow> fp" where
  "fmin x y = (if is_nan x then y else if is_nan y then x else if flt x y then x else y)"

text \<open>
  \<open>f64::clamp\<close> panics, here \<open>None\<close>, unless \<open>min <= max\<close>; in particular when either
  bound is NaN.  A NaN receiver stays NaN.
\<close>

definition fclamp :: "fp \<Rightarrow> fp \<Rightarrow> fp \<Rightarrow> fp option" where
  "fclamp x lo hi =
     (if \<not> fle lo hi then None
      else let x1 = (if flt x lo then lo else x);
               x2 = (if flt hi x1 then hi else x1)
           in Some x2)"

text \<open>\<open>f64::round\<close>: to the nearest integer, halves away from zero, the sign of a zero kept.\<close>

definition round_away :: "rat \<Rightarrow> int" where
  "round_away x = (if 0 \<le> x then \<lfloor>x + 1 / 2\<rfloor> else - \<lfloor>1 / 2 - x\<rfloor>)"

primrec fround :: "fp \<Rightarrow> fp" where
  "fround NaN = NaN"
| "fround PInf = PInf"
| "fround NInf = NInf"
| "fround NegZero = NegZero"
| "fround (Num x) =
     (let r = round_away x in if r = 0 \<and> x < 0 then NegZero else Num (of_int r))"

subsection \<open>Conversions\<close>

text \<open>\<open>as\<close> to an integer type truncates towards zero and saturates; NaN becomes 0.\<close>

definition trunc_rat :: "rat \<Rightarrow> int" where
  "trunc_rat x = (if 0 \<le> x then \<lfloor>x\<rfloor> else \<lceil>x\<rceil>)"

definition sat_int :: "int \<Rightarrow> int \<Rightarrow> fp \<Rightarrow> int" where
  "sat_int lo hi x = (case x of NaN \<Rightarrow> 0 | PInf \<Rightarrow> hi | NInf \<Rightarrow> lo | NegZero \<Rightarrow> 0
     | Num r \<Rightarrow> max lo (min hi (trunc_rat r)))"

definition as_u16 :: "fp \<Rightarrow> 16 word" where
  "as_u16 x = word_of_int (sat_int 0 (2 ^ 16 - 1) x)"

definition as_i32 :: "fp \<Rightarrow> 32 word" where
  "as_i32 x = word_of_int (sat_int (- (2 ^ 31)) (2 ^ 31 - 1) x)"

definition as_i64 :: "fp \<Rightarrow> 64 word" where
  "as_i64 x = word_of_int (sat_int (- (2 ^ 63)) (2 ^ 63 - 1) x)"

definition f64_of_int :: "int \<Rightarrow> fp" where
  "f64_of_int i = pack F64 False (of_int i)"

text \<open>A literal or parsed decimal number is the rounded exact value.\<close>

definition f64_lit :: "rat \<Rightarrow> fp" where
  "f64_lit x = pack F64 (x < 0) x"

definition f32_lit :: "rat \<Rightarrow> fp" where
  "f32_lit x = pack F32 (x < 0) x"

text \<open>\<open>as f32\<close> from \<open>f64\<close>.\<close>

primrec as_f32 :: "fp \<Rightarrow> fp" where
  "as_f32 NaN = NaN"
| "as_f32 PInf = PInf"
| "as_f32 NInf = NInf"
| "as_f32 NegZero = NegZero"
| "as_f32 (Num x) = pack F32 (x < 0) x"

subsection \<open>Facts about formats and packing\<close>

lemma prec_pos [simp]: "0 < prec f"
  by (cases f) simp_all

lemma huge_pos [simp]: "0 < huge f"
  by (cases f) simp_all

lemma emin_neg: "emin f < 0"
  by (cases f) simp_all

lemma prec_power [simp]:
  "(2::int) ^ prec F32 = 16777216" "(2::int) ^ prec F64 = 9007199254740992"
  by simp_all

declare prec.simps [simp del] emin.simps [simp del] huge.simps [simp del]

lemma pack_finite:
  assumes "\<bar>frnd f x\<bar> < huge f"
  shows "is_finite (pack f b x)" and "fval (pack f b x) = frnd f x"
  using assms by (auto simp: pack_def Let_def)

lemma pack_cases:
  "pack f b x \<noteq> NaN"
  "fval (pack f b x) = (if \<bar>frnd f x\<bar> < huge f then frnd f x else 0)"
  using huge_pos [of f] by (auto simp: pack_def Let_def)

lemma pack_not_nan [simp]: "\<not> is_nan (pack f b x)"
  by (simp add: pack_def Let_def)

text \<open>The representable values of a format; every operation returns one.\<close>

definition fp_ok :: "fmt \<Rightarrow> fp \<Rightarrow> bool" where
  "fp_ok f x \<longleftrightarrow> on_grid (prec f) (emin f) (fval x) \<and> \<bar>fval x\<bar> < huge f"

lemma on_grid_0 [simp]: "on_grid p e 0"
  by (simp add: on_grid_def)

lemma on_grid_minus [simp]: "on_grid p e (- x) = on_grid p e x"
  by (simp add: on_grid_def)

lemma on_grid_abs [simp]: "on_grid p e \<bar>x\<bar> = on_grid p e x"
  by (cases "0 \<le> x") simp_all

lemma on_grid_of_int: "\<bar>m\<bar> < 2 ^ prec f \<Longrightarrow> on_grid (prec f) (emin f) (of_int m)"
  using emin_neg [of f] by (simp add: on_grid_def rnd_of_int)

lemma on_grid_numeral:
  "(numeral m :: int) < 2 ^ prec f \<Longrightarrow> on_grid (prec f) (emin f) (numeral m)"
  "on_grid (prec f) (emin f) 1"
  using on_grid_of_int [of "numeral m" f] on_grid_of_int [of 1 f]
  by (simp_all add: one_less_power)

lemma fp_ok_pack [simp]: "fp_ok f (pack f b x)"
  using huge_pos [of f] by (auto simp: fp_ok_def pack_cases on_grid_rnd)

lemma fp_ok_simps [simp]: "fp_ok f NaN" "fp_ok f PInf" "fp_ok f NInf" "fp_ok f NegZero"
  by (simp_all add: fp_ok_def)

lemma fp_ok_fneg: "fp_ok f x \<Longrightarrow> fp_ok f (fneg x)"
  by (cases x) (auto simp: fp_ok_def)

lemma fp_ok_ops [simp]:
  "fp_ok f (fmul f x y)" "fp_ok f (fdiv f x y)"
  by (simp_all add: fmul_def fdiv_def finf_def fzero_def fp_ok_def [of f "Num 0"] Let_def)

lemma fp_ok_fadd: "fp_ok f x \<Longrightarrow> fp_ok f y \<Longrightarrow> fp_ok f (fadd f x y)"
  by (auto simp: fadd_def)

lemma fp_ok_fsub: "fp_ok f x \<Longrightarrow> fp_ok f y \<Longrightarrow> fp_ok f (fsub f x y)"
  by (simp add: fsub_def fp_ok_fadd fp_ok_fneg)

lemma fp_ok_fclamp:
  "fp_ok f x \<Longrightarrow> fp_ok f lo \<Longrightarrow> fp_ok f hi \<Longrightarrow> fclamp x lo hi = Some y \<Longrightarrow> fp_ok f y"
  by (auto simp: fclamp_def Let_def split: if_splits)

lemma fp_ok_conv [simp]:
  "fp_ok F64 (f64_of_int i)" "fp_ok F64 (f64_lit r)" "fp_ok F32 (f32_lit r)" "fp_ok F32 (as_f32 x)"
  by (simp_all add: f64_of_int_def f64_lit_def f32_lit_def) (cases x; simp)

subsection \<open>Values of finite operations\<close>

lemma fval_fneg [simp]: "fval (fneg x) = - fval x"
  by (cases x) simp_all

lemma is_finite_fneg [simp]: "is_finite (fneg x) = is_finite x"
  by (cases x) simp_all

lemma finite_not_inf [simp]: "is_finite x \<Longrightarrow> \<not> is_inf x" "is_finite x \<Longrightarrow> \<not> is_nan x"
  by (simp_all add: is_finite_def)

lemma fadd_finite:
  assumes "is_finite x" "is_finite y" "\<bar>frnd f (fval x + fval y)\<bar> < huge f"
  shows "is_finite (fadd f x y)" and "fval (fadd f x y) = frnd f (fval x + fval y)"
  using assms by (auto simp: fadd_def pack_finite)

lemma fsub_finite:
  assumes "is_finite x" "is_finite y" "\<bar>frnd f (fval x - fval y)\<bar> < huge f"
  shows "is_finite (fsub f x y)" and "fval (fsub f x y) = frnd f (fval x - fval y)"
  using fadd_finite [of x "fneg y" f] assms by (simp_all add: fsub_def)

lemma fmul_finite:
  assumes "is_finite x" "is_finite y" "\<bar>frnd f (fval x * fval y)\<bar> < huge f"
  shows "is_finite (fmul f x y)" and "fval (fmul f x y) = frnd f (fval x * fval y)"
  using assms by (auto simp: fmul_def pack_finite Let_def)

lemma fdiv_finite:
  assumes "is_finite x" "is_finite y" "fval y \<noteq> 0" "\<bar>frnd f (fval x / fval y)\<bar> < huge f"
  shows "is_finite (fdiv f x y)" and "fval (fdiv f x y) = frnd f (fval x / fval y)"
  using assms by (auto simp: fdiv_def pack_finite Let_def)

lemma flt_finite [simp]: "is_finite x \<Longrightarrow> is_finite y \<Longrightarrow> flt x y = (fval x < fval y)"
  by (cases x; cases y) (simp_all add: flt_def)

lemma fle_finite [simp]: "is_finite x \<Longrightarrow> is_finite y \<Longrightarrow> fle x y = (fval x \<le> fval y)"
  by (cases x; cases y) (simp_all add: fle_def)

lemma fle_nan [simp]: "\<not> fle NaN x" "\<not> fle x NaN" and flt_nan [simp]: "\<not> flt NaN x" "\<not> flt x NaN"
  by (simp_all add: fle_def flt_def)

subsection \<open>Bounds that survive rounding\<close>

definition in_range :: "rat \<Rightarrow> rat \<Rightarrow> fp \<Rightarrow> bool" where
  "in_range lo hi x \<longleftrightarrow> is_finite x \<and> lo \<le> fval x \<and> fval x \<le> hi"

lemma in_rangeD:
  "in_range lo hi x \<Longrightarrow> is_finite x" "in_range lo hi x \<Longrightarrow> lo \<le> fval x" "in_range lo hi x \<Longrightarrow> fval x \<le> hi"
  by (simp_all add: in_range_def)

lemma in_range_mono: "in_range lo hi x \<Longrightarrow> lo' \<le> lo \<Longrightarrow> hi \<le> hi' \<Longrightarrow> in_range lo' hi' x"
  by (auto simp: in_range_def)

text \<open>A grid point of a format that is not too large, the shape of every bound below.\<close>

definition bound_ok :: "fmt \<Rightarrow> rat \<Rightarrow> bool" where
  "bound_ok f b \<longleftrightarrow> on_grid (prec f) (emin f) b \<and> \<bar>b\<bar> < huge f"

lemma bound_ok_fval: "fp_ok f x = bound_ok f (fval x)"
  by (simp add: fp_ok_def bound_ok_def)

lemma bound_ok_minus [simp]: "bound_ok f (- b) = bound_ok f b"
  by (simp add: bound_ok_def)

lemma bound_ok_of_int:
  assumes "\<bar>m\<bar> < 2 ^ prec f" shows "bound_ok f (of_int m)"
proof -
  have "\<bar>of_int m :: rat\<bar> = of_int \<bar>m\<bar>" by simp
  also have "\<dots> < of_int (2 ^ prec f)" using assms by (simp only: of_int_less_iff)
  also have "\<dots> \<le> huge f" by (cases f) (simp_all add: huge.simps)
  finally show ?thesis using assms by (simp add: bound_ok_def on_grid_of_int)
qed

lemma bound_ok_numeral [simp]:
  "bound_ok f 0" "bound_ok f 1"
  "(numeral m :: int) < 2 ^ prec f \<Longrightarrow> bound_ok f (numeral m)"
  using bound_ok_of_int [of 0 f] bound_ok_of_int [of 1 f] bound_ok_of_int [of "numeral m" f]
  by (simp_all add: one_less_power)

lemma frnd_between:
  assumes "lo \<le> x" "x \<le> hi" "bound_ok f lo" "bound_ok f hi"
  shows "lo \<le> frnd f x" "frnd f x \<le> hi" "\<bar>frnd f x\<bar> < huge f"
proof -
  show 1: "lo \<le> frnd f x" and 2: "frnd f x \<le> hi"
    using assms by (simp_all add: bound_ok_def rnd_ge_grid rnd_le_grid)
  show "\<bar>frnd f x\<bar> < huge f" using 1 2 assms(3,4) by (auto simp: bound_ok_def abs_less_iff)
qed

lemma in_range_fadd:
  assumes "is_finite x" "is_finite y" "lo \<le> fval x + fval y" "fval x + fval y \<le> hi"
    "bound_ok f lo" "bound_ok f hi"
  shows "in_range lo hi (fadd f x y)"
  using frnd_between [OF assms(3-6)] fadd_finite [OF assms(1,2)] by (simp add: in_range_def)

lemma in_range_fsub:
  assumes "is_finite x" "is_finite y" "lo \<le> fval x - fval y" "fval x - fval y \<le> hi"
    "bound_ok f lo" "bound_ok f hi"
  shows "in_range lo hi (fsub f x y)"
  using frnd_between [OF assms(3-6)] fsub_finite [OF assms(1,2)] by (simp add: in_range_def)

lemma in_range_fmul:
  assumes "is_finite x" "is_finite y" "lo \<le> fval x * fval y" "fval x * fval y \<le> hi"
    "bound_ok f lo" "bound_ok f hi"
  shows "in_range lo hi (fmul f x y)"
  using frnd_between [OF assms(3-6)] fmul_finite [OF assms(1,2)] by (simp add: in_range_def)

lemma in_range_fdiv:
  assumes "is_finite x" "is_finite y" "fval y \<noteq> 0" "lo \<le> fval x / fval y" "fval x / fval y \<le> hi"
    "bound_ok f lo" "bound_ok f hi"
  shows "in_range lo hi (fdiv f x y)"
  using frnd_between [OF assms(4-7)] fdiv_finite [OF assms(1-3)] by (simp add: in_range_def)

lemma fclamp_in_range:
  assumes "is_finite lo" "is_finite hi" "fval lo \<le> fval hi" "\<not> is_nan x"
  shows "\<exists>y. fclamp x lo hi = Some y \<and> in_range (fval lo) (fval hi) y"
  using assms
  by (cases x; cases lo; cases hi) (auto simp: fclamp_def Let_def flt_def in_range_def)

lemma fclamp_id:
  assumes "in_range (fval lo) (fval hi) x" "is_finite lo" "is_finite hi"
  shows "fclamp x lo hi = Some x"
  using assms by (auto simp: fclamp_def Let_def in_range_def)

lemma fclamp_nan: "fle lo hi \<Longrightarrow> fclamp NaN lo hi = Some NaN"
  by (simp add: fclamp_def Let_def)

lemma fclamp_None_iff: "fclamp x lo hi = None \<longleftrightarrow> \<not> fle lo hi"
  by (simp add: fclamp_def Let_def)

end
