(* ===== verification/Casts.thy ===== *)
theory Casts
  imports Floats
begin

text \<open>
  Rounding to integers, the saturating \<open>as\<close> casts and the bit pattern of an \<open>f32\<close>,
  with the facts the register encodings rest on.
\<close>

subsection \<open>Nearest integer, halves away from zero\<close>

lemma round_away_of_int [simp]: "round_away (of_int k) = k"
proof -
  have "\<lfloor>of_int k + 1 / 2 :: rat\<rfloor> = k" "\<lfloor>1 / 2 - of_int k :: rat\<rfloor> = - k"
    by (simp_all add: floor_eq_iff)
  then show ?thesis by (simp add: round_away_def)
qed

lemma round_away_simps [simp]:
  "round_away 0 = 0" "round_away 1 = 1" "round_away (numeral n) = numeral n"
  "round_away (- numeral n) = - numeral n"
  using round_away_of_int [of 0] round_away_of_int [of 1] round_away_of_int [of "numeral n"]
    round_away_of_int [of "- numeral n"]
  by (simp_all only: of_int_0 of_int_1 of_int_numeral of_int_minus)

lemma round_away_close: "\<bar>of_int (round_away x) - x\<bar> \<le> 1 / 2"
proof (cases "0 \<le> x")
  case True
  have "\<bar>of_int \<lfloor>x + 1 / 2\<rfloor> - x\<bar> \<le> 1 / 2" using floor_correct [of "x + 1 / 2"] by linarith
  with True show ?thesis by (simp add: round_away_def)
next
  case False
  have "\<bar>- of_int \<lfloor>1 / 2 - x\<rfloor> - x\<bar> \<le> 1 / 2" using floor_correct [of "1 / 2 - x"] by linarith
  with False show ?thesis by (simp add: round_away_def)
qed

lemma round_away_mono:
  assumes "x \<le> y" shows "round_away x \<le> round_away y"
proof -
  consider "0 \<le> x" "0 \<le> y" | "x < 0" "0 \<le> y" | "x < 0" "y < 0" using assms by linarith
  then show ?thesis
  proof cases
    case 1 with assms show ?thesis by (simp add: round_away_def floor_mono)
  next
    case 2
    have "0 \<le> \<lfloor>1 / 2 - x\<rfloor>" "0 \<le> \<lfloor>y + 1 / 2\<rfloor>" using 2 by simp_all
    with 2 show ?thesis by (simp add: round_away_def del: zero_le_floor)
  next
    case 3
    have "\<lfloor>1 / 2 - y\<rfloor> \<le> \<lfloor>1 / 2 - x\<rfloor>" using assms by (intro floor_mono) simp
    with 3 show ?thesis by (simp add: round_away_def)
  qed
qed

lemma round_away_between:
  "of_int a \<le> x \<Longrightarrow> x \<le> of_int b \<Longrightarrow> a \<le> round_away x \<and> round_away x \<le> b"
  using round_away_mono [of "of_int a" x] round_away_mono [of x "of_int b"] by simp

lemma fround_finite:
  assumes "is_finite x"
  shows "is_finite (fround x)" and "fval (fround x) = of_int (round_away (fval x))"
  using assms by (cases x; auto simp: Let_def)+

lemma trunc_rat_of_int [simp]: "trunc_rat (of_int k) = k"
  by (simp add: trunc_rat_def)

lemma sat_int_fround:
  assumes "is_finite x" "lo \<le> 0" "0 \<le> hi"
  shows "sat_int lo hi (fround x) = max lo (min hi (round_away (fval x)))"
proof -
  have "sat_int lo hi y = max lo (min hi (trunc_rat (fval y)))" if "is_finite y" for y
    using that assms(2,3) by (cases y) (simp_all add: sat_int_def trunc_rat_def)
  then show ?thesis using fround_finite [OF assms(1)] by simp
qed

lemma sat_int_range: "lo \<le> 0 \<Longrightarrow> 0 \<le> hi \<Longrightarrow> lo \<le> sat_int lo hi x \<and> sat_int lo hi x \<le> hi"
  by (auto simp: sat_int_def split: fp.split)

lemma sint_of_int_32: "- (2 ^ 31) \<le> k \<Longrightarrow> k < 2 ^ 31 \<Longrightarrow> sint (word_of_int k :: 32 word) = k"
  by (simp add: sint_sbintrunc' signed_take_bit_int_eq_self)

lemma sint_of_int_64: "- (2 ^ 63) \<le> k \<Longrightarrow> k < 2 ^ 63 \<Longrightarrow> sint (word_of_int k :: 64 word) = k"
  by (simp add: sint_sbintrunc' signed_take_bit_int_eq_self)

lemma uint_of_int_16: "0 \<le> k \<Longrightarrow> k < 2 ^ 16 \<Longrightarrow> uint (word_of_int k :: 16 word) = k"
  by (simp add: uint_word_of_int)

text \<open>A rounded value in range is stored exactly; one out of range saturates.\<close>

lemma as_i32_fround:
  "is_finite x \<Longrightarrow> sint (as_i32 (fround x)) =
     max (- (2 ^ 31)) (min (2 ^ 31 - 1) (round_away (fval x)))"
  unfolding as_i32_def by (subst sint_of_int_32) (auto simp: sat_int_fround)

lemma as_i64_fround:
  "is_finite x \<Longrightarrow> sint (as_i64 (fround x)) =
     max (- (2 ^ 63)) (min (2 ^ 63 - 1) (round_away (fval x)))"
  unfolding as_i64_def by (subst sint_of_int_64) (auto simp: sat_int_fround)

lemma as_u16_fround:
  "is_finite x \<Longrightarrow> uint (as_u16 (fround x)) = max 0 (min (2 ^ 16 - 1) (round_away (fval x)))"
  unfolding as_u16_def by (subst uint_of_int_16) (auto simp: sat_int_fround)

lemma as_nan [simp]: "as_u16 NaN = 0" "as_i32 NaN = 0" "as_i64 NaN = 0"
  by (simp_all add: as_u16_def as_i32_def as_i64_def sat_int_def)

subsection \<open>Integers as floats\<close>

lemma f64_of_int_exact:
  assumes "\<bar>i\<bar> < 2 ^ 53"
  shows "f64_of_int i = Num (of_int i)"
proof -
  have "bound_ok F64 (of_int i)" using assms by (intro bound_ok_of_int) simp
  then have r: "frnd F64 (of_int i) = of_int i" and "\<bar>of_int i :: rat\<bar> < huge F64"
    by (simp_all add: bound_ok_def on_grid_def)
  then show ?thesis
    unfolding f64_of_int_def pack_def r Let_def by (auto simp: abs_less_iff)
qed

lemma f64_of_int_finite [simp]: "\<bar>i\<bar> < 2 ^ 53 \<Longrightarrow> is_finite (f64_of_int i)"
  by (simp add: f64_of_int_exact)

subsection \<open>The bit pattern of an f32\<close>

text \<open>
  \<open>f32::to_bits\<close>: sign, eight exponent bits, 23 fraction bits.  Rust leaves the payload
  of a NaN open; the model writes the canonical quiet NaN.
\<close>

definition f32_bits :: "fp \<Rightarrow> 32 word" where
  "f32_bits x = (case x of NaN \<Rightarrow> 0x7FC00000 | PInf \<Rightarrow> 0x7F800000 | NInf \<Rightarrow> 0xFF800000
     | NegZero \<Rightarrow> 0x80000000
     | Num r \<Rightarrow> (if r = 0 then 0
         else let k = max (- 126) (ilog2 \<bar>r\<bar>) in
           word_of_int ((if r < 0 then 2 ^ 31 else 0) + (k + 126) * 2 ^ 23
             + \<lfloor>\<bar>r\<bar> / 2 powi (k - 23)\<rfloor>)))"

text \<open>\<open>f32::from_bits\<close>, how a client decodes the register pair.\<close>

definition f32_of_bits :: "32 word \<Rightarrow> fp" where
  "f32_of_bits w = (let u = uint w; s = (2 ^ 31 \<le> u); e = (u div 2 ^ 23) mod 2 ^ 8; m = u mod 2 ^ 23 in
     if e = 255 then (if m = 0 then finf s else NaN)
     else if e = 0 \<and> m = 0 then fzero s
     else let a = (if e = 0 then of_int m * 2 powi (- 149)
                   else of_int (2 ^ 23 + m) * 2 powi (e - 150))
          in Num (if s then - a else a))"

lemma f32_fields:
  fixes s k m :: int
  assumes "s = 0 \<or> s = 1" "0 \<le> k" "k < 2 ^ 8" "0 \<le> m" "m < 2 ^ 23"
  defines "u \<equiv> s * 2 ^ 31 + k * 2 ^ 23 + m"
  shows "0 \<le> u" "u < 2 ^ 32" "(2 ^ 31 \<le> u) = (s = 1)" "(u div 2 ^ 23) mod 2 ^ 8 = k" "u mod 2 ^ 23 = m"
proof -
  have u: "u = (s * 2 ^ 8 + k) * 2 ^ 23 + m" by (simp add: u_def)
  show "0 \<le> u" "u < 2 ^ 32" "(2 ^ 31 \<le> u) = (s = 1)" using assms by (auto simp: u_def)
  have "u div 2 ^ 23 = s * 2 ^ 8 + k" unfolding u using assms(4,5) by simp
  then show "(u div 2 ^ 23) mod 2 ^ 8 = k" using assms(2,3) by simp
  show "u mod 2 ^ 23 = m"
    unfolding u using assms(4,5) by (simp only: mod_mult_self3 mod_pos_pos_trivial)
qed

lemma on_grid_multiple:
  assumes "on_grid p e x"
  obtains m where "x = of_int m * 2 powi ulp_exp p e x"
proof (cases "x = 0")
  case True then show ?thesis using that [of 0] by simp
next
  case False
  with assms have "x = of_int (rne (x / 2 powi ulp_exp p e x)) * 2 powi ulp_exp p e x"
    by (simp add: on_grid_def rnd_def Let_def)
  then show ?thesis by (rule that)
qed

lemma f32_of_bits_fields:
  assumes "s = 0 \<or> s = 1" "0 \<le> k" "k < 255" "0 \<le> m" "m < 2 ^ 23" "\<not> (k = 0 \<and> m = 0)"
  shows "f32_of_bits (word_of_int (s * 2 ^ 31 + k * 2 ^ 23 + m)) =
    (let a = (if k = 0 then of_int m * 2 powi (- 149) else of_int (2 ^ 23 + m) * 2 powi (k - 150))
     in Num (if s = 1 then - a else a))"
proof -
  let ?u = "s * 2 ^ 31 + k * 2 ^ 23 + m"
  have k: "k < 2 ^ 8" using assms(3) by simp
  note f = f32_fields [OF assms(1,2) k assms(4,5)]
  have "uint (word_of_int ?u :: 32 word) = ?u"
    using f(1,2) by (simp only: uint_word_of_int) simp
  then show ?thesis
    using assms(3,6) unfolding f32_of_bits_def Let_def by (simp only: f) simp
qed

text \<open>Decoding the bits of a representable single gives the single back.\<close>

lemma f32_bits_Num:
  assumes "fp_ok F32 (Num r)" "r \<noteq> 0"
  shows "f32_of_bits (f32_bits (Num r)) = Num r"
proof -
  let ?i = "ilog2 \<bar>r\<bar>"
  let ?k = "max (- 126) ?i"
  let ?q = "ulp_exp 24 (- 149) r"
  have q: "?q = ?k - 23" by (simp add: ulp_exp_def max_def)
  have r0: "0 < \<bar>r\<bar>" using assms(2) by simp
  note b = ilog2_bounds [OF r0]
  from assms have "on_grid 24 (- 149) r" and lt: "\<bar>r\<bar> < 2 ^ 128" by (auto simp: fp_ok_def huge.simps prec.simps emin.simps)
  then obtain M where M: "r = of_int M * 2 powi ?q" by (elim on_grid_multiple)
  define m where "m = \<bar>M\<bar>"
  have am: "\<bar>r\<bar> = of_int m * 2 powi ?q" unfolding m_def by (subst M) (simp add: abs_mult)
  have "\<bar>r\<bar> / 2 powi ?q = of_int m" by (subst am) simp
  then have fl: "\<lfloor>\<bar>r\<bar> / 2 powi (?k - 23)\<rfloor> = m" unfolding q by (simp only: floor_of_int)
  have "of_int m * 2 powi ?q \<noteq> (0::rat)" using r0 unfolding am [symmetric] by simp
  then have m1: "0 < m" by (auto simp: m_def)
  have "\<bar>r\<bar> < 2 powi (?q + 24)" using b(2) powi2_le_iff [of "?i + 1" "?q + 24"] unfolding q by simp
  then have "of_int m * 2 powi ?q < (2 ^ 24 * 2 powi ?q :: rat)" unfolding am by (simp add: power_int_add)
  then have "(of_int m :: rat) < of_int (2 ^ 24)" by simp
  then have m24: "m < 2 ^ 24" by (simp only: of_int_less_iff)
  have "(2::rat) powi 128 = 2 ^ 128" by (rule power_int_numeral)
  then have "(2::rat) powi ?i < 2 powi 128" using b(1) lt by linarith
  then have "?i < 128" by (simp only: powi2_less_iff)
  then have k127: "?k \<le> 127" by simp
  define s :: int where "s = (if r < 0 then 1 else 0)"
  have s01: "s = 0 \<or> s = 1" and sgn: "(if s = 1 then - \<bar>r\<bar> else \<bar>r\<bar>) = r" by (simp_all add: s_def)
  define k where "k = ?k"
  have "f32_bits (Num r) = word_of_int ((if r < 0 then 2 ^ 31 else 0) + (k + 126) * 2 ^ 23 + m)"
    unfolding k_def by (simp only: f32_bits_def fp.case assms(2) if_False Let_def fl)
  also have "(if r < 0 then 2 ^ 31 else 0) = s * 2 ^ 31" by (simp add: s_def)
  finally have bits: "f32_bits (Num r) = word_of_int (s * 2 ^ 31 + (k + 126) * 2 ^ 23 + m)" .
  show ?thesis
  proof (cases "- 126 \<le> ?i")
    case True
    then have "(2::rat) powi (?q + 23) \<le> \<bar>r\<bar>" using b(1) unfolding q by simp
    then have "(2 ^ 23 * 2 powi ?q :: rat) \<le> of_int m * 2 powi ?q" unfolding am by (simp add: power_int_add)
    then have "(of_int (2 ^ 23) :: rat) \<le> of_int m" by simp
    then have m23: "2 ^ 23 \<le> m" by (simp only: of_int_le_iff)
    have split: "s * 2 ^ 31 + (k + 126) * 2 ^ 23 + m = s * 2 ^ 31 + (k + 127) * 2 ^ 23 + (m - 2 ^ 23)"
      by simp
    have "0 \<le> k + 127" "k + 127 < 255" "0 \<le> m - 2 ^ 23" "m - 2 ^ 23 < 2 ^ 23" "k + 127 \<noteq> 0"
      using m23 m24 k127 by (simp_all add: k_def)
    with f32_of_bits_fields [OF s01, of "k + 127" "m - 2 ^ 23"]
    have "f32_of_bits (f32_bits (Num r)) =
        (let a = of_int (2 ^ 23 + (m - 2 ^ 23)) * 2 powi (k + 127 - 150) in Num (if s = 1 then - a else a))"
      unfolding bits split by (simp only: if_False simp_thms)
    also have "of_int (2 ^ 23 + (m - 2 ^ 23)) * 2 powi (k + 127 - 150) = \<bar>r\<bar>"
      using am unfolding q k_def [symmetric] by simp
    finally show ?thesis by (simp only: Let_def sgn)
  next
    case False
    then have k: "k = - 126" by (simp add: k_def)
    have "\<bar>r\<bar> < 2 powi (?q + 23)"
      using b(2) powi2_le_iff [of "?i + 1" "?q + 23"] False unfolding q by simp
    then have "of_int m * 2 powi ?q < (2 ^ 23 * 2 powi ?q :: rat)" unfolding am by (simp add: power_int_add)
    then have "(of_int m :: rat) < of_int (2 ^ 23)" by simp
    then have m23: "m < 2 ^ 23" by (simp only: of_int_less_iff)
    have "f32_of_bits (f32_bits (Num r)) =
        (let a = of_int m * 2 powi (- 149) in Num (if s = 1 then - a else a))"
      using f32_of_bits_fields [OF s01, of 0 m] m23 m1 unfolding bits k by simp
    also have "of_int m * 2 powi (- 149) = \<bar>r\<bar>"
      using am k unfolding q k_def [symmetric] by simp
    finally show ?thesis by (simp only: Let_def sgn)
  qed
qed

lemma f32_of_bits_special:
  "f32_of_bits 0x7FC00000 = NaN" "f32_of_bits 0x7F800000 = PInf" "f32_of_bits 0xFF800000 = NInf"
  "f32_of_bits 0x80000000 = NegZero" "f32_of_bits 0 = Num 0"
  by (simp_all add: f32_of_bits_def Let_def finf_def fzero_def)

lemma f32_bits_inverse:
  assumes "fp_ok F32 x" shows "f32_of_bits (f32_bits x) = x"
proof (cases x)
  case (Num r)
  then show ?thesis
    using assms f32_bits_Num [of r] f32_of_bits_special by (cases "r = 0") (simp_all add: f32_bits_def)
qed (simp_all add: f32_bits_def f32_of_bits_special)

subsection \<open>Comparing up to a tolerance\<close>

text \<open>\<open>f64::abs\<close> clears the sign.\<close>

definition fabs :: "fp \<Rightarrow> fp" where
  "fabs x = (if signbit x then fneg x else x)"

text \<open>\<open>(x - y).abs() < eps\<close>.\<close>

definition close_to :: "fp \<Rightarrow> fp \<Rightarrow> fp \<Rightarrow> bool" where
  "close_to x y eps \<longleftrightarrow> flt (fabs (fsub F64 x y)) eps"

subsection \<open>Evaluation of concrete floats\<close>

lemma floor_frac [simp]:
  "\<lfloor>numeral a / numeral b :: rat\<rfloor> = numeral a div numeral b"
  "\<lfloor>1 / numeral b :: rat\<rfloor> = 1 div numeral b"
  "\<lfloor>- (numeral a / numeral b) :: rat\<rfloor> = - numeral a div numeral b"
  "\<lfloor>- (1 / numeral b) :: rat\<rfloor> = - 1 div numeral b"
proof -
  have f: "\<lfloor>of_int a / of_int b :: rat\<rfloor> = a div b" for a b by (rule floor_divide_of_int_eq)
  show "\<lfloor>numeral a / numeral b :: rat\<rfloor> = numeral a div numeral b"
    using f [of "numeral a" "numeral b"] by simp
  show "\<lfloor>1 / numeral b :: rat\<rfloor> = 1 div numeral b"
    using f [of 1 "numeral b"] by simp
  show "\<lfloor>- (numeral a / numeral b) :: rat\<rfloor> = - numeral a div numeral b"
    using f [of "- numeral a" "numeral b"] by simp
  show "\<lfloor>- (1 / numeral b) :: rat\<rfloor> = - 1 div numeral b"
    using f [of "- 1" "numeral b"] by simp
qed

lemmas fp_eval = rnd_eval huge.simps prec.simps emin.simps pack_def f64_of_int_def f64_lit_def f32_lit_def fadd_def fsub_def fmul_def fdiv_def
  fmin_def fclamp_def finf_def fzero_def sat_int_def trunc_rat_def round_away_def
  as_u16_def as_i32_def as_i64_def

end
