(* ===== verification/RustStd.thy ===== *)
theory RustStd
  imports Prelude Casts
begin

text \<open>
  The pieces of Rust's standard library the mocks use beyond arithmetic: splitting and
  trimming strings, parsing integers and floats, reading optional environment
  variables, and durations.  Strings are byte strings; trimming knows the ASCII white
  space only.
\<close>

subsection \<open>Splitting and trimming\<close>

primrec split_on :: "char \<Rightarrow> string \<Rightarrow> string list" where
  "split_on c [] = [[]]"
| "split_on c (x # xs) =
     (if x = c then [] # split_on c xs
      else (case split_on c xs of [] \<Rightarrow> [[x]] | y # ys \<Rightarrow> (x # y) # ys))"

primrec split_once :: "char \<Rightarrow> string \<Rightarrow> (string \<times> string) option" where
  "split_once c [] = None"
| "split_once c (x # xs) =
     (if x = c then Some ([], xs) else map_option (\<lambda>(a, b). (x # a, b)) (split_once c xs))"

definition rsplit_once :: "char \<Rightarrow> string \<Rightarrow> (string \<times> string) option" where
  "rsplit_once c s = map_option (\<lambda>(a, b). (rev b, rev a)) (split_once c (rev s))"

definition is_space :: "char \<Rightarrow> bool" where
  "is_space c = (let n = of_char c :: nat in n = 32 \<or> 9 \<le> n \<and> n \<le> 13)"

definition trim :: "string \<Rightarrow> string" where
  "trim s = rev (dropWhile is_space (rev (dropWhile is_space s)))"

lemma split_on_nonempty: "split_on c s \<noteq> []"
  by (induction s) (auto split: list.split)

lemma split_on_plain: "c \<notin> set s \<Longrightarrow> split_on c s = [s]"
  by (induction s) auto

lemma split_on_append:
  "c \<notin> set a \<Longrightarrow> split_on c (a @ c # b) = a # split_on c b"
  by (induction a) auto

lemma split_once_append: "c \<notin> set a \<Longrightarrow> split_once c (a @ c # b) = Some (a, b)"
  by (induction a) auto

lemma split_once_None: "split_once c s = None \<longleftrightarrow> c \<notin> set s"
  by (induction s) auto

lemma rsplit_once_append: "c \<notin> set b \<Longrightarrow> rsplit_once c (a @ c # b) = Some (a, b)"
  using split_once_append [of c "rev b" "rev a"] by (simp add: rsplit_once_def)

lemma rsplit_once_None: "rsplit_once c s = None \<longleftrightarrow> c \<notin> set s"
  by (simp add: rsplit_once_def split_once_None)

subsection \<open>Parsing unsigned integers\<close>

definition digit_of :: "char \<Rightarrow> nat option" where
  "digit_of c = (let n = of_char c :: nat in if 48 \<le> n \<and> n \<le> 57 then Some (n - 48) else None)"

primrec parse_digits :: "nat \<Rightarrow> string \<Rightarrow> nat option" where
  "parse_digits acc [] = Some acc"
| "parse_digits acc (c # cs) =
     (case digit_of c of None \<Rightarrow> None | Some d \<Rightarrow> parse_digits (10 * acc + d) cs)"

text \<open>\<open>str::parse\<close> to an unsigned type of \<open>w\<close> bits: an optional plus, then digits only.\<close>

definition parse_uint :: "nat \<Rightarrow> string \<Rightarrow> nat option" where
  "parse_uint w s =
     (let ds = (case s of [] \<Rightarrow> [] | c # r \<Rightarrow> if c = CHR ''+'' then r else s) in
      if ds = [] then None
      else case parse_digits 0 ds of None \<Rightarrow> None
           | Some n \<Rightarrow> if n < 2 ^ w then Some n else None)"

lemma parse_uint_bound: "parse_uint w s = Some n \<Longrightarrow> n < 2 ^ w"
  by (auto simp: parse_uint_def Let_def split: option.splits if_splits)

text \<open>Decimal digits, the printing side of the round trip.\<close>

fun show_nat :: "nat \<Rightarrow> string" where
  "show_nat n = (if n < 10 then [char_of (48 + n)] else show_nat (n div 10) @ [char_of (48 + n mod 10)])"

declare show_nat.simps [simp del]

lemma of_char_digit: "d < 10 \<Longrightarrow> of_char (char_of (48 + d :: nat)) = (48 + d :: nat)"
  by simp

lemma digit_of_show: "d < 10 \<Longrightarrow> digit_of (char_of (48 + d)) = Some d"
  by (simp add: digit_of_def Let_def)

lemma parse_digits_append:
  "parse_digits a (s @ t) = Option.bind (parse_digits a s) (\<lambda>b. parse_digits b t)"
  by (induction s arbitrary: a) (auto split: option.split)

lemma parse_show_digits: "parse_digits 0 (show_nat n) = Some n"
proof (induction n rule: show_nat.induct)
  case (1 n)
  show ?case
  proof (cases "n < 10")
    case True
    then show ?thesis by (subst show_nat.simps) (simp add: digit_of_show)
  next
    case False
    with 1 have "parse_digits 0 (show_nat (n div 10)) = Some (n div 10)" by simp
    with False show ?thesis
      by (subst show_nat.simps) (simp add: parse_digits_append digit_of_show)
  qed
qed

lemma show_nat_digits: "c \<in> set (show_nat n) \<Longrightarrow> 48 \<le> (of_char c :: nat) \<and> (of_char c :: nat) \<le> 57"
proof (induction n rule: show_nat.induct)
  case (1 n)
  have m: "n mod 10 < 10" by simp
  show ?case
  proof (cases "n < 10")
    case True
    then show ?thesis using "1.prems" of_char_digit [of n] by (subst (asm) show_nat.simps) auto
  next
    case False
    with "1.prems" have "c \<in> set (show_nat (n div 10)) \<or> c = char_of (48 + n mod 10)"
      by (subst (asm) show_nat.simps) auto
    then show ?thesis using "1.IH" False of_char_digit [OF m] m by auto
  qed
qed

lemma show_nat_nonempty: "show_nat n \<noteq> []"
  by (subst show_nat.simps) simp

lemma show_nat_notin: "\<not> (48 \<le> (of_char c :: nat) \<and> (of_char c :: nat) \<le> 57) \<Longrightarrow> c \<notin> set (show_nat n)"
  using show_nat_digits by blast

lemma parse_show_uint:
  assumes "n < 2 ^ w" shows "parse_uint w (show_nat n) = Some n"
proof -
  obtain c r where cr: "show_nat n = c # r" using show_nat_nonempty by (cases "show_nat n") auto
  have "c \<noteq> CHR ''+''" using show_nat_notin [of "CHR ''+''" n] cr by auto
  then show ?thesis using parse_show_digits [of n] assms by (simp add: parse_uint_def Let_def cr)
qed

subsection \<open>Parsing f64\<close>

definition is_digit :: "char \<Rightarrow> bool" where
  "is_digit c = (digit_of c \<noteq> None)"

definition lower :: "char \<Rightarrow> char" where
  "lower c = (let n = of_char c :: nat in if 65 \<le> n \<and> n \<le> 90 then char_of (n + 32) else c)"

definition parse_exp :: "string \<Rightarrow> int option" where
  "parse_exp s = (case s of [] \<Rightarrow> None
     | c # r \<Rightarrow>
       (let neg = (c = CHR ''-''); ds = (if c = CHR ''-'' \<or> c = CHR ''+'' then r else s) in
        if ds = [] then None
        else map_option (\<lambda>n. if neg then - int n else int n) (parse_digits 0 ds)))"

text \<open>
  \<open>(digit+ | digit+ '.' digit* | digit* '.' digit+) ([eE] [+-]? digit+)?\<close>, as an exact
  rational.
\<close>

definition parse_decimal :: "string \<Rightarrow> rat option" where
  "parse_decimal s =
     (let ip = takeWhile is_digit s; r1 = dropWhile is_digit s;
          dot = (r1 \<noteq> [] \<and> hd r1 = CHR ''.'');
          fp = (if dot then takeWhile is_digit (tl r1) else []);
          r2 = (if dot then dropWhile is_digit (tl r1) else r1) in
      if ip = [] \<and> fp = [] then None
      else case parse_digits 0 (ip @ fp) of None \<Rightarrow> None
        | Some m \<Rightarrow>
          (case r2 of [] \<Rightarrow> Some (of_nat m * 10 powi (- int (length fp)))
           | c # r \<Rightarrow> if lower c = CHR ''e''
               then map_option (\<lambda>e. of_nat m * 10 powi (e - int (length fp))) (parse_exp r)
               else None))"

definition parse_f64 :: "string \<Rightarrow> fp option" where
  "parse_f64 s =
     (let neg = (s \<noteq> [] \<and> hd s = CHR ''-'');
          body = (if s \<noteq> [] \<and> (hd s = CHR ''-'' \<or> hd s = CHR ''+'') then tl s else s);
          word = map lower body in
      if word = ''inf'' \<or> word = ''infinity'' then Some (finf neg)
      else if word = ''nan'' then Some NaN
      else map_option (\<lambda>q. pack F64 neg (if neg then - q else q)) (parse_decimal body))"

lemma parse_f64_ok: "parse_f64 s = Some x \<Longrightarrow> fp_ok F64 x"
  by (auto simp: parse_f64_def Let_def finf_def split: if_splits)

lemmas parse_eval = parse_f64_def parse_decimal_def parse_exp_def is_digit_def digit_of_def
  lower_def parse_uint_def

subsection \<open>Optional environment variables\<close>

text \<open>\<open>env::var(name).ok().and_then(|s| s.parse().ok()).unwrap_or(default)\<close>.\<close>

definition env_uint :: "env \<Rightarrow> nat \<Rightarrow> string \<Rightarrow> nat \<Rightarrow> nat" where
  "env_uint env w name dflt =
     (case env name of None \<Rightarrow> dflt
      | Some s \<Rightarrow> (case parse_uint w s of None \<Rightarrow> dflt | Some n \<Rightarrow> n))"

lemma env_uint_bound: "d < 2 ^ w \<Longrightarrow> env_uint env w name d < 2 ^ w"
  by (auto simp: env_uint_def dest: parse_uint_bound split: option.split)

text \<open>Why a mock refuses to start, one constructor per message.\<close>

datatype startup_error =
    NotANumber string string
  | SocOutOfRange fp
  | TimeScaleNotPositive fp
  | NeedsHostPort string
  | BadPort string
  | UnknownProfile string
  | MissingEnv string

text \<open>Parse an optional \<open>f64\<close> variable, falling back to \<open>dflt\<close> when unset.\<close>

definition env_f64 :: "env \<Rightarrow> string \<Rightarrow> fp \<Rightarrow> startup_error + fp" where
  "env_f64 env name dflt =
     (case env name of
        Some raw \<Rightarrow> (case parse_f64 raw of
            Some x \<Rightarrow> Inr x
          | None \<Rightarrow> Inl (NotANumber name raw))
      | None \<Rightarrow> Inr dflt)"

lemma env_f64_ok: "env_f64 env name d = Inr x \<Longrightarrow> fp_ok F64 d \<Longrightarrow> fp_ok F64 x"
  by (auto simp: env_f64_def split: option.splits dest: parse_f64_ok)

text \<open>The paths a TLS listener needs; the first missing one is the error.\<close>

definition require_env_path :: "env \<Rightarrow> string \<Rightarrow> startup_error + string" where
  "require_env_path env var = (case env var of None \<Rightarrow> Inl (MissingEnv var) | Some raw \<Rightarrow> Inr raw)"

primrec require_env_paths :: "env \<Rightarrow> string list \<Rightarrow> startup_error + string list" where
  "require_env_paths env [] = Inr []"
| "require_env_paths env (v # vs) =
     (case require_env_path env v of Inl e \<Rightarrow> Inl e
      | Inr p \<Rightarrow> (case require_env_paths env vs of Inl e \<Rightarrow> Inl e | Inr ps \<Rightarrow> Inr (p # ps)))"

subsection \<open>Durations\<close>

record duration =
  secs :: nat
  nanos :: nat

definition from_millis :: "nat \<Rightarrow> duration" where
  "from_millis ms = \<lparr>secs = ms div 1000, nanos = (ms mod 1000) * 1000000\<rparr>"

definition as_secs_f64 :: "duration \<Rightarrow> fp" where
  "as_secs_f64 d = fadd F64 (f64_of_int (int (secs d)))
     (fdiv F64 (f64_of_int (int (nanos d))) (f64_lit 1000000000))"

end
