(* ===== verification/RackRegisters.thy ===== *)
theory RackRegisters
  imports RustStd
begin

text \<open>
  The register maps of mock-modbus-server: the \<open>bess_rack\<close> map with its int32 word
  helpers (\<open>rack_registers.rs\<close>), the derate curve (\<open>derate.rs\<close>), and the canned maps of
  the \<open>poi_meter\<close>, \<open>dc_external\<close> and \<open>pv_inverter\<close> profiles.
\<close>

type_synonym regs = "u16 \<rightharpoonup> u16"

subsection \<open>Derate curve (derate.rs)\<close>

definition DISCHARGE_TAPER_BELOW_PERCENT :: fp where
  "DISCHARGE_TAPER_BELOW_PERCENT = f64_lit 20"

definition CHARGE_TAPER_ABOVE_PERCENT :: fp where
  "CHARGE_TAPER_ABOVE_PERCENT = f64_lit 90"

text \<open>Present discharge limit, W (positive magnitude); \<open>None\<close> would be a panic of \<open>clamp\<close>.\<close>

definition max_discharge_w :: "fp \<Rightarrow> fp \<Rightarrow> fp option" where
  "max_discharge_w rated_w soc_percent =
     map_option (fmul F64 rated_w)
       (fclamp (fdiv F64 soc_percent DISCHARGE_TAPER_BELOW_PERCENT) (f64_lit 0) (f64_lit 1))"

text \<open>Present charge limit, W (positive magnitude).\<close>

definition max_charge_w :: "fp \<Rightarrow> fp \<Rightarrow> fp option" where
  "max_charge_w rated_w soc_percent =
     (let taper_width = fsub F64 (f64_lit 100) CHARGE_TAPER_ABOVE_PERCENT in
      map_option (fmul F64 rated_w)
        (fclamp (fdiv F64 (fsub F64 (f64_lit 100) soc_percent) taper_width) (f64_lit 0) (f64_lit 1)))"

subsection \<open>The bess_rack map (rack_registers.rs)\<close>

definition SOC :: u16 where "SOC = 0"
definition ACTIVE_POWER :: u16 where "ACTIVE_POWER = 10"
definition ENERGY_DISCHARGED :: u16 where "ENERGY_DISCHARGED = 30"
definition OPERATING_STATE :: u16 where "OPERATING_STATE = 40"
definition SETPOINT :: u16 where "SETPOINT = 50"
definition MAX_CHARGE :: u16 where "MAX_CHARGE = 60"
definition MAX_DISCHARGE :: u16 where "MAX_DISCHARGE = 62"

definition STANDBY :: u16 where "STANDBY = 0"
definition CHARGING :: u16 where "CHARGING = 1"
definition DISCHARGING :: u16 where "DISCHARGING = 2"

lemmas rack_addresses = SOC_def ACTIVE_POWER_def ENERGY_DISCHARGED_def OPERATING_STATE_def
  SETPOINT_def MAX_CHARGE_def MAX_DISCHARGE_def

text \<open>Read an int32 (high word first); a missing word reads as 0.\<close>

definition word_or_0 :: "regs \<Rightarrow> u16 \<Rightarrow> u16" where
  "word_or_0 holding addr = (case holding addr of None \<Rightarrow> 0 | Some v \<Rightarrow> v)"

definition read_i32 :: "regs \<Rightarrow> u16 \<Rightarrow> i32" where
  "read_i32 holding addr = join16 (word_or_0 holding addr) (word_or_0 holding (addr + 1))"

text \<open>Write a register unless the control surface is driving it.\<close>

definition put :: "regs \<Rightarrow> u16 set \<Rightarrow> u16 \<Rightarrow> u16 \<Rightarrow> regs" where
  "put holding driven addr value =
     (if addr \<in> driven then holding else holding(addr \<mapsto> value))"

text \<open>Write an int32 (high word first) unless either word is driven.\<close>

definition put_i32 :: "regs \<Rightarrow> u16 set \<Rightarrow> u16 \<Rightarrow> i32 \<Rightarrow> regs" where
  "put_i32 holding driven addr value =
     (if addr \<in> driven \<or> addr + 1 \<in> driven then holding
      else holding(addr \<mapsto> hi16 value, addr + 1 \<mapsto> lo16 value))"

text \<open>Initial register map for a rack at \<open>soc_percent\<close>.\<close>

definition initial_registers :: "fp \<Rightarrow> fp \<Rightarrow> regs option" where
  "initial_registers soc_percent rated_w =
     (let soc = as_u16 (fround (fmul F64 soc_percent (f64_lit 10)));
          holding = [SOC \<mapsto> soc, 10 \<mapsto> 0, 11 \<mapsto> 0, 12 \<mapsto> 0, 13 \<mapsto> 0, 20 \<mapsto> 4800, 22 \<mapsto> 6000,
            30 \<mapsto> 0, 31 \<mapsto> 0, OPERATING_STATE \<mapsto> STANDBY, SETPOINT \<mapsto> 0, SETPOINT + 1 \<mapsto> 0] in
      Option.bind (max_charge_w rated_w soc_percent) (\<lambda>charge.
      Option.bind (max_discharge_w rated_w soc_percent) (\<lambda>discharge.
        let holding = put_i32 holding {} MAX_CHARGE (as_i32 (fround charge)) in
        Some (put_i32 holding {} MAX_DISCHARGE (as_i32 (fround discharge))))))"

subsection \<open>The canned maps of the other profiles\<close>

text \<open>\<open>poi_meter\<close> (registers.rs).\<close>

definition poi_holding_registers :: regs where
  "poi_holding_registers = [3060 \<mapsto> 0, 3061 \<mapsto> 0, 3110 \<mapsto> 0x4270, 3111 \<mapsto> 0, 3150 \<mapsto> 0x3F7A,
     3151 \<mapsto> 0xE148, 3204 \<mapsto> 0, 3205 \<mapsto> 0, 3206 \<mapsto> 0x000F, 3207 \<mapsto> 0x4240, 3208 \<mapsto> 0, 3209 \<mapsto> 0,
     3210 \<mapsto> 0x0003, 3211 \<mapsto> 0xD090, 21330 \<mapsto> 0x4006, 21331 \<mapsto> 0x6666, 21332 \<mapsto> 0x4016,
     21333 \<mapsto> 0x6666, 21334 \<mapsto> 0x3FF9, 21335 \<mapsto> 0x999A]"

text \<open>\<open>dc_external\<close>: holding and input registers (dc_external.rs).\<close>

definition dc_holding_registers :: regs where
  "dc_holding_registers = [53249 \<mapsto> 2, 53257 \<mapsto> 300]"

definition dc_input_registers :: regs where
  "dc_input_registers = [53508 \<mapsto> 300, 53511 \<mapsto> 380, 53513 \<mapsto> 250, 53633 \<mapsto> 65, 53634 \<mapsto> 62, 53616 \<mapsto> 0]"

text \<open>\<open>pv_inverter\<close> (pv_inverter.rs).\<close>

definition pv_holding_registers :: regs where
  "pv_holding_registers = [40000 \<mapsto> 0x5375, 40001 \<mapsto> 0x6E53, 40002 \<mapsto> 1, 40003 \<mapsto> 66,
     40070 \<mapsto> 103, 40071 \<mapsto> 50, 40084 \<mapsto> 31250, 40085 \<mapsto> 2]"

subsection \<open>Reading back what was written\<close>

lemma succ_neq [simp]: "(a :: u16) + 1 \<noteq> a" "a \<noteq> a + 1"
  by simp_all

lemma read_put_i32 [store_simps]:
  "a \<notin> driven \<Longrightarrow> a + 1 \<notin> driven \<Longrightarrow> read_i32 (put_i32 h driven a v) a = v"
  by (simp add: read_i32_def put_i32_def word_or_0_def)

lemma read_put_i32_other [store_simps]:
  "b \<noteq> a \<Longrightarrow> b \<noteq> a + 1 \<Longrightarrow> b + 1 \<noteq> a \<Longrightarrow> read_i32 (put_i32 h driven a v) b = read_i32 h b"
  by (simp add: read_i32_def put_i32_def word_or_0_def)

lemma read_put_other [store_simps]:
  "b \<noteq> a \<Longrightarrow> b + 1 \<noteq> a \<Longrightarrow> read_i32 (put h driven a v) b = read_i32 h b"
  by (simp add: read_i32_def put_def word_or_0_def)

lemma put_lookup [store_simps]:
  "put h driven a v b = (if b = a \<and> a \<notin> driven then Some v else h b)"
  by (simp add: put_def)

lemma put_i32_lookup_other [store_simps]:
  "b \<noteq> a \<Longrightarrow> b \<noteq> a + 1 \<Longrightarrow> put_i32 h driven a v b = h b"
  by (simp add: put_i32_def)

text \<open>A driven register keeps its value, and no write removes a register.\<close>

lemma put_driven [frame_simps]: "b \<in> driven \<Longrightarrow> put h driven a v b = h b"
  by (auto simp: put_def)

lemma put_i32_driven [frame_simps]: "b \<in> driven \<Longrightarrow> put_i32 h driven a v b = h b"
  by (auto simp: put_i32_def)

lemma put_mono: "h b \<noteq> None \<Longrightarrow> put h driven a v b \<noteq> None"
  by (simp add: put_def)

lemma put_i32_mono: "h b \<noteq> None \<Longrightarrow> put_i32 h driven a v b \<noteq> None"
  by (simp add: put_i32_def)

subsection \<open>Bounds of the derate curve\<close>

lemma f64_lit_int:
  assumes "\<bar>m\<bar> < 2 ^ 53" shows "f64_lit (of_int m) = Num (of_int m)"
proof -
  have r: "frnd F64 (of_int m) = of_int m" "\<bar>of_int m :: rat\<bar> < huge F64"
    using bound_ok_of_int [of m F64] assms by (simp_all add: bound_ok_def on_grid_def)
  then show ?thesis by (auto simp: f64_lit_def pack_def Let_def abs_less_iff)
qed

lemma f64_lit_numeral [simp]:
  "f64_lit 0 = Num 0" "f64_lit 1 = Num 1"
  "(numeral m :: int) < 2 ^ 53 \<Longrightarrow> f64_lit (numeral m) = Num (numeral m)"
  using f64_lit_int [of 0] f64_lit_int [of 1] f64_lit_int [of "numeral m"] by simp_all

lemma taper_width [simp]: "fsub F64 (Num 100) (Num 90) = Num 10"
  by (simp add: fp_eval)

lemma unit_clamp:
  assumes "\<not> is_nan x"
  obtains y where "fclamp x (Num 0) (Num 1) = Some y" "in_range 0 1 y"
  using fclamp_in_range [of "Num 0" "Num 1" x] assms by auto

lemma fdiv_not_nan: "\<not> is_nan x \<Longrightarrow> y \<noteq> 0 \<Longrightarrow> \<not> is_nan (fdiv F64 x (Num y))"
  by (cases x) (simp_all add: fdiv_def finf_def Let_def)

lemma fsub_not_nan: "is_finite x \<Longrightarrow> \<not> is_nan y \<Longrightarrow> \<not> is_nan (fsub F64 x y)"
  by (cases y; cases x) (simp_all add: fsub_def fadd_def)

lemma scaled_in_range:
  assumes "in_range 0 1 y" "is_finite r" "0 \<le> fval r" "fp_ok F64 r"
  shows "in_range 0 (fval r) (fmul F64 r y)"
proof (rule in_range_fmul)
  show "0 \<le> fval r * fval y" using assms by (simp add: in_rangeD)
  show "fval r * fval y \<le> fval r" using assms by (simp add: in_rangeD mult_left_le)
qed (use assms in \<open>auto simp: in_rangeD simp flip: bound_ok_fval\<close>)

text \<open>
  With a sane rating and any SoC that is a number, both limits exist, are finite and lie
  between 0 and the rating.
\<close>

lemma max_discharge_bounds:
  assumes "is_finite rated" "0 \<le> fval rated" "fp_ok F64 rated" "\<not> is_nan soc"
  shows "\<exists>w. max_discharge_w rated soc = Some w \<and> in_range 0 (fval rated) w"
proof -
  have "\<not> is_nan (fdiv F64 soc (Num 20))" using assms(4) by (rule fdiv_not_nan) simp
  then obtain y where "fclamp (fdiv F64 soc (Num 20)) (Num 0) (Num 1) = Some y" "in_range 0 1 y"
    by (rule unit_clamp)
  then show ?thesis using scaled_in_range [OF _ assms(1-3)]
    by (simp add: max_discharge_w_def DISCHARGE_TAPER_BELOW_PERCENT_def)
qed

lemma max_charge_bounds:
  assumes "is_finite rated" "0 \<le> fval rated" "fp_ok F64 rated" "\<not> is_nan soc"
  shows "\<exists>w. max_charge_w rated soc = Some w \<and> in_range 0 (fval rated) w"
proof -
  let ?x = "fdiv F64 (fsub F64 (Num 100) soc) (Num 10)"
  have "\<not> is_nan ?x" using assms(4) by (intro fdiv_not_nan fsub_not_nan) simp_all
  then obtain y where "fclamp ?x (Num 0) (Num 1) = Some y" "in_range 0 1 y"
    by (rule unit_clamp)
  then show ?thesis using scaled_in_range [OF _ assms(1-3)]
    by (simp add: max_charge_w_def CHARGE_TAPER_ABOVE_PERCENT_def)
qed

text \<open>The curve in closed form, for a SoC a register can carry.\<close>

lemma clamp_unit_fval:
  "is_finite x \<Longrightarrow> fclamp x (Num 0) (Num 1) = Some y \<Longrightarrow> fval y = max 0 (min 1 (fval x))"
  by (cases x) (auto simp: fclamp_def Let_def max_def min_def split: if_splits)

lemma clamp_unit_finite:
  "\<not> is_nan x \<Longrightarrow> fclamp x (Num 0) (Num 1) = Some y \<Longrightarrow> in_range 0 1 y"
  using fclamp_in_range [of "Num 0" "Num 1" x] by auto

lemma frnd_scaled:
  assumes "in_range 0 1 y" "is_finite r" "0 \<le> fval r" "fp_ok F64 r"
  shows "fval (fmul F64 r y) = frnd F64 (fval r * fval y)"
proof (rule fmul_finite)
  show "\<bar>frnd F64 (fval r * fval y)\<bar> < huge F64"
    using assms by (intro frnd_between(3) [of 0 _ "fval r"])
      (auto simp: in_rangeD mult_left_le simp flip: bound_ok_fval)
qed (use assms in \<open>auto simp: in_rangeD\<close>)

lemma max_discharge_val:
  assumes "is_finite rated" "0 \<le> fval rated" "fp_ok F64 rated" "in_range 0 10000 soc"
    "max_discharge_w rated soc = Some w"
  shows "fval w = frnd F64 (fval rated * max 0 (min 1 (frnd F64 (fval soc / 20))))"
proof -
  let ?x = "fdiv F64 soc (Num 20)"
  have r: "\<bar>frnd F64 (fval soc / fval (Num 20))\<bar> < huge F64"
    using in_rangeD [OF assms(4)] by (intro frnd_between(3) [of 0 _ 10000]) auto
  have x: "is_finite ?x" "fval ?x = frnd F64 (fval soc / 20)"
    using fdiv_finite [OF _ _ _ r] in_rangeD(1) [OF assms(4)] by simp_all
  obtain y where y: "fclamp ?x (Num 0) (Num 1) = Some y" "w = fmul F64 rated y"
    using assms(5) by (auto simp: max_discharge_w_def DISCHARGE_TAPER_BELOW_PERCENT_def)
  have "in_range 0 1 y" using clamp_unit_finite [OF is_finite_not_nan [OF x(1)] y(1)] .
  from frnd_scaled [OF this assms(1-3)] show ?thesis
    using clamp_unit_fval [OF x(1) y(1)] x(2) y(2) by simp
qed

lemma max_charge_val:
  assumes "is_finite rated" "0 \<le> fval rated" "fp_ok F64 rated" "in_range 0 10000 soc"
    "max_charge_w rated soc = Some w"
  shows "fval w = frnd F64 (fval rated * max 0 (min 1 (frnd F64 (frnd F64 (100 - fval soc) / 10))))"
proof -
  let ?d = "fsub F64 (Num 100) soc"
  let ?x = "fdiv F64 ?d (Num 10)"
  note s = in_rangeD [OF assms(4)]
  have d: "in_range (- 10000) 10000 ?d" using s by (intro in_range_fsub) auto
  have "\<bar>frnd F64 (fval (Num 100) - fval soc)\<bar> < huge F64"
    using s by (intro frnd_between(3) [of "- 10000" _ 10000]) auto
  from fsub_finite(2) [OF _ s(1) this] have dv: "fval ?d = frnd F64 (100 - fval soc)" by simp
  have r: "\<bar>frnd F64 (fval ?d / fval (Num 10))\<bar> < huge F64"
    using in_rangeD [OF d] by (intro frnd_between(3) [of "- 10000" _ 10000]) auto
  have x: "is_finite ?x" "fval ?x = frnd F64 (frnd F64 (100 - fval soc) / 10)"
    using fdiv_finite [OF _ _ _ r] in_rangeD(1) [OF d] dv by simp_all
  obtain y where y: "fclamp ?x (Num 0) (Num 1) = Some y" "w = fmul F64 rated y"
    using assms(5) by (auto simp: max_charge_w_def CHARGE_TAPER_ABOVE_PERCENT_def)
  have "in_range 0 1 y" using clamp_unit_finite [OF is_finite_not_nan [OF x(1)] y(1)] .
  from frnd_scaled [OF this assms(1-3)] show ?thesis
    using clamp_unit_fval [OF x(1) y(1)] x(2) y(2) by simp
qed

text \<open>A sane rating: finite, not negative, a value of the format.\<close>

definition rating_ok :: "fp \<Rightarrow> bool" where
  "rating_ok r \<longleftrightarrow> is_finite r \<and> 0 \<le> fval r \<and> fp_ok F64 r"

lemma frnd_self: "fp_ok F64 x \<Longrightarrow> frnd F64 (fval x) = fval x"
  by (simp add: fp_ok_def on_grid_def)

lemma frnd_mono: "x \<le> y \<Longrightarrow> frnd f x \<le> frnd f y"
  by (rule rnd_mono) simp_all

lemma frnd_numeral: "(numeral m :: int) < 2 ^ prec f \<Longrightarrow> frnd f (numeral m) = numeral m" "frnd f 1 = 1"
  using on_grid_numeral [where f = f] by (simp_all add: on_grid_def)

end
