(* ===== verification/ModbusHandler.thy ===== *)
theory ModbusHandler
  imports RackRegisters
begin

text \<open>
  The request handler of mock-modbus-server over its register maps (\<open>handler.rs\<close>), the
  HTTP control surface that shares it (\<open>control.rs\<close>), and the sawtooth simulator
  (\<open>simulator.rs\<close>).
\<close>

subsection \<open>The handler (handler.rs)\<close>

datatype exception_code = IllegalFunction | IllegalDataAddress

record meter =
  holding :: regs
  input :: regs
  driven :: "u16 set"
  writable :: bool

definition meter_new :: "regs \<Rightarrow> meter" where
  "meter_new h = \<lparr>holding = h, input = Map.empty, driven = {}, writable = False\<rparr>"

text \<open>One insertion: the value into the map, the address into the driven set.\<close>

definition drive :: "u16 \<times> u16 \<Rightarrow> meter \<Rightarrow> meter" where
  "drive av m = m\<lparr>holding := (holding m)(fst av \<mapsto> snd av), driven := insert (fst av) (driven m)\<rparr>"

text \<open>The batch is given in the order the hash map is visited.\<close>

primrec apply_writes :: "(u16 \<times> u16) list \<Rightarrow> meter \<Rightarrow> meter" where
  "apply_writes [] m = m"
| "apply_writes (av # avs) m = apply_writes avs (drive av m)"

definition read_holding_register :: "meter \<Rightarrow> u16 \<Rightarrow> exception_code + u16" where
  "read_holding_register m address =
     (case holding m address of None \<Rightarrow> Inl IllegalDataAddress | Some v \<Rightarrow> Inr v)"

definition read_input_register :: "meter \<Rightarrow> u16 \<Rightarrow> exception_code + u16" where
  "read_input_register m address =
     (case input m address of None \<Rightarrow> Inl IllegalDataAddress | Some v \<Rightarrow> Inr v)"

text \<open>Function code 6.\<close>

definition write_single_register :: "u16 \<times> u16 \<Rightarrow> meter \<Rightarrow> meter \<times> (exception_code + unit)" where
  "write_single_register v m =
     (if \<not> writable m then (m, Inl IllegalFunction) else (drive v m, Inr ()))"

text \<open>Function code 16: the registers in the order of the request.\<close>

definition write_multiple_registers ::
  "(u16 \<times> u16) list \<Rightarrow> meter \<Rightarrow> meter \<times> (exception_code + unit)" where
  "write_multiple_registers values m =
     (if \<not> writable m then (m, Inl IllegalFunction) else (apply_writes values m, Inr ()))"

subsection \<open>The control surface (control.rs)\<close>

text \<open>
  \<open>PUT /registers\<close>.  \<open>extract\<close> is axum's JSON extractor: the entries of the body's hash map
  in its visiting order, or \<open>None\<close> when it rejects the request before the handler runs.
\<close>

definition put_registers ::
  "('req \<Rightarrow> (u16 \<times> u16) list option) \<Rightarrow> 'req \<Rightarrow> meter \<Rightarrow> meter \<times> http_status" where
  "put_registers extract req m =
     (case extract req of None \<Rightarrow> (m, REJECTED)
      | Some registers \<Rightarrow> (apply_writes registers m, NO_CONTENT))"

subsection \<open>Facts about writes\<close>

lemma drive_simps [simp]:
  "holding (drive av m) = (holding m)(fst av \<mapsto> snd av)"
  "driven (drive av m) = insert (fst av) (driven m)"
  "input (drive av m) = input m" "writable (drive av m) = writable m"
  by (simp_all add: drive_def)

lemma apply_writes_holding [store_simps]: "holding (apply_writes avs m) = insert_all avs (holding m)"
  by (induction avs arbitrary: m) auto

lemma apply_writes_driven [store_simps]: "driven (apply_writes avs m) = driven m \<union> fst ` set avs"
  by (induction avs arbitrary: m) auto

lemma apply_writes_frame [frame_simps]:
  "input (apply_writes avs m) = input m" "writable (apply_writes avs m) = writable m"
  by (induction avs arbitrary: m) auto

text \<open>Every driven address has a value: what keeps the rack model from panicking.\<close>

definition meter_ok :: "meter \<Rightarrow> bool" where
  "meter_ok m \<longleftrightarrow> driven m \<subseteq> dom (holding m)"

lemma meter_ok_new [simp]: "meter_ok (meter_new h)"
  by (simp add: meter_ok_def meter_new_def)

lemma meter_ok_drive: "meter_ok m \<Longrightarrow> meter_ok (drive av m)"
  by (auto simp: meter_ok_def)

lemma meter_ok_apply_writes: "meter_ok m \<Longrightarrow> meter_ok (apply_writes avs m)"
  by (induction avs arbitrary: m) (auto intro: meter_ok_drive)

lemma meter_ok_writes:
  "meter_ok m \<Longrightarrow> meter_ok (fst (write_single_register v m))"
  "meter_ok m \<Longrightarrow> meter_ok (fst (write_multiple_registers vs m))"
  "meter_ok m \<Longrightarrow> meter_ok (fst (put_registers extract req m))"
  by (auto simp: write_single_register_def write_multiple_registers_def put_registers_def
      intro: meter_ok_drive meter_ok_apply_writes split: option.split)

subsection \<open>The simulator (simulator.rs)\<close>

record int32_sawtooth =
  addr_high :: u16
  addr_low :: u16
  saw_min :: u32
  saw_max :: u32
  saw_step :: u32

definition saturating_add :: "u32 \<Rightarrow> u32 \<Rightarrow> u32" where
  "saturating_add a b = (if unat a + unat b < 2 ^ 32 then a + b else - 1)"

text \<open>The next value of a channel.\<close>

definition saw_next :: "int32_sawtooth \<Rightarrow> u32 \<Rightarrow> u32" where
  "saw_next s v = (let v' = saturating_add v (saw_step s) in if saw_max s < v' then saw_min s else v')"

definition saw_read :: "int32_sawtooth \<Rightarrow> regs \<Rightarrow> u32" where
  "saw_read s h = join16 (word_or_0 h (addr_high s)) (word_or_0 h (addr_low s))"

definition tick_channel :: "u16 set \<Rightarrow> int32_sawtooth \<Rightarrow> regs \<Rightarrow> regs" where
  "tick_channel drv s h =
     (if addr_high s \<in> drv \<or> addr_low s \<in> drv then h
      else let v = saw_next s (saw_read s h)
           in h(addr_high s \<mapsto> hi16 v, addr_low s \<mapsto> lo16 v))"

definition modbus_simulator :: "int32_sawtooth list" where
  "modbus_simulator = [\<lparr>addr_high = 3206, addr_low = 3207, saw_min = 1000000, saw_max = 1010000,
     saw_step = 100\<rparr>]"

definition modbus_tick :: "int32_sawtooth list \<Rightarrow> regs \<Rightarrow> u16 set \<Rightarrow> regs" where
  "modbus_tick saws h drv = fold (tick_channel drv) saws h"

lemma tick_channel_driven [frame_simps]: "a \<in> drv \<Longrightarrow> tick_channel drv s h a = h a"
  by (auto simp: tick_channel_def Let_def)

lemma modbus_tick_driven [frame_simps]: "a \<in> drv \<Longrightarrow> modbus_tick saws h drv a = h a"
  unfolding modbus_tick_def by (induction saws arbitrary: h) (auto simp: frame_simps)

lemma tick_channel_mono: "a \<in> dom h \<Longrightarrow> a \<in> dom (tick_channel drv s h)"
  by (auto simp: tick_channel_def Let_def)

lemma modbus_tick_mono: "a \<in> dom h \<Longrightarrow> a \<in> dom (modbus_tick saws h drv)"
  unfolding modbus_tick_def
  by (induction saws arbitrary: h) (simp_all add: tick_channel_mono)

lemma modbus_tick_Some: "h a = Some v \<Longrightarrow> \<exists>w. modbus_tick saws h drv a = Some w"
  using modbus_tick_mono [of a h saws drv] by auto

text \<open>The channel of the \<open>poi_meter\<close> profile.\<close>

definition kwh_saw :: int32_sawtooth where
  "kwh_saw = hd modbus_simulator"

lemma kwh_saw_simps [simp]:
  "addr_high kwh_saw = 3206" "addr_low kwh_saw = 3207" "saw_min kwh_saw = 1000000"
  "saw_max kwh_saw = 1010000" "saw_step kwh_saw = 100" "modbus_simulator = [kwh_saw]"
  by (simp_all add: kwh_saw_def modbus_simulator_def)

lemma kwh_next:
  assumes "v \<le> 1010000"
  shows "saw_next kwh_saw v = (if v \<le> 1009900 then v + 100 else 1000000)"
    and "unat (saw_next kwh_saw v) = (if v \<le> 1009900 then unat v + 100 else 1000000)"
proof -
  have u: "unat v \<le> 1010000" using assms by (simp add: word_le_nat_alt)
  then have s: "unat (v + 100) = unat v + 100" by (subst unat_add_lem [THEN iffD1]) simp_all
  have "(1010000 < v + 100) = (1010000 < unat v + 100)" by (simp add: word_less_nat_alt s)
  then have "(1010000 < v + 100) = (\<not> v \<le> 1009900)" by (simp add: word_le_nat_alt) linarith
  then show eq: "saw_next kwh_saw v = (if v \<le> 1009900 then v + 100 else 1000000)"
    using u by (simp add: saw_next_def saturating_add_def Let_def)
  show "unat (saw_next kwh_saw v) = (if v \<le> 1009900 then unat v + 100 else 1000000)"
    by (simp add: eq s)
qed

interpretation kwh: sawtooth "saw_next kwh_saw" "1000000" "1010000" "\<lambda>v. 1010000 - unat v"
proof
  show "(1000000 :: u32) \<le> 1010000" by simp
next
  fix x :: u32
  assume x: "1000000 \<le> x" "x \<le> 1010000"
  show "saw_next kwh_saw x = 1000000 \<or> x < saw_next kwh_saw x \<and> saw_next kwh_saw x \<le> 1010000
      \<and> 1010000 - unat (saw_next kwh_saw x) < 1010000 - unat x"
    using kwh_next [OF x(2)] x(2) by (auto simp: word_less_nat_alt word_le_nat_alt)
qed

text \<open>The exact wave: 101 values, one tick apart.\<close>

lemma kwh_wave: "unat ((saw_next kwh_saw ^^ n) 1000000) = 1000000 + 100 * (n mod 101)"
proof (induction n)
  case 0 then show ?case by simp
next
  case (Suc n)
  let ?v = "(saw_next kwh_saw ^^ n) 1000000"
  have le: "?v \<le> 1010000" using kwh.iterate_in_band [of 1000000 n] by simp
  have "unat (saw_next kwh_saw ?v) = (if n mod 101 \<le> 99 then unat ?v + 100 else 1000000)"
    using kwh_next(2) [OF le] Suc by (simp add: word_le_nat_alt)
  also have "\<dots> = 1000000 + 100 * (Suc n mod 101)"
    using Suc by (auto simp: mod_Suc not_le)
  finally show ?case by simp
qed

text \<open>One tick moves the pair by \<open>saw_next\<close>, unless either word is driven.\<close>

lemma modbus_tick_reads:
  assumes "3206 \<notin> drv" "3207 \<notin> drv"
  shows "saw_read kwh_saw (modbus_tick modbus_simulator h drv) = saw_next kwh_saw (saw_read kwh_saw h)"
    and "a \<noteq> 3206 \<Longrightarrow> a \<noteq> 3207 \<Longrightarrow> modbus_tick modbus_simulator h drv a = h a"
  using assms
  by (simp_all add: modbus_tick_def tick_channel_def saw_read_def [of _ "_(_ \<mapsto> _)"] word_or_0_def Let_def)

end
