(* ===== verification/Battery.thy ===== *)
theory Battery
  imports RackRegisters
begin

text \<open>
  The simulated rack of \<open>battery.rs\<close>: its configuration and state, one step of the
  model (which panics, \<open>None\<close>, where the code would), its construction from the
  environment, and the facts about one step.
\<close>

record battery_config =
  capacity_kwh :: fp
  power_limit_w :: fp
  time_scale :: fp

record battery =
  config :: battery_config
  soc_percent :: fp
  energy_discharged_wh :: fp

definition battery_new :: "battery_config \<Rightarrow> fp \<Rightarrow> battery" where
  "battery_new cfg initial_soc_percent =
     \<lparr>config = cfg, soc_percent = initial_soc_percent, energy_discharged_wh = f64_lit 0\<rparr>"

text \<open>Present \<open>(max_charge, max_discharge)\<close> magnitudes at this SoC.\<close>

definition limits :: "battery \<Rightarrow> (fp \<times> fp) option" where
  "limits b =
     (let rated = power_limit_w (config b); soc = soc_percent b in
      Option.bind (max_charge_w rated soc) (\<lambda>charge.
      Option.bind (max_discharge_w rated soc) (\<lambda>discharge. Some (charge, discharge))))"

text \<open>The setpoint the rack can actually deliver, within its present limits.\<close>

definition deliverable :: "battery \<Rightarrow> fp \<Rightarrow> fp option" where
  "deliverable b setpoint_w =
     Option.bind (limits b) (\<lambda>(charge, discharge). fclamp setpoint_w (fneg charge) discharge)"

text \<open>The simulated hours of a tick.\<close>

definition sim_hours :: "battery_config \<Rightarrow> duration \<Rightarrow> fp" where
  "sim_hours cfg dt = fdiv F64 (fmul F64 (as_secs_f64 dt) (time_scale cfg)) (f64_lit 3600)"

text \<open>A SoC driven through the control surface is taken as the new truth.\<close>

definition adopt_driven_soc :: "battery \<Rightarrow> regs \<Rightarrow> u16 set \<Rightarrow> battery option" where
  "adopt_driven_soc b holding driven =
     (if SOC \<in> driven then
        (case holding SOC of None \<Rightarrow> None
         | Some v \<Rightarrow> Some (b\<lparr>soc_percent := fmul F64 (f64_of_int (uint v)) (f64_lit (1 / 10))\<rparr>))
      else Some b)"

text \<open>The registers a step writes, in the order of the code.\<close>

definition write_registers ::
  "battery \<Rightarrow> fp \<Rightarrow> fp \<times> fp \<Rightarrow> u16 set \<Rightarrow> regs \<Rightarrow> regs" where
  "write_registers b power_w lims driven holding =
     (let state = (if flt (Num 0) power_w then DISCHARGING
                   else if flt power_w (Num 0) then CHARGING else STANDBY);
          h1 = put holding driven SOC (as_u16 (fround (fmul F64 (soc_percent b) (f64_lit 10))));
          h2 = put_i32 h1 driven ACTIVE_POWER (as_i32 (fround power_w));
          h3 = put_i32 h2 driven ENERGY_DISCHARGED (as_i32 (fround (energy_discharged_wh b)));
          h4 = put_i32 h3 driven MAX_CHARGE (as_i32 (fround (fst lims)));
          h5 = put_i32 h4 driven MAX_DISCHARGE (as_i32 (fround (snd lims)))
      in put h5 driven OPERATING_STATE state)"

text \<open>Advance the model by \<open>dt\<close> of wall time and write its registers.\<close>

definition battery_step ::
  "battery \<Rightarrow> regs \<Rightarrow> u16 set \<Rightarrow> duration \<Rightarrow> (battery \<times> regs) option" where
  "battery_step b holding driven dt =
     Option.bind (adopt_driven_soc b holding driven) (\<lambda>b1.
     Option.bind (deliverable b1 (f64_of_int (sint (read_i32 holding SETPOINT)))) (\<lambda>power_w.
       let hours = sim_hours (config b1) dt;
           energy_kwh = fdiv F64 (fmul F64 power_w hours) (f64_lit 1000);
           drained = fmul F64 (fdiv F64 energy_kwh (capacity_kwh (config b1))) (f64_lit 100) in
     Option.bind (fclamp (fsub F64 (soc_percent b1) drained) (f64_lit 0) (f64_lit 100)) (\<lambda>soc.
       let b2 = b1\<lparr>soc_percent := soc,
              energy_discharged_wh :=
                (if flt (f64_lit 0) power_w
                 then fadd F64 (energy_discharged_wh b1) (fmul F64 power_w hours)
                 else energy_discharged_wh b1)\<rparr> in
     Option.bind (limits b2) (\<lambda>lims.
       Some (b2, write_registers b2 power_w lims driven holding)))))"

subsection \<open>Construction from the environment\<close>

definition RACK_CAPACITY_KWH :: fp where "RACK_CAPACITY_KWH = f64_lit 3854"
definition RACK_POWER_LIMIT_W :: fp where "RACK_POWER_LIMIT_W = f64_lit 1927000"
definition DEFAULT_INITIAL_SOC_PERCENT :: fp where "DEFAULT_INITIAL_SOC_PERCENT = f64_lit 60"

text \<open>An error, or the rack with its registers; \<open>None\<close> is a panic.\<close>

definition battery_from_env :: "env \<Rightarrow> (startup_error + battery \<times> regs) option" where
  "battery_from_env env =
     (case env_f64 env ''BATTERY_TIME_SCALE'' (f64_lit 1) of
        Inl e \<Rightarrow> Some (Inl e)
      | Inr scale \<Rightarrow>
        (case env_f64 env ''BATTERY_INITIAL_SOC_PERCENT'' DEFAULT_INITIAL_SOC_PERCENT of
           Inl e \<Rightarrow> Some (Inl e)
         | Inr soc \<Rightarrow>
           (if \<not> (fle (f64_lit 0) soc \<and> fle soc (f64_lit 100)) then Some (Inl (SocOutOfRange soc))
            else if fle scale (f64_lit 0) then Some (Inl (TimeScaleNotPositive scale))
            else let cfg = \<lparr>capacity_kwh = RACK_CAPACITY_KWH, power_limit_w = RACK_POWER_LIMIT_W,
                            time_scale = scale\<rparr> in
              map_option (\<lambda>registers. Inr (battery_new cfg soc, registers))
                (initial_registers soc RACK_POWER_LIMIT_W))))"

subsection \<open>The invariant of a rack\<close>

definition config_ok :: "battery_config \<Rightarrow> bool" where
  "config_ok cfg \<longleftrightarrow> rating_ok (power_limit_w cfg) \<and> is_finite (capacity_kwh cfg) \<and> 0 < fval (capacity_kwh cfg)"

definition battery_ok :: "battery \<Rightarrow> bool" where
  "battery_ok b \<longleftrightarrow> config_ok (config b) \<and> in_range 0 100 (soc_percent b)
     \<and> fp_ok F64 (soc_percent b) \<and> fle (Num 0) (energy_discharged_wh b)
     \<and> fp_ok F64 (energy_discharged_wh b)"

text \<open>A tick is sane when its simulated hours are a finite, non-negative number.\<close>

definition tick_ok :: "battery_config \<Rightarrow> duration \<Rightarrow> bool" where
  "tick_ok cfg dt \<longleftrightarrow> is_finite (sim_hours cfg dt) \<and> 0 \<le> fval (sim_hours cfg dt)"

subsection \<open>Pieces of a step\<close>

lemma limits_bounds:
  assumes "rating_ok (power_limit_w (config b))" "\<not> is_nan (soc_percent b)"
  obtains c d where "limits b = Some (c, d)"
    "in_range 0 (fval (power_limit_w (config b))) c" "in_range 0 (fval (power_limit_w (config b))) d"
proof -
  let ?r = "power_limit_w (config b)"
  have r: "is_finite ?r" "0 \<le> fval ?r" "fp_ok F64 ?r" using assms(1) by (simp_all add: rating_ok_def)
  from max_charge_bounds [OF r assms(2)] max_discharge_bounds [OF r assms(2)]
  obtain c d where "max_charge_w ?r (soc_percent b) = Some c" "in_range 0 (fval ?r) c"
    "max_discharge_w ?r (soc_percent b) = Some d" "in_range 0 (fval ?r) d" by blast
  then show ?thesis by (intro that [of c d]) (simp_all add: limits_def Let_def)
qed

lemma limits_SomeD:
  "limits b = Some (c, d) \<Longrightarrow>
   max_charge_w (power_limit_w (config b)) (soc_percent b) = Some c \<and>
   max_discharge_w (power_limit_w (config b)) (soc_percent b) = Some d"
  by (auto simp: limits_def Let_def bind_eq_Some_conv)

lemma deliverable_in_limits:
  assumes "limits b = Some (c, d)" "in_range 0 r c" "in_range 0 r d" "\<not> is_nan sp"
  obtains p where "deliverable b sp = Some p" "in_range (- fval c) (fval d) p"
proof -
  have "fval (fneg c) \<le> fval d" using assms by (simp add: in_range_def)
  with assms obtain p where "fclamp sp (fneg c) d = Some p" "in_range (fval (fneg c)) (fval d) p"
    using fclamp_in_range [of "fneg c" d sp] in_rangeD(1) [OF assms(2)] in_rangeD(1) [OF assms(3)]
    by auto
  with assms(1) show ?thesis by (intro that) (simp_all add: deliverable_def)
qed

lemma setpoint_finite [simp]: "is_finite (f64_of_int (sint (w :: i32)))"
  using sint_ge [of w] sint_lt [of w] by (intro f64_of_int_finite) simp

lemma adopted_soc:
  "in_range 0 10000 (fmul F64 (f64_of_int (uint (v :: u16))) (f64_lit (1 / 10)))"
proof -
  have lit: "f64_lit (1 / 10) = Num (3602879701896397 / 36028797018963968)" by (simp add: fp_eval)
  have u: "0 \<le> uint v" by simp
  have "uint v < 65536" using uint_bounded [of v] by simp
  note u = u this
  then have e: "f64_of_int (uint v) = Num (of_int (uint v))" by (intro f64_of_int_exact) simp
  have "(of_int (uint v) :: rat) < of_int 65536" using u(2) by (simp only: of_int_less_iff)
  moreover have "(0 :: rat) \<le> of_int (uint v)" using u(1) by (simp only: of_int_0_le_iff)
  ultimately show ?thesis unfolding lit e by (intro in_range_fmul) auto
qed

text \<open>No arithmetic of a sane tick yields NaN.\<close>

lemma fmul_finite_not_nan: "is_finite x \<Longrightarrow> is_finite y \<Longrightarrow> \<not> is_nan (fmul F64 x y)"
  by (simp add: fmul_def Let_def)

lemma fmul_num_not_nan: "\<not> is_nan x \<Longrightarrow> y \<noteq> 0 \<Longrightarrow> \<not> is_nan (fmul F64 x (Num y))"
  by (cases x) (simp_all add: fmul_def finf_def Let_def)

lemma fdiv_pos_not_nan:
  "\<not> is_nan x \<Longrightarrow> is_finite y \<Longrightarrow> fval y \<noteq> 0 \<Longrightarrow> \<not> is_nan (fdiv F64 x y)"
  by (cases x; cases y) (simp_all add: fdiv_def finf_def Let_def)

lemma drained_not_nan:
  assumes "is_finite p" "is_finite h" "is_finite c" "0 < fval c" "is_finite soc"
  shows "\<not> is_nan (fsub F64 soc (fmul F64 (fdiv F64 (fdiv F64 (fmul F64 p h) (Num 1000)) c) (Num 100)))"
  using assms
  by (intro fsub_not_nan fmul_num_not_nan fdiv_pos_not_nan fdiv_not_nan fmul_finite_not_nan) simp_all

text \<open>Floats that are at least zero, infinity included.\<close>

lemma pack_nonneg: "0 \<le> x \<Longrightarrow> fle (Num 0) (pack F64 b x)"
  using rnd_nonneg [of x "prec F64" "emin F64"] huge_pos [of F64]
  by (auto simp: pack_def Let_def fle_def)

lemma fle_0_cases: "fle (Num 0) x \<longleftrightarrow> x = PInf \<or> is_finite x \<and> 0 \<le> fval x"
  by (cases x) (auto simp: fle_def)

lemma fadd_nonneg: "fle (Num 0) x \<Longrightarrow> fle (Num 0) y \<Longrightarrow> fle (Num 0) (fadd F64 x y)"
  by (auto simp: fle_0_cases [of x] fle_0_cases [of y] fadd_def pack_nonneg)

lemma fmul_nonneg:
  "is_finite x \<Longrightarrow> is_finite y \<Longrightarrow> 0 \<le> fval x \<Longrightarrow> 0 \<le> fval y \<Longrightarrow> fle (Num 0) (fmul F64 x y)"
  by (simp add: fmul_def Let_def pack_nonneg)

lemma clamp_soc:
  assumes "\<not> is_nan x" "fclamp x (Num 0) (Num 100) = Some y"
  shows "in_range 0 100 y"
  using fclamp_in_range [of "Num 0" "Num 100" x] assms by auto

lemma fp_ok_num [simp]: "fp_ok F64 (Num 0)" "(numeral m :: int) < 2 ^ 53 \<Longrightarrow> fp_ok F64 (Num (numeral m))"
  by (simp_all add: bound_ok_fval)

subsection \<open>The whole step\<close>

text \<open>What a successful step computes, by name.\<close>

lemma battery_stepE:
  assumes "battery_step b holding driven dt = Some (b', holding')"
  obtains b1 p soc lims where
    "adopt_driven_soc b holding driven = Some b1"
    "deliverable b1 (f64_of_int (sint (read_i32 holding SETPOINT))) = Some p"
    "fclamp (fsub F64 (soc_percent b1)
       (fmul F64 (fdiv F64 (fdiv F64 (fmul F64 p (sim_hours (config b1) dt)) (Num 1000))
          (capacity_kwh (config b1))) (Num 100))) (Num 0) (Num 100) = Some soc"
    "b' = b1\<lparr>soc_percent := soc, energy_discharged_wh :=
       (if flt (Num 0) p then fadd F64 (energy_discharged_wh b1) (fmul F64 p (sim_hours (config b1) dt))
        else energy_discharged_wh b1)\<rparr>"
    "limits b' = Some lims"
    "holding' = write_registers b' p lims driven holding"
  using assms unfolding battery_step_def
  by (auto simp: bind_eq_Some_conv Let_def intro!: that)

lemma adopt_frame:
  "adopt_driven_soc b holding driven = Some b1 \<Longrightarrow>
   config b1 = config b \<and> energy_discharged_wh b1 = energy_discharged_wh b"
  by (auto simp: adopt_driven_soc_def split: if_splits option.splits)

lemma adopt_None: "adopt_driven_soc b holding driven = None \<longleftrightarrow> SOC \<in> driven \<and> holding SOC = None"
  by (auto simp: adopt_driven_soc_def split: option.split)

lemma adopt_total:
  "SOC \<in> driven \<longrightarrow> holding SOC \<noteq> None \<Longrightarrow> \<exists>b1. adopt_driven_soc b holding driven = Some b1"
  using adopt_None [of b holding driven] by (cases "adopt_driven_soc b holding driven") auto

lemma adopt_soc_finite:
  assumes "adopt_driven_soc b holding driven = Some b1" "battery_ok b"
  shows "in_range 0 10000 (soc_percent b1)" "fp_ok F64 (soc_percent b1)"
proof -
  have "in_range 0 10000 (soc_percent b)" "fp_ok F64 (soc_percent b)"
    using assms(2) in_range_mono [of 0 100 "soc_percent b" 0 10000] by (auto simp: battery_ok_def)
  then show "in_range 0 10000 (soc_percent b1)" "fp_ok F64 (soc_percent b1)"
    using assms(1) adopted_soc by (auto simp: adopt_driven_soc_def split: if_splits option.splits)
qed

lemma step_config:
  "battery_step b holding driven dt = Some (b', holding') \<Longrightarrow> config b' = config b"
  by (elim battery_stepE) (simp add: adopt_frame)

text \<open>A sane rack never panics on a sane tick, and stays sane.\<close>

lemma battery_step_total:
  assumes ok: "battery_ok b" and tick: "tick_ok (config b) dt"
    and soc: "SOC \<in> driven \<longrightarrow> holding SOC \<noteq> None"
  shows "\<exists>b' holding'. battery_step b holding driven dt = Some (b', holding') \<and> battery_ok b'"
proof -
  let ?sp = "f64_of_int (sint (read_i32 holding SETPOINT))"
  from soc obtain b1 where b1: "adopt_driven_soc b holding driven = Some b1"
    using adopt_total by blast
  have cfg: "config b1 = config b" and en: "energy_discharged_wh b1 = energy_discharged_wh b"
    using adopt_frame [OF b1] by auto
  have cok: "config_ok (config b1)" using ok cfg by (simp add: battery_ok_def)
  have s1: "is_finite (soc_percent b1)" using adopt_soc_finite(1) [OF b1 ok] by (rule in_rangeD)
  have r1: "rating_ok (power_limit_w (config b1))" using cok by (simp add: config_ok_def)
  obtain c d where lim: "limits b1 = Some (c, d)"
    "in_range 0 (fval (power_limit_w (config b1))) c" "in_range 0 (fval (power_limit_w (config b1))) d"
    using limits_bounds [OF r1 is_finite_not_nan [OF s1]] by blast
  obtain p where p: "deliverable b1 ?sp = Some p" "in_range (- fval c) (fval d) p"
    using deliverable_in_limits [OF lim] is_finite_not_nan [OF setpoint_finite] by blast
  have pf: "is_finite p" using p(2) by (rule in_rangeD)
  let ?h = "sim_hours (config b1) dt"
  let ?x = "fsub F64 (soc_percent b1)
     (fmul F64 (fdiv F64 (fdiv F64 (fmul F64 p ?h) (Num 1000)) (capacity_kwh (config b1))) (Num 100))"
  have h: "is_finite ?h" "0 \<le> fval ?h" using tick cfg by (simp_all add: tick_ok_def)
  have nn: "\<not> is_nan ?x"
    using pf h(1) cok s1 by (intro drained_not_nan) (auto simp: config_ok_def)
  obtain soc where soc: "fclamp ?x (Num 0) (Num 100) = Some soc" "in_range 0 100 soc"
    using fclamp_in_range [of "Num 0" "Num 100" ?x] nn by auto
  have sok: "fp_ok F64 soc"
    using soc(1) adopt_soc_finite(2) [OF b1 ok] by (elim fp_ok_fclamp [rotated 3]) (auto intro: fp_ok_fsub)
  define b2 where "b2 = b1\<lparr>soc_percent := soc, energy_discharged_wh :=
     (if flt (Num 0) p then fadd F64 (energy_discharged_wh b1) (fmul F64 p ?h) else energy_discharged_wh b1)\<rparr>"
  have b2: "battery_ok b2"
    using cok soc(2) sok ok pf h en
    by (auto simp: b2_def battery_ok_def intro!: fadd_nonneg fmul_nonneg fp_ok_fadd)
  then have "rating_ok (power_limit_w (config b2))" "\<not> is_nan (soc_percent b2)"
    using is_finite_not_nan [OF in_rangeD(1) [of 0 100 "soc_percent b2"]]
    by (auto simp: battery_ok_def config_ok_def)
  then obtain c' d' where "limits b2 = Some (c', d')" by (rule limits_bounds)
  with b1 p(1) soc(1) b2 show ?thesis
    by (auto simp: battery_step_def Let_def b2_def)
qed

text \<open>So a successful step of a sane rack on a sane tick keeps it sane.\<close>

lemma battery_step_ok:
  assumes "battery_ok b" "tick_ok (config b) dt"
    and "battery_step b holding driven dt = Some (b', holding')"
  shows "battery_ok b'"
proof -
  have "SOC \<in> driven \<longrightarrow> holding SOC \<noteq> None"
    using assms(3) adopt_None [of b holding driven] by (auto elim: battery_stepE)
  from battery_step_total [where driven = driven and holding = holding, OF assms(1,2) this] assms(3) show ?thesis by auto
qed

end
