(* ===== verification/BatteryFacts.thy ===== *)
theory BatteryFacts
  imports Battery
begin

text \<open>
  What one step of the rack does to its state and its registers: the output is the
  setpoint clipped to the present limits, discharging never raises the SoC and charging
  never lowers it, the energy counter never falls, driven registers are left alone.
\<close>

subsection \<open>Registers\<close>

lemma write_registers_driven [frame_simps]:
  "a \<in> driven \<Longrightarrow> write_registers b p lims driven holding a = holding a"
  by (simp add: write_registers_def Let_def frame_simps)

lemma write_registers_mono:
  "holding a \<noteq> None \<Longrightarrow> write_registers b p lims driven holding a \<noteq> None"
  by (simp add: write_registers_def Let_def put_mono put_i32_mono)

lemma write_registers_setpoint:
  "read_i32 (write_registers b p lims driven holding) SETPOINT = read_i32 holding SETPOINT"
  by (simp add: write_registers_def Let_def store_simps rack_addresses)

lemma write_registers_power:
  "ACTIVE_POWER \<notin> driven \<Longrightarrow> ACTIVE_POWER + 1 \<notin> driven \<Longrightarrow>
   read_i32 (write_registers b p lims driven holding) ACTIVE_POWER = as_i32 (fround p)"
  by (simp add: write_registers_def Let_def store_simps rack_addresses)

lemma write_registers_energy:
  "ENERGY_DISCHARGED \<notin> driven \<Longrightarrow> ENERGY_DISCHARGED + 1 \<notin> driven \<Longrightarrow>
   read_i32 (write_registers b p lims driven holding) ENERGY_DISCHARGED
     = as_i32 (fround (energy_discharged_wh b))"
  by (simp add: write_registers_def Let_def store_simps rack_addresses)

lemma write_registers_limits:
  "MAX_CHARGE \<notin> driven \<Longrightarrow> MAX_CHARGE + 1 \<notin> driven \<Longrightarrow>
   read_i32 (write_registers b p lims driven holding) MAX_CHARGE = as_i32 (fround (fst lims))"
  "MAX_DISCHARGE \<notin> driven \<Longrightarrow> MAX_DISCHARGE + 1 \<notin> driven \<Longrightarrow>
   read_i32 (write_registers b p lims driven holding) MAX_DISCHARGE = as_i32 (fround (snd lims))"
  by (simp_all add: write_registers_def Let_def store_simps rack_addresses)

lemma write_registers_soc:
  "SOC \<notin> driven \<Longrightarrow> write_registers b p lims driven holding SOC
     = Some (as_u16 (fround (fmul F64 (soc_percent b) (Num 10))))"
  by (simp add: write_registers_def Let_def store_simps rack_addresses)

lemma write_registers_state:
  "OPERATING_STATE \<notin> driven \<Longrightarrow> write_registers b p lims driven holding OPERATING_STATE
     = Some (if flt (Num 0) p then DISCHARGING else if flt p (Num 0) then CHARGING else STANDBY)"
  by (simp add: write_registers_def Let_def store_simps rack_addresses)

subsection \<open>The output\<close>

lemma fclamp_fval:
  assumes "is_finite x" "is_finite lo" "is_finite hi" "fval lo \<le> fval hi" "fclamp x lo hi = Some y"
  shows "fval y = max (fval lo) (min (fval hi) (fval x))"
  using assms by (auto simp: fclamp_def Let_def max_def min_def split: if_splits)

lemma setpoint_fval: "fval (f64_of_int (sint (w :: i32))) = of_int (sint w)"
proof -
  have "\<bar>sint w\<bar> < 2 ^ 53" using sint_ge [of w] sint_lt [of w] by simp
  then show ?thesis by (simp add: f64_of_int_exact)
qed

lemma deliverable_val:
  assumes "limits b = Some (c, d)" "in_range 0 r c" "in_range 0 r d"
    "deliverable b (f64_of_int (sint (w :: i32))) = Some p"
  shows "is_finite p" "fval p = max (- fval c) (min (fval d) (of_int (sint w)))"
proof -
  have le: "fval (fneg c) \<le> fval d" using assms(2,3) by (simp add: in_range_def)
  have cl: "fclamp (f64_of_int (sint w)) (fneg c) d = Some p" using assms(1,4) by (simp add: deliverable_def)
  note f = in_rangeD(1) [OF assms(2)] in_rangeD(1) [OF assms(3)]
  show "fval p = max (- fval c) (min (fval d) (of_int (sint w)))"
    using fclamp_fval [OF setpoint_finite _ _ le cl] f by (simp add: setpoint_fval)
  show "is_finite p"
    using fclamp_in_range [of "fneg c" d "f64_of_int (sint w)"] f le cl is_finite_not_nan [OF setpoint_finite]
    by (auto dest: in_rangeD)
qed

lemma adopt_undriven: "SOC \<notin> driven \<Longrightarrow> adopt_driven_soc b holding driven = Some b"
  by (simp add: adopt_driven_soc_def)

lemma battery_ok_limits:
  assumes "battery_ok b" "limits b = Some (c, d)"
  shows "in_range 0 (fval (power_limit_w (config b))) c"
    and "in_range 0 (fval (power_limit_w (config b))) d"
proof -
  have "rating_ok (power_limit_w (config b))" "\<not> is_nan (soc_percent b)"
    using assms(1) is_finite_not_nan [OF in_rangeD(1) [of 0 100 "soc_percent b"]]
    by (auto simp: battery_ok_def config_ok_def)
  then show "in_range 0 (fval (power_limit_w (config b))) c"
    and "in_range 0 (fval (power_limit_w (config b))) d"
    using assms(2) by (auto elim: limits_bounds)
qed

text \<open>The output power of a step is the setpoint clipped to the limits.\<close>

lemma step_output:
  assumes ok: "battery_ok b" and step: "battery_step b holding driven dt = Some (b', holding')"
    and free: "SOC \<notin> driven" "ACTIVE_POWER \<notin> driven" "ACTIVE_POWER + 1 \<notin> driven"
    and lim: "limits b = Some (c, d)" and rated: "fval (power_limit_w (config b)) \<le> 2147483647"
  shows "sint (read_i32 holding' ACTIVE_POWER)
    = round_away (max (- fval c) (min (fval d) (of_int (sint (read_i32 holding SETPOINT)))))"
proof -
  note r = battery_ok_limits [OF ok lim]
  from step obtain p lims where p: "deliverable b (f64_of_int (sint (read_i32 holding SETPOINT))) = Some p"
    and h: "holding' = write_registers b' p lims driven holding"
    by (rule battery_stepE) (simp add: adopt_undriven [OF free(1)])
  note pv = deliverable_val [OF lim r p]
  have "- 2147483647 \<le> fval p" "fval p \<le> 2147483647"
    using in_rangeD [OF r(1)] in_rangeD [OF r(2)] rated by (auto simp: pv(2))
  then have "- 2147483647 \<le> round_away (fval p) \<and> round_away (fval p) \<le> 2147483647"
    using round_away_between [of "- 2147483647" "fval p" 2147483647] by simp
  then show ?thesis
    using as_i32_fround [OF pv(1)] by (simp add: h write_registers_power [OF free(2,3)] pv(2))
qed

subsection \<open>Direction of the SoC\<close>

lemma frnd_self_le: "fp_ok F64 x \<Longrightarrow> y \<le> fval x \<Longrightarrow> frnd F64 y \<le> fval x"
  and frnd_self_ge: "fp_ok F64 x \<Longrightarrow> fval x \<le> y \<Longrightarrow> fval x \<le> frnd F64 y"
  using frnd_mono [of y "fval x" F64] frnd_mono [of "fval x" y F64] by (simp_all add: frnd_self)

lemma pack_nonpos:
  assumes "x \<le> 0" shows "fle (pack F64 b x) (Num 0)"
proof -
  have "frnd F64 x \<le> 0" using assms rnd_nonneg [of "- x" "prec F64" "emin F64"] by simp
  moreover from this have "\<not> huge F64 \<le> frnd F64 x" using huge_pos [of F64] by linarith
  ultimately show ?thesis by (auto simp: pack_def Let_def fle_def)
qed

lemma fle_0_cases': "fle x (Num 0) \<longleftrightarrow> x = NInf \<or> is_finite x \<and> fval x \<le> 0"
  by (cases x) (auto simp: fle_def)

lemma signbit_pos: "is_finite y \<Longrightarrow> 0 < fval y \<Longrightarrow> \<not> signbit y"
  by (cases y) auto

lemma fdiv_nonneg:
  assumes "is_finite y" "0 < fval y" "fle (Num 0) x"
  shows "fle (Num 0) (fdiv F64 x y)"
proof (cases "is_finite x")
  case True
  with assms show ?thesis by (simp add: fdiv_def Let_def pack_nonneg)
next
  case False
  with assms(3) have "x = PInf" by (simp add: fle_0_cases)
  with assms show ?thesis by (simp add: fdiv_def Let_def finf_def signbit_pos fle_0_cases)
qed

lemma fdiv_nonpos:
  assumes "is_finite y" "0 < fval y" "fle x (Num 0)"
  shows "fle (fdiv F64 x y) (Num 0)"
proof (cases "is_finite x")
  case True
  with assms show ?thesis by (simp add: fdiv_def Let_def pack_nonpos divide_nonpos_pos)
next
  case False
  with assms(3) have "x = NInf" by (simp add: fle_0_cases')
  with assms show ?thesis by (simp add: fdiv_def Let_def finf_def signbit_pos fle_0_cases')
qed

lemma fmul_num_nonneg:
  assumes "0 < y" "fle (Num 0) x"
  shows "fle (Num 0) (fmul F64 x (Num y))"
proof (cases "is_finite x")
  case True
  with assms show ?thesis by (simp add: fmul_def Let_def pack_nonneg)
next
  case False
  with assms(2) have "x = PInf" by (simp add: fle_0_cases)
  with assms show ?thesis by (simp add: fmul_def Let_def finf_def fle_0_cases)
qed

lemma fmul_num_nonpos:
  assumes "0 < y" "fle x (Num 0)"
  shows "fle (fmul F64 x (Num y)) (Num 0)"
proof (cases "is_finite x")
  case True
  with assms show ?thesis by (simp add: fmul_def Let_def pack_nonpos mult_nonpos_nonneg)
next
  case False
  with assms(2) have "x = NInf" by (simp add: fle_0_cases')
  with assms show ?thesis by (simp add: fmul_def Let_def finf_def fle_0_cases')
qed

lemma fmul_nonpos:
  "is_finite x \<Longrightarrow> is_finite y \<Longrightarrow> fval x \<le> 0 \<Longrightarrow> 0 \<le> fval y \<Longrightarrow> fle (fmul F64 x y) (Num 0)"
  by (simp add: fmul_def Let_def pack_nonpos mult_nonpos_nonneg)

text \<open>Subtracting a non-negative amount, then clamping to 0..100.\<close>

lemma clamp_drain_le:
  assumes "is_finite s" "fp_ok F64 s" "0 \<le> fval s" "fle (Num 0) x"
    "fclamp (fsub F64 s x) (Num 0) (Num 100) = Some y"
  shows "fval y \<le> fval s"
proof (cases "fsub F64 s x")
  case (Num r)
  then have "x \<noteq> PInf" using assms(1) by (cases s) (auto simp: fsub_def fadd_def)
  then have x: "is_finite x" "0 \<le> fval x" using assms(4) by (auto simp: fle_0_cases)
  have "r \<le> frnd F64 (fval s - fval x) \<or> r = 0"
    using Num x assms(1)
    by (auto simp: fsub_def fadd_def pack_def Let_def split: if_splits)
  then have "r \<le> fval s" using frnd_self_le [OF assms(2), of "fval s - fval x"] x(2) assms(3) by auto
  then show ?thesis using fclamp_fval [OF _ _ _ _ assms(5) [unfolded Num]] assms(3) by simp
next
  case PInf
  then have "x = NInf \<or> is_finite x \<and> huge F64 \<le> frnd F64 (fval s - fval x)"
    using assms(1) by (cases x) (auto simp: fsub_def fadd_def pack_def Let_def split: if_splits)
  moreover have "frnd F64 (fval s - fval x) \<le> fval s" if "0 \<le> fval x"
    using that by (intro frnd_self_le [OF assms(2)]) simp
  moreover have "fval s < huge F64" using assms(2) unfolding fp_ok_def by linarith
  ultimately have False using assms(4) by (auto simp: fle_0_cases)
  then show ?thesis ..
qed (use assms in \<open>auto simp: fclamp_def Let_def flt_def split: if_splits\<close>)

lemma clamp_fill_ge:
  assumes "is_finite s" "fp_ok F64 s" "fval s \<le> 100" "fle x (Num 0)"
    "fclamp (fsub F64 s x) (Num 0) (Num 100) = Some y"
  shows "fval s \<le> fval y"
proof (cases "fsub F64 s x")
  case (Num r)
  then have "x \<noteq> NInf" using assms(1) by (cases s) (auto simp: fsub_def fadd_def)
  then have x: "is_finite x" "fval x \<le> 0" using assms(4) by (auto simp: fle_0_cases')
  have "frnd F64 (fval s - fval x) = r"
    using Num x assms(1)
    by (auto simp: fsub_def fadd_def pack_def Let_def split: if_splits)
  then have "fval s \<le> r" using frnd_self_ge [OF assms(2), of "fval s - fval x"] x(2) by auto
  then show ?thesis using fclamp_fval [OF _ _ _ _ assms(5) [unfolded Num]] assms(3) by simp
next
  case NInf
  then have "x = PInf \<or> is_finite x \<and> frnd F64 (fval s - fval x) \<le> - huge F64"
    using assms(1) by (cases x) (auto simp: fsub_def fadd_def pack_def Let_def split: if_splits)
  moreover have "fval s \<le> frnd F64 (fval s - fval x)" if "fval x \<le> 0"
    using that by (intro frnd_self_ge [OF assms(2)]) simp
  moreover have "- huge F64 < fval s" using assms(2) unfolding fp_ok_def by linarith
  ultimately have False using assms(4) by (auto simp: fle_0_cases')
  then show ?thesis ..
next
  case NaN
  then show ?thesis
    using fsub_not_nan [OF assms(1), of x] assms(4) by (cases x) (auto simp: fle_def)
next
  case NegZero
  then have "s = NegZero"
    using assms(1) by (auto simp: fsub_def fadd_def pack_def Let_def split: if_splits)
  then show ?thesis using assms(5) NegZero by (auto simp: fclamp_def Let_def)
qed (use assms in \<open>auto simp: fclamp_def Let_def flt_def split: if_splits\<close>)

lemma step_soc:
  assumes ok: "battery_ok b" and tick: "tick_ok (config b) dt"
    and step: "battery_step b holding driven dt = Some (b', holding')" and free: "SOC \<notin> driven"
  shows "0 \<le> sint (read_i32 holding SETPOINT) \<Longrightarrow> fval (soc_percent b') \<le> fval (soc_percent b)"
    and "sint (read_i32 holding SETPOINT) \<le> 0 \<Longrightarrow> fval (soc_percent b) \<le> fval (soc_percent b')"
proof -
  let ?w = "read_i32 holding SETPOINT" and ?h = "sim_hours (config b) dt" and ?s = "soc_percent b"
  from step obtain p soc where p: "deliverable b (f64_of_int (sint ?w)) = Some p"
    and c: "fclamp (fsub F64 ?s (fmul F64 (fdiv F64 (fdiv F64 (fmul F64 p ?h) (Num 1000))
          (capacity_kwh (config b))) (Num 100))) (Num 0) (Num 100) = Some soc"
    and b': "soc_percent b' = soc"
    by (rule battery_stepE) (simp add: adopt_undriven [OF free])
  have s: "is_finite ?s" "fp_ok F64 ?s" "0 \<le> fval ?s" "fval ?s \<le> 100"
    using ok by (auto simp: battery_ok_def dest: in_rangeD)
  have cap: "is_finite (capacity_kwh (config b))" "0 < fval (capacity_kwh (config b))"
    and h: "is_finite ?h" "0 \<le> fval ?h"
    using ok tick by (auto simp: battery_ok_def config_ok_def tick_ok_def)
  obtain cl dl where lim: "limits b = Some (cl, dl)" using p by (auto simp: deliverable_def bind_eq_Some_conv)
  note r = battery_ok_limits [OF ok lim]
  note pv = deliverable_val [OF lim r p]
  have lims: "0 \<le> fval cl" "0 \<le> fval dl" using r by (auto dest: in_rangeD)
  let ?x = "fmul F64 (fdiv F64 (fdiv F64 (fmul F64 p ?h) (Num 1000)) (capacity_kwh (config b))) (Num 100)"
  show "fval (soc_percent b') \<le> fval ?s" if "0 \<le> sint ?w"
  proof -
    have "(0::rat) \<le> of_int (sint ?w)" using that by (simp only: of_int_0_le_iff)
    then have "0 \<le> fval p" using lims unfolding pv(2) by simp
    then have "fle (Num 0) ?x"
      using pv(1) h cap by (intro fmul_num_nonneg fdiv_nonneg fmul_nonneg) simp_all
    then show ?thesis unfolding b' using s c by (intro clamp_drain_le)
  qed
  show "fval ?s \<le> fval (soc_percent b')" if "sint ?w \<le> 0"
  proof -
    have "of_int (sint ?w) \<le> (0::rat)" using that by (simp only: of_int_le_0_iff)
    then have "fval p \<le> 0" using lims unfolding pv(2) by simp
    then have "fle ?x (Num 0)"
      using pv(1) h cap by (intro fmul_num_nonpos fdiv_nonpos fmul_nonpos) simp_all
    then show ?thesis unfolding b' using s c by (intro clamp_fill_ge)
  qed
qed

subsection \<open>The energy counter\<close>

lemma fadd_ge_left:
  assumes "fle (Num 0) x" "fp_ok F64 x" "fle (Num 0) y"
  shows "fle x (fadd F64 x y)"
proof (cases "is_finite x \<and> is_finite y")
  case True
  then have "0 \<le> fval y" using assms(3) by simp
  then have "fval x \<le> frnd F64 (fval x + fval y)"
    by (intro frnd_self_ge [OF assms(2)]) simp
  then show ?thesis
    using True assms by (auto simp: fadd_def pack_def Let_def fle_def fle_0_cases split: if_splits)
next
  case False
  have "fadd F64 x y = PInf"
  proof (cases "x = PInf")
    case True
    then show ?thesis using assms(3) by (cases y) (simp_all add: fadd_def fle_def)
  next
    case nx: False
    then have "y = PInf" "is_finite x" using False assms(1,3) by (auto simp: fle_0_cases)
    then show ?thesis by (simp add: fadd_def)
  qed
  then show ?thesis using assms(1) by (cases x) (simp_all add: fle_def)
qed

lemma fle_refl_num: "fle (Num 0) x \<Longrightarrow> fle x x"
  by (cases x) (auto simp: fle_def)

lemma step_energy:
  assumes ok: "battery_ok b" and tick: "tick_ok (config b) dt"
    and step: "battery_step b holding driven dt = Some (b', holding')"
  shows "fle (energy_discharged_wh b) (energy_discharged_wh b')"
proof -
  from step obtain b1 p where b1: "adopt_driven_soc b holding driven = Some b1"
    and b': "energy_discharged_wh b' = (if flt (Num 0) p
      then fadd F64 (energy_discharged_wh b1) (fmul F64 p (sim_hours (config b1) dt))
      else energy_discharged_wh b1)"
    and p: "deliverable b1 (f64_of_int (sint (read_i32 holding SETPOINT))) = Some p"
    by (rule battery_stepE) simp
  have eq: "config b1 = config b" "energy_discharged_wh b1 = energy_discharged_wh b"
    using adopt_frame [OF b1] by auto
  have e: "fle (Num 0) (energy_discharged_wh b)" "fp_ok F64 (energy_discharged_wh b)"
    and rt: "rating_ok (power_limit_w (config b1))" using ok eq by (auto simp: battery_ok_def config_ok_def)
  obtain c d where lim: "limits b1 = Some (c, d)"
    "in_range 0 (fval (power_limit_w (config b1))) c" "in_range 0 (fval (power_limit_w (config b1))) d"
    using limits_bounds [OF rt is_finite_not_nan [OF in_rangeD(1) [OF adopt_soc_finite(1) [OF b1 ok]]]]
    by blast
  have pf: "is_finite p" using deliverable_val(1) [OF lim p] .
  show ?thesis
  proof (cases "flt (Num 0) p")
    case True
    then have "fle (Num 0) (fmul F64 p (sim_hours (config b) dt))"
      using pf tick by (intro fmul_nonneg) (simp_all add: tick_ok_def)
    with True e show ?thesis by (simp add: b' eq fadd_ge_left)
  next
    case False
    with e(1) show ?thesis by (simp add: b' eq fle_refl_num)
  qed
qed

subsection \<open>Empty and full\<close>

lemma limits_val:
  assumes "battery_ok b" "limits b = Some (c, d)"
  defines "r \<equiv> fval (power_limit_w (config b))" and "s \<equiv> fval (soc_percent b)"
  shows "fval d = frnd F64 (r * max 0 (min 1 (frnd F64 (s / 20))))"
    and "fval c = frnd F64 (r * max 0 (min 1 (frnd F64 (frnd F64 (100 - s) / 10))))"
proof -
  have rt: "is_finite (power_limit_w (config b))" "0 \<le> r" "fp_ok F64 (power_limit_w (config b))"
    and sr: "in_range 0 10000 (soc_percent b)"
    using assms(1) in_range_mono [of 0 100 "soc_percent b" 0 10000]
    by (auto simp: battery_ok_def config_ok_def rating_ok_def r_def)
  show "fval d = frnd F64 (r * max 0 (min 1 (frnd F64 (s / 20))))"
    and "fval c = frnd F64 (r * max 0 (min 1 (frnd F64 (frnd F64 (100 - s) / 10))))"
    using max_discharge_val [OF rt(1) rt(2) [unfolded r_def] rt(3) sr]
      max_charge_val [OF rt(1) rt(2) [unfolded r_def] rt(3) sr] limits_SomeD [OF assms(2)]
    unfolding r_def s_def by blast+
qed

end
