(* ===== verification/Poi.thy ===== *)
theory Poi
  imports RackRegisters
begin

text \<open>
  The POI meter's active power (\<open>poi.rs\<close>) and compute's share of the site load
  (\<open>compute_load.rs\<close>).  What a rack answers over Modbus and what a node answers over
  Redfish in one tick are inputs: \<open>None\<close> for a read that failed or a task that died.
\<close>

subsection \<open>Site load (compute_load.rs)\<close>

record compute_load =
  nodes :: fp

definition site_load :: "fp \<Rightarrow> (compute_load \<times> fp) option \<Rightarrow> fp" where
  "site_load fixed_w compute = fadd F64 fixed_w
     (case compute of None \<Rightarrow> f64_lit 0 | Some (c, node_w) \<Rightarrow> fmul F64 (nodes c) node_w)"

definition compute_load_from_env :: "env \<Rightarrow> startup_error + (compute_load \<times> string) option" where
  "compute_load_from_env env =
     (case env ''SITE_COMPUTE_URL'' of
        None \<Rightarrow> Inr None
      | Some url \<Rightarrow>
          (case env_f64 env ''SITE_COMPUTE_NODES'' (f64_lit 1) of
             Inl e \<Rightarrow> Inl e
           | Inr n \<Rightarrow> Inr (Some (\<lparr>nodes = n\<rparr>, url))))"

subsection \<open>The meter's register (poi.rs)\<close>

definition POI_ACTIVE_POWER :: u16 where "POI_ACTIVE_POWER = 3060"
definition RACK_ACTIVE_POWER :: u16 where "RACK_ACTIVE_POWER = 10"

text \<open>\<open>Iterator::sum\<close> of floats starts from the negative zero.\<close>

definition fsum :: "fp list \<Rightarrow> fp" where
  "fsum xs = foldl (fadd F64) NegZero xs"

definition poi_active_power :: "fp \<Rightarrow> fp list \<Rightarrow> fp" where
  "poi_active_power site_load_w rack_powers_w = fsub F64 site_load_w (fsum rack_powers_w)"

definition write_poi_power :: "regs \<Rightarrow> u16 set \<Rightarrow> fp \<Rightarrow> regs" where
  "write_poi_power holding driven p_w =
     (if POI_ACTIVE_POWER \<in> driven \<or> POI_ACTIVE_POWER + 1 \<in> driven then holding
      else let raw = f32_bits (as_f32 p_w)
           in holding(POI_ACTIVE_POWER \<mapsto> hi16 raw, POI_ACTIVE_POWER + 1 \<mapsto> lo16 raw))"

definition rack_power :: "u16 list option \<Rightarrow> fp option" where
  "rack_power reply =
     (case reply of Some (high # low # _) \<Rightarrow> Some (f64_of_int (sint (join16 high low))) | _ \<Rightarrow> None)"

subsection \<open>Construction from the environment\<close>

definition parse_host_port :: "string \<Rightarrow> startup_error + string \<times> nat" where
  "parse_host_port s =
     (case rsplit_once CHR '':'' s of
        None \<Rightarrow> Inl (NeedsHostPort s)
      | Some (host, port) \<Rightarrow>
          (case parse_uint 16 port of None \<Rightarrow> Inl (BadPort s) | Some p \<Rightarrow> Inr (host, p)))"

text \<open>\<open>collect\<close> into a \<open>Result\<close>: the first error wins.\<close>

primrec parse_racks :: "string list \<Rightarrow> startup_error + (string \<times> nat) list" where
  "parse_racks [] = Inr []"
| "parse_racks (s # ss) =
     (case parse_host_port s of
        Inl e \<Rightarrow> Inl e
      | Inr r \<Rightarrow> (case parse_racks ss of Inl e \<Rightarrow> Inl e | Inr rs \<Rightarrow> Inr (r # rs)))"

record poi =
  fixed_load :: fp
  racks :: "(string \<times> nat) list"
  compute :: "(compute_load \<times> string) option"
  node_w :: "fp option"

definition poi_from_env :: "env \<Rightarrow> startup_error + poi" where
  "poi_from_env env =
     (case env_f64 env ''SITE_LOAD_W'' (f64_lit 0) of
        Inl e \<Rightarrow> Inl e
      | Inr load \<Rightarrow>
        (let raw = (case env ''POI_BESS_RACKS'' of None \<Rightarrow> [] | Some s \<Rightarrow> s);
             entries = filter (\<lambda>s. trim s \<noteq> []) (split_on CHR '','' raw) in
         case parse_racks (map trim entries) of
           Inl e \<Rightarrow> Inl e
         | Inr rs \<Rightarrow>
           (case compute_load_from_env env of
              Inl e \<Rightarrow> Inl e
            | Inr c \<Rightarrow> Inr \<lparr>fixed_load = load, racks = rs, compute = c, node_w = None\<rparr>)))"

subsection \<open>One tick\<close>

text \<open>
  The replies of the racks in their order, and the node's reading.  Returns the kept
  state (the last good node draw) and the registers.
\<close>

definition poi_tick ::
  "poi \<Rightarrow> u16 list option list \<Rightarrow> fp option \<Rightarrow> regs \<Rightarrow> u16 set \<Rightarrow> poi \<times> regs" where
  "poi_tick m replies node_read holding driven =
     (let powers = List.map_filter rack_power replies;
          node' = (if compute m = None then node_w m
                   else (case node_read of Some w \<Rightarrow> Some w | None \<Rightarrow> node_w m));
          load = site_load (fixed_load m)
            (case (compute m, node') of (Some (c, _), Some w) \<Rightarrow> Some (c, w) | _ \<Rightarrow> None) in
      (m\<lparr>node_w := node'\<rparr>,
       if length powers = length (racks m)
       then write_poi_power holding driven (poi_active_power load powers) else holding))"

subsection \<open>Facts\<close>

lemma write_poi_power_driven [frame_simps]:
  "a \<in> driven \<Longrightarrow> write_poi_power holding driven p a = holding a"
  by (auto simp: write_poi_power_def Let_def)

lemma write_poi_power_mono: "a \<in> dom holding \<Longrightarrow> a \<in> dom (write_poi_power holding driven p)"
  by (auto simp: write_poi_power_def Let_def)

lemma write_poi_power_read:
  assumes "POI_ACTIVE_POWER \<notin> driven" "POI_ACTIVE_POWER + 1 \<notin> driven"
  shows "read_i32 (write_poi_power holding driven p) POI_ACTIVE_POWER = f32_bits (as_f32 p)"
  using assms by (simp add: write_poi_power_def read_i32_def word_or_0_def Let_def)

lemma poi_tick_frame [frame_simps]:
  "a \<in> driven \<Longrightarrow> snd (poi_tick m replies node holding driven) a = holding a"
  "fixed_load (fst (poi_tick m replies node holding driven)) = fixed_load m"
  "racks (fst (poi_tick m replies node holding driven)) = racks m"
  "compute (fst (poi_tick m replies node holding driven)) = compute m"
  by (simp_all add: poi_tick_def Let_def frame_simps)

lemma poi_tick_mono:
  "a \<in> dom holding \<Longrightarrow> a \<in> dom (snd (poi_tick m replies node holding driven))"
  by (simp add: poi_tick_def Let_def write_poi_power_mono)

lemma poi_tick_Some:
  "holding a = Some v \<Longrightarrow> \<exists>w. snd (poi_tick m replies node holding driven) a = Some w"
  using poi_tick_mono [of a holding m replies node driven] by auto

text \<open>The sum of integer powers is exact while it stays below 2 to the 53.\<close>

lemma fadd_ints:
  assumes "\<bar>a + b\<bar> < 2 ^ 53" "is_finite x" "is_finite y" "fval x = of_int a" "fval y = of_int b"
  shows "is_finite (fadd F64 x y) \<and> fval (fadd F64 x y) = of_int (a + b)"
proof -
  have "bound_ok F64 (of_int (a + b))" using assms(1) by (intro bound_ok_of_int) simp
  then have g: "frnd F64 (of_int (a + b)) = of_int (a + b)" "\<bar>of_int (a + b) :: rat\<bar> < huge F64"
    by (simp_all add: bound_ok_def on_grid_def)
  then show ?thesis using fadd_finite [OF assms(2,3), of F64] by (simp add: assms(4,5))
qed

lemma foldl_fadd_ints:
  assumes "\<And>k. k \<in> set ks \<Longrightarrow> \<bar>k\<bar> \<le> 2 ^ 31" "is_finite x" "fval x = of_int a"
    "\<bar>a\<bar> + int (length ks) * 2 ^ 31 < 2 ^ 53"
  shows "is_finite (foldl (fadd F64) x (map f64_of_int ks)) \<and>
    fval (foldl (fadd F64) x (map f64_of_int ks)) = of_int (a + sum_list ks)"
  using assms
proof (induction ks arbitrary: x a)
  case Nil then show ?case by simp
next
  case (Cons k ks)
  have k: "\<bar>k\<bar> \<le> 2 ^ 31" using Cons.prems(1) by simp
  then have fk: "f64_of_int k = Num (of_int k)" by (intro f64_of_int_exact) simp
  have b: "\<bar>a + k\<bar> + int (length ks) * 2 ^ 31 < 2 ^ 53" using Cons.prems(4) k by simp
  then have "\<bar>a + k\<bar> < 2 ^ 53" by simp
  then have s: "is_finite (fadd F64 x (f64_of_int k)) \<and> fval (fadd F64 x (f64_of_int k)) = of_int (a + k)"
    using Cons.prems(2,3) fk by (intro fadd_ints) simp_all
  have "\<And>j. j \<in> set ks \<Longrightarrow> \<bar>j\<bar> \<le> 2 ^ 31" using Cons.prems(1) by simp
  from Cons.IH [OF this conjunct1 [OF s] conjunct2 [OF s] b] show ?case by (simp add: add.assoc)
qed

lemma fsum_ints:
  assumes "\<And>k. k \<in> set ks \<Longrightarrow> \<bar>k\<bar> \<le> 2 ^ 31" "length ks \<le> 2 ^ 20"
  shows "is_finite (fsum (map f64_of_int ks))" "fval (fsum (map f64_of_int ks)) = of_int (sum_list ks)"
proof -
  have "\<bar>0\<bar> + int (length ks) * 2 ^ 31 < 2 ^ 53" using assms(2) by simp
  then show "is_finite (fsum (map f64_of_int ks))" "fval (fsum (map f64_of_int ks)) = of_int (sum_list ks)"
    using foldl_fadd_ints [of ks NegZero 0] assms(1) by (simp_all add: fsum_def)
qed

lemma sum_list_bound:
  assumes "\<And>k. k \<in> set ks \<Longrightarrow> \<bar>k\<bar> \<le> b" shows "\<bar>sum_list ks\<bar> \<le> int (length ks) * b"
  using assms
proof (induction ks)
  case (Cons k ks)
  have "\<bar>k\<bar> \<le> b" "\<bar>sum_list ks\<bar> \<le> int (length ks) * b" using Cons by simp_all
  then show ?case by (simp add: distrib_right)
qed simp

lemma poi_active_power_ints:
  assumes "\<And>k. k \<in> set ks \<Longrightarrow> \<bar>k\<bar> \<le> 2 ^ 31" "length ks \<le> 2 ^ 20"
    "is_finite load" "fval load = of_int L" "\<bar>L\<bar> \<le> 2 ^ 52"
  shows "is_finite (poi_active_power load (map f64_of_int ks))"
    "fval (poi_active_power load (map f64_of_int ks)) = of_int (L - sum_list ks)"
proof -
  note s = fsum_ints [OF assms(1,2)]
  have "\<bar>sum_list ks\<bar> \<le> int (length ks) * 2 ^ 31" using assms(1) by (intro sum_list_bound)
  also have "\<dots> \<le> 2 ^ 51" using assms(2) by simp
  finally have "\<bar>L + - sum_list ks\<bar> < 2 ^ 53" using assms(5) by simp
  from fadd_ints [OF this assms(3) _ assms(4), of "fneg (fsum (map f64_of_int ks))"] s
  show "is_finite (poi_active_power load (map f64_of_int ks))"
    "fval (poi_active_power load (map f64_of_int ks)) = of_int (L - sum_list ks)"
    by (simp_all add: poi_active_power_def fsub_def)
qed

text \<open>Storing as float32 rounds once; the register pair reads back that float.\<close>

lemma f32_bound: "\<bar>x\<bar> \<le> of_int (2 ^ 60) \<Longrightarrow> \<bar>frnd F32 x\<bar> < huge F32"
proof (rule frnd_between(3) [of "- of_int (2 ^ 60)" _ "of_int (2 ^ 60)"])
  have "on_grid (prec F32) (emin F32) (2 powi 60)"
    using rnd_powi2 [of "emin F32" 60 "prec F32"] emin_neg [of F32] by (simp add: on_grid_def)
  then show b: "bound_ok F32 (of_int (2 ^ 60))" by (simp add: bound_ok_def huge.simps power_int_def)
  then show "bound_ok F32 (- of_int (2 ^ 60))" by simp
qed (auto simp: abs_le_iff)

lemma as_f32_fval:
  assumes "is_finite x" "\<bar>fval x\<bar> \<le> of_int (2 ^ 60)"
  shows "is_finite (as_f32 x)" "fval (as_f32 x) = frnd F32 (fval x)"
  using assms pack_finite [OF f32_bound, of "fval x"] by (cases x; simp)+

lemma write_poi_power_value:
  assumes "POI_ACTIVE_POWER \<notin> driven" "POI_ACTIVE_POWER + 1 \<notin> driven"
  shows "f32_of_bits (read_i32 (write_poi_power holding driven p) POI_ACTIVE_POWER) = as_f32 p"
  using write_poi_power_read [OF assms] by (simp add: f32_bits_inverse)

text \<open>A rack that answers with its two words.\<close>

lemma rack_power_pair: "rack_power (Some [hi16 w, lo16 w]) = Some (f64_of_int (sint w))"
  by (simp add: rack_power_def)

lemma map_filter_replies:
  "List.map_filter rack_power (map (\<lambda>w. Some [hi16 w, lo16 w]) ws) = map f64_of_int (map sint ws)"
  by (induction ws) (simp_all add: List.map_filter_def rack_power_pair)

lemma parse_host_port_show:
  "p < 2 ^ 16 \<Longrightarrow>
   parse_host_port (host @ CHR '':'' # show_nat p) = Inr (host, p)"
  using rsplit_once_append [of "CHR '':''" "show_nat p" host] parse_show_uint [of p 16]
  by (simp add: parse_host_port_def show_nat_notin)

end
