(* ===== verification/ModbusMain.thy ===== *)
theory ModbusMain
  imports ModbusHandler BatteryFacts Poi
begin

text \<open>
  mock-modbus-server as a whole (\<open>main.rs\<close>, \<open>tls.rs\<close>): start-up from the environment,
  and the tasks that share the handler's mutex.  Every task holds the mutex for one
  whole update, so the system is a sequence of updates.
\<close>

subsection \<open>Start-up\<close>

record modbus_settings =
  tls_mode :: bool
  port :: nat
  unit_id :: nat
  tick_ms :: nat
  max_sessions :: nat
  control_port :: nat
  profile :: string

record modbus_system =
  meter_of :: meter
  rack :: "battery option"
  poi_task :: "poi option"
  simulated :: bool
  dt :: duration

definition MODBUS_TLS_PORT :: nat where "MODBUS_TLS_PORT = 802"
definition MODBUS_TCP_PORT :: nat where "MODBUS_TCP_PORT = 502"
definition CONTROL_PORT :: nat where "CONTROL_PORT = 8080"

definition modbus_settings_from_env :: "env \<Rightarrow> modbus_settings" where
  "modbus_settings_from_env env =
     (let tls = (env ''MODBUS_TLS'' = Some ''1'');
          default_port = (if tls then MODBUS_TLS_PORT else MODBUS_TCP_PORT) in
      \<lparr>tls_mode = tls,
       port = env_uint env 16 ''PORT'' default_port,
       unit_id = env_uint env 8 ''UNIT_ID'' 1,
       tick_ms = env_uint env 64 ''TICK_MS'' 1000,
       max_sessions = env_uint env 64 ''MAX_SESSIONS'' 64,
       control_port = env_uint env 16 ''CONTROL_PORT'' CONTROL_PORT,
       profile = (case env ''MODBUS_PROFILE'' of None \<Rightarrow> ''poi_meter'' | Some p \<Rightarrow> p)\<rparr>)"

text \<open>The registers and the battery of a profile; \<open>None\<close> is a panic.\<close>

definition profile_registers ::
  "env \<Rightarrow> string \<Rightarrow> (startup_error + regs \<times> regs \<times> battery option) option" where
  "profile_registers env p =
     (if p = ''poi_meter'' then Some (Inr (poi_holding_registers, Map.empty, None))
      else if p = ''bess_rack'' then
        map_option (\<lambda>r. case r of Inl e \<Rightarrow> Inl e | Inr (b, h) \<Rightarrow> Inr (h, Map.empty, Some b))
          (battery_from_env env)
      else if p = ''dc_external'' then Some (Inr (dc_holding_registers, dc_input_registers, None))
      else if p = ''pv_inverter'' then Some (Inr (pv_holding_registers, Map.empty, None))
      else Some (Inl (UnknownProfile p)))"

text \<open>The paths the TLS listener needs (tls.rs).\<close>

definition tls_paths :: "env \<Rightarrow> startup_error + string list" where
  "tls_paths env = require_env_paths env [''MODBUS_TLS_CA'', ''MODBUS_TLS_CERT'', ''MODBUS_TLS_KEY'']"

text \<open>The shared state and the tasks over a profile's registers.\<close>

definition modbus_wire ::
  "env \<Rightarrow> modbus_settings \<Rightarrow> regs \<times> regs \<times> battery option
     \<Rightarrow> startup_error + modbus_settings \<times> modbus_system" where
  "modbus_wire env cfg = (\<lambda>(h, i, battery).
     (let poi_meter = (profile cfg = ''poi_meter'');
          w = (profile cfg = ''bess_rack'' \<or> profile cfg = ''dc_external''
            \<or> env ''MODBUS_WRITABLE'' = Some ''1'');
          m = (meter_new h)\<lparr>input := i, writable := w\<rparr> in
      case (if tls_mode cfg then tls_paths env else Inr []) of Inl e \<Rightarrow> Inl e
      | Inr _ \<Rightarrow>
        (case (if poi_meter then map_sum id Some (poi_from_env env) else Inr None) of
           Inl e \<Rightarrow> Inl e
         | Inr p \<Rightarrow> Inr (cfg,
             \<lparr>meter_of = m, rack = battery, poi_task = p,
              simulated = (poi_meter \<or> battery \<noteq> None),
              dt = from_millis (tick_ms cfg)\<rparr>))))"

text \<open>\<open>main\<close>, given that the sockets can be bound and the certificates load.\<close>

definition modbus_main :: "env \<Rightarrow> (startup_error + modbus_settings \<times> modbus_system) option" where
  "modbus_main env =
     (let cfg = modbus_settings_from_env env in
      map_option (\<lambda>r. case r of Inl e \<Rightarrow> Inl e | Inr hib \<Rightarrow> modbus_wire env cfg hib)
        (profile_registers env (profile cfg)))"

subsection \<open>The tasks\<close>

datatype modbus_event =
    SimulatorTick
  | PoiTick "u16 list option list" "fp option"
  | WriteSingle "u16 \<times> u16"
  | WriteMultiple "(u16 \<times> u16) list"
  | PutRegisters "(u16 \<times> u16) list option"

text \<open>
  One update.  \<open>None\<close>: the task panicked while it held the mutex, which poisons it, so
  that every later \<open>lock().unwrap()\<close> panics as well and nothing is served any more.
\<close>

primrec modbus_step :: "modbus_event \<Rightarrow> modbus_system \<Rightarrow> modbus_system option" where
  "modbus_step SimulatorTick s =
     (if \<not> simulated s then Some s
      else (let m = meter_of s in
        case rack s of
          Some b \<Rightarrow>
            map_option (\<lambda>(b', h). s\<lparr>meter_of := m\<lparr>holding := h\<rparr>, rack := Some b'\<rparr>)
              (battery_step b (holding m) (driven m) (dt s))
        | None \<Rightarrow> Some (s\<lparr>meter_of :=
            m\<lparr>holding := modbus_tick modbus_simulator (holding m) (driven m)\<rparr>\<rparr>)))"
| "modbus_step (PoiTick replies node_read) s =
     (case poi_task s of
        None \<Rightarrow> Some s
      | Some p \<Rightarrow>
          (let m = meter_of s; (p', h) = poi_tick p replies node_read (holding m) (driven m) in
           Some (s\<lparr>meter_of := m\<lparr>holding := h\<rparr>, poi_task := Some p'\<rparr>)))"
| "modbus_step (WriteSingle av) s =
     Some (s\<lparr>meter_of := fst (write_single_register av (meter_of s))\<rparr>)"
| "modbus_step (WriteMultiple avs) s =
     Some (s\<lparr>meter_of := fst (write_multiple_registers avs (meter_of s))\<rparr>)"
| "modbus_step (PutRegisters body) s =
     Some (s\<lparr>meter_of := fst (put_registers (\<lambda>b. b) body (meter_of s))\<rparr>)"

primrec modbus_run :: "modbus_event list \<Rightarrow> modbus_system \<Rightarrow> modbus_system option" where
  "modbus_run [] s = Some s"
| "modbus_run (e # es) s = Option.bind (modbus_step e s) (modbus_run es)"

text \<open>What an event lets a client write.\<close>

primrec written :: "bool \<Rightarrow> modbus_event \<Rightarrow> (u16 \<times> u16) list" where
  "written w SimulatorTick = []"
| "written w (PoiTick rs n) = []"
| "written w (WriteSingle av) = (if w then [av] else [])"
| "written w (WriteMultiple avs) = (if w then avs else [])"
| "written w (PutRegisters body) = (case body of None \<Rightarrow> [] | Some avs \<Rightarrow> avs)"

subsection \<open>The control surface\<close>

definition client_write :: "(u16 \<times> u16) list \<Rightarrow> modbus_system \<Rightarrow> modbus_system" where
  "client_write avs s = s\<lparr>meter_of := apply_writes avs (meter_of s)\<rparr>"

definition background :: "modbus_system \<Rightarrow> modbus_system \<Rightarrow> bool" where
  "background s t \<longleftrightarrow> modbus_step SimulatorTick s = Some t
     \<or> (\<exists>replies node_read. modbus_step (PoiTick replies node_read) s = Some t)"

lemma battery_step_driven:
  "battery_step b h drv d = Some (b', h') \<Longrightarrow> a \<in> drv \<Longrightarrow> h' a = h a"
  by (elim battery_stepE) (simp add: frame_simps)

lemma battery_step_mono:
  "battery_step b h drv d = Some (b', h') \<Longrightarrow> a \<in> dom h \<Longrightarrow> a \<in> dom h'"
  by (elim battery_stepE) (auto simp: domIff write_registers_mono)

lemma background_frame:
  assumes "background s t"
  shows "driven (meter_of t) = driven (meter_of s)" "writable (meter_of t) = writable (meter_of s)"
    "a \<in> driven (meter_of s) \<Longrightarrow> holding (meter_of t) a = holding (meter_of s) a"
    "dom (holding (meter_of s)) \<subseteq> dom (holding (meter_of t))"
    "dt t = dt s" "simulated t = simulated s"
proof -
  have "driven (meter_of t) = driven (meter_of s) \<and> writable (meter_of t) = writable (meter_of s)
    \<and> (a \<in> driven (meter_of s) \<longrightarrow> holding (meter_of t) a = holding (meter_of s) a)
    \<and> dom (holding (meter_of s)) \<subseteq> dom (holding (meter_of t)) \<and> dt t = dt s \<and> simulated t = simulated s"
    using assms unfolding background_def
  proof (elim disjE exE)
    assume "modbus_step SimulatorTick s = Some t"
    then show ?thesis
      by (auto simp: frame_simps Let_def modbus_tick_Some battery_step_driven
          dest: battery_step_mono split: if_splits option.splits)
  next
    fix replies node_read
    assume "modbus_step (PoiTick replies node_read) s = Some t"
    then show ?thesis
      by (auto simp: frame_simps Let_def poi_tick_Some split_beta split: option.splits)
  qed
  then show "driven (meter_of t) = driven (meter_of s)" "writable (meter_of t) = writable (meter_of s)"
    "a \<in> driven (meter_of s) \<Longrightarrow> holding (meter_of t) a = holding (meter_of s) a"
    "dom (holding (meter_of s)) \<subseteq> dom (holding (meter_of t))"
    "dt t = dt s" "simulated t = simulated s" by blast+
qed

interpretation mb: control_surface
  "\<lambda>s k. holding (meter_of s) k" "\<lambda>s k. k \<in> driven (meter_of s)" background client_write "\<lambda>k. True"
proof
  fix s t k
  assume "background s t"
  note f = background_frame [OF this]
  show "k \<in> driven (meter_of s) \<Longrightarrow> True \<Longrightarrow> holding (meter_of t) k = holding (meter_of s) k"
    "k \<in> driven (meter_of s) \<Longrightarrow> k \<in> driven (meter_of t)" using f(1,3) by auto
qed (auto simp: client_write_def store_simps insert_all_lookup)

text \<open>Every run of the system is a run of the interface.\<close>

lemma modbus_step_cases:
  assumes "modbus_step e s = Some t"
  shows "background s t \<and> written w e = [] \<or> t = client_write (written (writable (meter_of s)) e) s"
  using assms
  by (cases e) (auto simp: background_def client_write_def write_single_register_def
      write_multiple_registers_def put_registers_def split: option.splits simp del: modbus_step.simps(1,2))

lemma modbus_step_writable: "modbus_step e s = Some t \<Longrightarrow> writable (meter_of t) = writable (meter_of s)"
  using modbus_step_cases [of e s t True]
  by (auto simp: background_frame(2) client_write_def frame_simps)

lemma modbus_run_surface:
  assumes "modbus_run es t = Some u" "mb.run s bs t"
  shows "\<exists>bs'. mb.run s (bs @ bs') u \<and> concat bs' = concat (map (written (writable (meter_of t))) es)"
  using assms
proof (induction es arbitrary: t bs)
  case Nil then show ?case by (intro exI [of _ "[]"]) simp
next
  case (Cons e es)
  let ?w = "writable (meter_of t)"
  obtain t' where t': "modbus_step e t = Some t'" "modbus_run es t' = Some u"
    using Cons.prems(1) by (auto simp: bind_eq_Some_conv)
  have w: "writable (meter_of t') = ?w" using modbus_step_writable [OF t'(1)] .
  have "\<exists>bs1. mb.run s (bs @ bs1) t' \<and> concat bs1 = written ?w e"
    using modbus_step_cases [OF t'(1), of ?w]
  proof
    assume "background t t' \<and> written ?w e = []"
    then show ?thesis using mb.run_sim [OF Cons.prems(2)] by (intro exI [of _ "[]"]) simp
  next
    assume "t' = client_write (written ?w e) t"
    then show ?thesis using mb.run_put [OF Cons.prems(2)] by (intro exI [of _ "[written ?w e]"]) simp
  qed
  then obtain bs1 where bs1: "mb.run s (bs @ bs1) t'" "concat bs1 = written ?w e" by blast
  from Cons.IH [OF t'(2) bs1(1)] obtain bs2 where
    "mb.run s (bs @ bs1 @ bs2) u" "concat bs2 = concat (map (written ?w) es)" by (auto simp: w)
  with bs1(2) show ?case by (intro exI [of _ "bs1 @ bs2"]) simp
qed

lemma modbus_run_last_write:
  fixes s es
  defines "W \<equiv> concat (map (written (writable (meter_of s))) es)"
  assumes "modbus_run es s = Some t" "a \<in> driven (meter_of s) \<or> a \<in> fst ` set W"
  shows "holding (meter_of t) a =
    (case map_of (rev W) a of None \<Rightarrow> holding (meter_of s) a | Some v \<Rightarrow> Some v)"
proof -
  obtain bs where bs: "mb.run s bs t" "concat bs = W"
    using modbus_run_surface [OF assms(2) mb.run_start] unfolding W_def by auto
  have "a \<in> driven (meter_of s) \<or> (\<exists>b\<in>set bs. a \<in> fst ` set b)" using assms(3)
    unfolding bs(2) [symmetric] set_concat image_UN by blast
  from mb.run_last_write [OF bs(1) TrueI this] bs(2) show ?thesis by simp
qed

subsection \<open>No panic\<close>

definition system_ok :: "modbus_system \<Rightarrow> bool" where
  "system_ok s \<longleftrightarrow> meter_ok (meter_of s)
     \<and> (case rack s of None \<Rightarrow> True | Some b \<Rightarrow> battery_ok b \<and> tick_ok (config b) (dt s))"

lemma system_ok_cong:
  "system_ok s \<Longrightarrow> rack t = rack s \<Longrightarrow> dt t = dt s \<Longrightarrow> meter_ok (meter_of t) \<Longrightarrow> system_ok t"
  by (cases "rack s") (simp_all add: system_ok_def)

lemma meter_ok_background:
  assumes "background s t" "meter_ok (meter_of s)" shows "meter_ok (meter_of t)"
  using background_frame(1,4) [OF assms(1)] assms(2) unfolding meter_ok_def by auto

lemma system_ok_simulator:
  assumes "system_ok s"
  shows "\<exists>t. modbus_step SimulatorTick s = Some t \<and> system_ok t"
proof (cases "simulated s \<and> rack s \<noteq> None")
  case False
  then have "\<exists>t. modbus_step SimulatorTick s = Some t \<and> rack t = rack s \<and> dt t = dt s"
    by (auto simp: Let_def)
  then obtain t where t: "modbus_step SimulatorTick s = Some t" "rack t = rack s" "dt t = dt s" by blast
  then have "background s t" unfolding background_def by blast
  then have "meter_ok (meter_of t)" using assms meter_ok_background by (auto simp: system_ok_def)
  with t system_ok_cong [OF assms] show ?thesis by blast
next
  case True
  then obtain b where b: "rack s = Some b" "simulated s" by auto
  let ?h = "holding (meter_of s)" and ?d = "driven (meter_of s)"
  have ok: "battery_ok b" "tick_ok (config b) (dt s)" "meter_ok (meter_of s)"
    using assms b(1) by (auto simp: system_ok_def)
  then have "SOC \<in> ?d \<longrightarrow> ?h SOC \<noteq> None" unfolding meter_ok_def by auto
  from battery_step_total [where driven = ?d and holding = ?h, OF ok(1,2) this] obtain b' h'
    where st: "battery_step b ?h ?d (dt s) = Some (b', h')" "battery_ok b'" by blast
  define t where "t = s\<lparr>meter_of := meter_of s\<lparr>holding := h'\<rparr>, rack := Some b'\<rparr>"
  have t: "modbus_step SimulatorTick s = Some t" using b st(1) by (simp add: t_def Let_def)
  then have "background s t" unfolding background_def by blast
  then have "meter_ok (meter_of t)" using ok(3) by (rule meter_ok_background)
  then have "system_ok t" using st(2) ok(2) step_config [OF st(1)] by (simp add: system_ok_def t_def)
  with t show ?thesis by blast
qed

lemma modbus_step_rest:
  assumes "e \<noteq> SimulatorTick"
  shows "\<exists>t. modbus_step e s = Some t \<and> rack t = rack s \<and> dt t = dt s"
  using assms by (cases e) (auto simp: Let_def split_beta split: option.split)

lemma system_ok_step:
  assumes "system_ok s" shows "\<exists>t. modbus_step e s = Some t \<and> system_ok t"
proof (cases "e = SimulatorTick")
  case True with system_ok_simulator [OF assms] show ?thesis by simp
next
  case False
  then obtain t where t: "modbus_step e s = Some t" "rack t = rack s" "dt t = dt s"
    using modbus_step_rest by blast
  have "meter_ok (meter_of t)"
    using modbus_step_cases [OF t(1), of True] meter_ok_background assms
    by (auto simp: system_ok_def client_write_def meter_ok_apply_writes)
  with t system_ok_cong [OF assms] show ?thesis by blast
qed

lemma system_ok_run: "system_ok s \<Longrightarrow> \<exists>t. modbus_run es s = Some t \<and> system_ok t"
proof (induction es arbitrary: s)
  case (Cons e es)
  from system_ok_step [OF Cons.prems, of e] obtain t where "modbus_step e s = Some t" "system_ok t" by blast
  with Cons.IH [of t] show ?case by simp
qed simp

subsection \<open>Start-up yields a sane system\<close>

text \<open>Powers of two are exact, so they serve as bounds.\<close>

lemma bound_ok_powi:
  assumes "k < 1024" shows "bound_ok F64 (2 ^ k)"
proof -
  have "on_grid (prec F64) (emin F64) (2 powi int k)"
    using rnd_powi2 [of "emin F64" "int k" "prec F64"] emin_neg [of F64] by (simp add: on_grid_def)
  moreover have "(2::rat) ^ k < 2 ^ 1024" using assms by (intro power_strict_increasing) simp_all
  ultimately show ?thesis by (simp add: bound_ok_def huge.simps power_int_def)
qed

lemma as_secs_range:
  assumes "ms < 2 ^ 64" shows "in_range 0 (2 ^ 65) (as_secs_f64 (from_millis ms))"
proof -
  let ?s = "ms div 1000" and ?n = "(ms mod 1000) * 1000000"
  have pf: "in_range 0 (2 ^ k) (f64_of_int (int n))" if "n \<le> 2 ^ k" "k < 1024" for n k
  proof -
    have "(of_nat n :: rat) \<le> of_nat (2 ^ k)" using that(1) by (simp only: of_nat_le_iff)
    then have "0 \<le> frnd F64 (of_nat n)" "frnd F64 (of_nat n) \<le> 2 ^ k" "\<bar>frnd F64 (of_nat n)\<bar> < huge F64"
      using frnd_between [OF _ _ bound_ok_numeral(1) bound_ok_powi [OF that(2)], of "of_nat n"] by simp_all
    then show ?thesis using pack_finite [of F64 "of_nat n" False] by (simp add: f64_of_int_def in_range_def)
  qed
  have "?n \<le> 2 ^ 60" "?s \<le> 2 ^ 64" using assms by (auto intro: less_imp_le le_trans [OF _ less_imp_le])
  note f = in_rangeD [OF pf [OF this(1)]] in_rangeD [OF pf [OF this(2)]]
  have d: "in_range 0 (2 ^ 60) (fdiv F64 (f64_of_int (int ?n)) (Num 1000000000))"
    using f(1-3) by (intro in_range_fdiv bound_ok_powi) (simp_all add: divide_le_eq)
  show ?thesis unfolding as_secs_f64_def from_millis_def
    using f(4-6) in_rangeD [OF d] bound_ok_powi [of 65]
    by (simp, intro in_range_fadd) simp_all
qed

lemma in_range_fmul_pow:
  assumes "in_range 0 (2 ^ j) x" "in_range 0 (2 ^ k) y" "j + k < 1024"
  shows "in_range 0 (2 ^ (j + k)) (fmul F64 x y)"
proof (rule in_range_fmul)
  note x = in_rangeD [OF assms(1)] and y = in_rangeD [OF assms(2)]
  show "is_finite x" "is_finite y" using x(1) y(1) .
  show "0 \<le> fval x * fval y" using x(2) y(2) by simp
  show "fval x * fval y \<le> 2 ^ (j + k)" unfolding power_add using x y by (intro mult_mono) simp_all
qed (use bound_ok_powi [OF assms(3)] in simp_all)

lemma in_range_fdiv_pow:
  assumes "in_range 0 (2 ^ k) x" "k < 1024" "1 \<le> y"
  shows "in_range 0 (2 ^ k) (fdiv F64 x (Num y))"
proof (rule in_range_fdiv)
  note x = in_rangeD [OF assms(1)]
  show "is_finite x" using x(1) .
  show "0 \<le> fval x / fval (Num y)" using x(2) assms(3) by simp
  have "fval x * 1 \<le> 2 ^ k * y" using x assms(3) by (intro mult_mono) simp_all
  then show "fval x / fval (Num y) \<le> 2 ^ k" using assms(3) by (simp add: divide_le_eq)
qed (use assms(3) bound_ok_powi [OF assms(2)] in simp_all)

lemma tick_ok_scale:
  assumes "ms < 2 ^ 64" "in_range 0 (2 ^ 900) (time_scale cfg)"
  shows "tick_ok cfg (from_millis ms)"
proof -
  have "in_range 0 (2 ^ (65 + 900)) (fmul F64 (as_secs_f64 (from_millis ms)) (time_scale cfg))"
    using as_secs_range [OF assms(1)] assms(2) by (rule in_range_fmul_pow) simp
  then have "in_range 0 (2 ^ (65 + 900))
      (fdiv F64 (fmul F64 (as_secs_f64 (from_millis ms)) (time_scale cfg)) (Num 3600))"
    by (rule in_range_fdiv_pow) simp_all
  then have "in_range 0 (2 ^ (65 + 900)) (sim_hours cfg (from_millis ms))"
    by (simp only: sim_hours_def) simp
  then show ?thesis unfolding tick_ok_def by (blast dest: in_rangeD)
qed

lemma battery_from_env_ok:
  assumes "battery_from_env env = Some (Inr (b, h))"
  shows "battery_ok b"
    "\<exists>x. env_f64 env ''BATTERY_TIME_SCALE'' (f64_lit 1) = Inr x \<and> time_scale (config b) = x
       \<and> \<not> fle x (Num 0)"
proof -
  from assms obtain x soc where
    x: "env_f64 env ''BATTERY_TIME_SCALE'' (f64_lit 1) = Inr x" "\<not> fle x (Num 0)"
    and soc: "env_f64 env ''BATTERY_INITIAL_SOC_PERCENT'' DEFAULT_INITIAL_SOC_PERCENT = Inr soc"
      "fle (Num 0) soc" "fle soc (Num 100)"
    and b: "b = battery_new \<lparr>capacity_kwh = RACK_CAPACITY_KWH, power_limit_w = RACK_POWER_LIMIT_W,
                            time_scale = x\<rparr> soc"
    by (auto simp: battery_from_env_def Let_def split: sum.splits if_splits)
  have "in_range 0 100 soc" using soc(2,3) by (cases soc) (auto simp: fle_def in_range_def)
  moreover have "fp_ok F64 soc"
    using env_f64_ok [OF soc(1)] by (simp add: DEFAULT_INITIAL_SOC_PERCENT_def del: f64_lit_numeral)
  ultimately show "battery_ok b"
    by (simp add: b battery_ok_def battery_new_def config_ok_def rating_ok_def RACK_CAPACITY_KWH_def
        RACK_POWER_LIMIT_W_def fle_def)
  show "\<exists>x. env_f64 env ''BATTERY_TIME_SCALE'' (f64_lit 1) = Inr x \<and> time_scale (config b) = x
       \<and> \<not> fle x (Num 0)"
    using x b by (simp add: battery_new_def)
qed

lemma profile_rack:
  assumes "profile_registers env p = Some (Inr (h, i, Some b))"
  shows "battery_from_env env = Some (Inr (b, h))"
  using assms by (cases "battery_from_env env"; cases "the (battery_from_env env)")
    (auto simp: profile_registers_def split: if_splits)

lemma modbus_wire_system:
  assumes "modbus_wire env cfg (h, i, b) = Inr (cfg', s)"
  shows "cfg' = cfg" "dt s = from_millis (tick_ms cfg)" "rack s = b" "holding (meter_of s) = h"
    "input (meter_of s) = i" "driven (meter_of s) = {}"
    "simulated s \<longleftrightarrow> profile cfg = ''poi_meter'' \<or> b \<noteq> None"
    "writable (meter_of s) \<longleftrightarrow> profile cfg = ''bess_rack'' \<or> profile cfg = ''dc_external''
       \<or> env ''MODBUS_WRITABLE'' = Some ''1''"
  using assms by (auto simp: modbus_wire_def Let_def meter_new_def split: sum.splits)

lemma modbus_mainE:
  assumes "modbus_main env = Some (Inr (cfg, s))"
  obtains h i b where "cfg = modbus_settings_from_env env"
    "profile_registers env (profile cfg) = Some (Inr (h, i, b))" "modbus_wire env cfg (h, i, b) = Inr (cfg, s)"
proof -
  obtain r where r: "profile_registers env (profile (modbus_settings_from_env env)) = Some (Inr r)"
    "modbus_wire env (modbus_settings_from_env env) r = Inr (cfg, s)"
    using assms
    by (cases "the (profile_registers env (profile (modbus_settings_from_env env)))")
      (auto simp: modbus_main_def Let_def)
  obtain h i b where "r = (h, i, b)" by (cases r) auto
  with r modbus_wire_system(1) [of env _ h i b cfg s] show ?thesis by (intro that [of h i b]) auto
qed

lemma modbus_main_ok:
  assumes "modbus_main env = Some (Inr (cfg, s))"
    and scale: "\<And>x. env_f64 env ''BATTERY_TIME_SCALE'' (f64_lit 1) = Inr x \<Longrightarrow> fle x (Num (2 ^ 900))"
  shows "system_ok s"
proof -
  from assms(1) obtain h i b' where cfg: "cfg = modbus_settings_from_env env"
    and pr: "profile_registers env (profile cfg) = Some (Inr (h, i, b'))"
    and w: "modbus_wire env cfg (h, i, b') = Inr (cfg, s)" by (rule modbus_mainE)
  note m = modbus_wire_system [OF w]
  have "env_uint env 64 ''TICK_MS'' 1000 < 2 ^ 64" by (rule env_uint_bound) simp
  then have ms: "tick_ms cfg < 2 ^ 64"
    unfolding cfg modbus_settings_from_env_def by (simp add: Let_def)
  have "battery_ok b \<and> tick_ok (config b) (dt s)" if "rack s = Some b" for b
  proof -
    have be: "battery_from_env env = Some (Inr (b, h))" using profile_rack pr that m(3) by simp
    from battery_from_env_ok(2) [OF be] obtain x where
      x: "env_f64 env ''BATTERY_TIME_SCALE'' (f64_lit 1) = Inr x" "time_scale (config b) = x" "\<not> fle x (Num 0)"
      by blast
    have "in_range 0 (2 ^ 900) x"
      using scale [OF x(1)] x(3) by (cases x) (auto simp: fle_def in_range_def)
    then show ?thesis using battery_from_env_ok(1) [OF be] tick_ok_scale [OF ms] by (simp add: m(2) x(2))
  qed
  then show ?thesis using m(6) by (auto simp: system_ok_def meter_ok_def split: option.split)
qed

end
