(* ===== verification/ModbusProps.thy ===== *)
theory ModbusProps
  imports ModbusMain
begin

text \<open>
  The properties of mock-modbus-server, each with a witness at a concrete input: who
  decides what a register reads, that no task poisons the shared mutex, what the rack
  delivers and counts, and what the meter at the point of interconnection shows.
\<close>

subsection \<open>Concrete systems for the witnesses\<close>

definition demo_env :: "(string \<times> string) list \<Rightarrow> env" where
  "demo_env kvs = map_of kvs"

definition demo_rack :: battery where
  "demo_rack = battery_new \<lparr>capacity_kwh = Num 3854, power_limit_w = Num 1927000, time_scale = Num 1\<rparr> (Num 60)"

definition demo_setpoint :: "i32 \<Rightarrow> regs" where
  "demo_setpoint w = [SETPOINT \<mapsto> hi16 w, SETPOINT + 1 \<mapsto> lo16 w]"

definition demo_poi :: poi where
  "demo_poi = \<lparr>fixed_load = Num 72800, racks = [(''a'', 502), (''b'', 502)], compute = None, node_w = None\<rparr>"

lemma demo_rack_ok: "battery_ok demo_rack"
  by (simp add: demo_rack_def battery_ok_def battery_new_def config_ok_def rating_ok_def in_range_def fle_def)

lemma demo_tick_ok: "tick_ok (config demo_rack) (from_millis 1000)"
  by (rule tick_ok_scale) (simp_all add: demo_rack_def battery_new_def in_range_def)

lemma demo_setpoint_read: "read_i32 (demo_setpoint w) SETPOINT = w"
  by (simp add: demo_setpoint_def read_i32_def word_or_0_def SETPOINT_def)

subsection \<open>The control surface\<close>

text \<open>C4: Whatever the simulator, the rack model, the POI tracker, Modbus clients and the
  HTTP control surface do, in any order, a register that a client has ever written
  reads what the last such write put there: no background task ever overwrites it.
  Writes over Modbus count only on a writable device.\<close>

theorem modbus_client_writes_stick:
  assumes "modbus_run es s = Some t"
    and "a \<in> driven (meter_of s) \<or> a \<in> fst ` set (concat (map (written (writable (meter_of s))) es))"
  shows "read_holding_register (meter_of t) a =
    (case map_of (rev (concat (map (written (writable (meter_of s))) es))) a of
       Some v \<Rightarrow> Inr v
     | None \<Rightarrow> read_holding_register (meter_of s) a)"
  using modbus_run_last_write [OF assms] by (simp add: read_holding_register_def split: option.split)

definition demo_meter_system :: modbus_system where
  "demo_meter_system = \<lparr>meter_of = meter_new poi_holding_registers, rack = None, poi_task = Some demo_poi,
     simulated = True, dt = from_millis 1000\<rparr>"

theorem modbus_client_writes_stick_witness:
  "\<exists>t. modbus_run [PutRegisters (Some [(3206, 1)]), SimulatorTick, WriteSingle (3206, 9)] demo_meter_system = Some t
     \<and> read_holding_register (meter_of t) 3206 = Inr 1"
proof -
  let ?es = "[PutRegisters (Some [(3206, 1)]), SimulatorTick, WriteSingle (3206, 9)]"
  have "system_ok demo_meter_system" by (simp add: system_ok_def demo_meter_system_def)
  then obtain t where t: "modbus_run ?es demo_meter_system = Some t" using system_ok_run by blast
  from modbus_client_writes_stick [OF t, of 3206] have "read_holding_register (meter_of t) 3206 = Inr 1"
    by (simp add: demo_meter_system_def meter_new_def)
  with t show ?thesis by blast
qed

subsection \<open>No panic\<close>

text \<open>C1: If the mock starts at all, with a time scale that is unset or at most \<open>2 ^ 900\<close>,
  then no sequence of ticks, rack replies, node readings and client writes makes a task
  panic while it holds the register mutex: every update succeeds, and afterwards every
  driven register still has a value and the SoC of a rack lies between 0 and 100.\<close>

theorem modbus_never_poisoned:
  assumes "modbus_main env = Some (Inr (cfg, s))"
    and "\<And>x. env_f64 env ''BATTERY_TIME_SCALE'' (f64_lit 1) = Inr x \<Longrightarrow> fle x (Num (2 ^ 900))"
  shows "\<exists>t. modbus_run es s = Some t \<and> driven (meter_of t) \<subseteq> dom (holding (meter_of t))
    \<and> (\<forall>b. rack t = Some b \<longrightarrow> in_range 0 100 (soc_percent b))"
proof -
  from modbus_main_ok [OF assms] obtain t where t: "modbus_run es s = Some t" "system_ok t"
    using system_ok_run by blast
  then show ?thesis by (auto simp: system_ok_def meter_ok_def battery_ok_def)
qed

lemma initial_registers_total:
  assumes "\<not> is_nan soc" "rating_ok rated" shows "\<exists>h. initial_registers soc rated = Some h"
  using max_charge_bounds [of rated soc] max_discharge_bounds [of rated soc] assms
  by (auto simp: initial_registers_def rating_ok_def Let_def)

lemma rack_rating_ok: "rating_ok RACK_POWER_LIMIT_W"
  by (simp add: rating_ok_def RACK_POWER_LIMIT_W_def)

lemma battery_from_env_starts:
  assumes "env_f64 env ''BATTERY_TIME_SCALE'' (f64_lit 1) = Inr x" "\<not> fle x (Num 0)"
    and "env ''BATTERY_INITIAL_SOC_PERCENT'' = None"
  shows "\<exists>h. battery_from_env env = Some (Inr (battery_new \<lparr>capacity_kwh = RACK_CAPACITY_KWH,
    power_limit_w = RACK_POWER_LIMIT_W, time_scale = x\<rparr> (Num 60), h))"
proof -
  obtain h where "initial_registers (Num 60) RACK_POWER_LIMIT_W = Some h"
    using initial_registers_total [of "Num 60"] rack_rating_ok by auto
  moreover have "env_f64 env ''BATTERY_INITIAL_SOC_PERCENT'' DEFAULT_INITIAL_SOC_PERCENT = Inr (Num 60)"
    using assms(3) by (simp add: env_f64_def DEFAULT_INITIAL_SOC_PERCENT_def)
  ultimately show ?thesis
    using assms(1,2) by (simp add: battery_from_env_def fle_def)
qed

lemma rack_main_starts:
  assumes "battery_from_env env = Some (Inr (b, h))" "env ''MODBUS_PROFILE'' = Some ''bess_rack''"
    "env ''MODBUS_TLS'' = None"
  shows "\<exists>cfg s. modbus_main env = Some (Inr (cfg, s)) \<and> rack s = Some b \<and> simulated s
    \<and> driven (meter_of s) = {} \<and> dt s = from_millis (env_uint env 64 ''TICK_MS'' 1000)"
  using assms
  by (simp add: modbus_main_def modbus_settings_from_env_def profile_registers_def modbus_wire_def
      meter_new_def Let_def)

theorem modbus_never_poisoned_witness:
  "\<exists>cfg s t. modbus_main (demo_env [(''MODBUS_PROFILE'', ''bess_rack'')]) = Some (Inr (cfg, s))
     \<and> modbus_run [WriteMultiple [(50, 0xFFFF), (51, 0)], SimulatorTick, SimulatorTick] s = Some t"
proof -
  let ?e = "demo_env [(''MODBUS_PROFILE'', ''bess_rack'')]"
  have x: "env_f64 ?e ''BATTERY_TIME_SCALE'' (f64_lit 1) = Inr (Num 1)"
    by (simp add: env_f64_def demo_env_def)
  have "\<exists>h. battery_from_env ?e = Some (Inr (battery_new \<lparr>capacity_kwh = RACK_CAPACITY_KWH,
      power_limit_w = RACK_POWER_LIMIT_W, time_scale = Num 1\<rparr> (Num 60), h))"
    using x by (rule battery_from_env_starts) (simp_all add: fle_def demo_env_def)
  then obtain cfg s where m: "modbus_main ?e = Some (Inr (cfg, s))"
    using rack_main_starts [of ?e] by (auto simp: demo_env_def)
  have "fle y (Num (2 ^ 900))" if "env_f64 ?e ''BATTERY_TIME_SCALE'' (f64_lit 1) = Inr y" for y
    using that x by (simp add: fle_def)
  from modbus_never_poisoned [OF m this] m show ?thesis by blast
qed

lemma nan_step:
  assumes "battery_ok (b\<lparr>config := (config b)\<lparr>time_scale := Num 1\<rparr>\<rparr>)" "time_scale (config b) = NaN"
    "SOC \<notin> drv"
  shows "\<exists>b' h'. battery_step b h drv d = Some (b', h') \<and> config b' = config b \<and> soc_percent b' = NaN"
proof -
  have ok: "rating_ok (power_limit_w (config b))" "\<not> is_nan (soc_percent b)"
    using assms(1) is_finite_not_nan [OF in_rangeD(1) [of 0 100 "soc_percent b"]]
    by (auto simp: battery_ok_def config_ok_def)
  obtain c e where lim: "limits b = Some (c, e)"
    "in_range 0 (fval (power_limit_w (config b))) c" "in_range 0 (fval (power_limit_w (config b))) e"
    using limits_bounds [OF ok] by blast
  obtain p where p: "deliverable b (f64_of_int (sint (read_i32 h SETPOINT))) = Some p"
    using deliverable_in_limits [OF lim is_finite_not_nan [OF setpoint_finite]] by blast
  have hours: "sim_hours (config b) d = NaN"
    by (simp add: sim_hours_def assms(2) fmul_def fdiv_def Let_def)
  have nl: "max_charge_w r NaN = Some (fmul F64 r NaN)" "max_discharge_w r NaN = Some (fmul F64 r NaN)" for r
    by (simp_all add: max_charge_w_def max_discharge_w_def DISCHARGE_TAPER_BELOW_PERCENT_def
        CHARGE_TAPER_ABOVE_PERCENT_def fdiv_def fsub_def fadd_def fclamp_def fle_def Let_def)
  show ?thesis
    by (simp add: battery_step_def adopt_undriven [OF assms(3)] p hours Let_def fmul_def [of _ _ NaN]
        fmul_def [of _ NaN] fdiv_def [of _ NaN] fsub_def [of _ _ NaN] fadd_def [of _ _ NaN] fclamp_nan
        limits_def nl fle_def)
qed

lemma nan_panics:
  assumes "soc_percent b = NaN" "SOC \<notin> drv" shows "battery_step b h drv d = None"
proof -
  have f: "fdiv F64 NaN y = NaN" "fsub F64 x NaN = NaN" "fmul F64 x NaN = NaN" for x y
    by (simp_all add: fdiv_def fsub_def fadd_def fmul_def Let_def)
  have "deliverable b x = None" for x
    by (simp add: deliverable_def limits_def assms(1) max_charge_w_def max_discharge_w_def Let_def
        DISCHARGE_TAPER_BELOW_PERCENT_def CHARGE_TAPER_ABOVE_PERCENT_def f fclamp_nan fle_def)
      (simp add: fclamp_def)
  then show ?thesis by (simp add: battery_step_def adopt_undriven [OF assms(2)])
qed

text \<open>C28: The check of the time scale does not exclude NaN: with \<open>BATTERY_TIME_SCALE=nan\<close> the
  rack starts, its first tick succeeds and turns the SoC into NaN, and its second tick
  panics inside \<open>clamp\<close> while the mutex is held.\<close>

theorem nan_time_scale_poisons:
  assumes "env ''MODBUS_PROFILE'' = Some ''bess_rack''" "env ''MODBUS_TLS'' = None"
    "env ''BATTERY_TIME_SCALE'' = Some ''nan''" "env ''BATTERY_INITIAL_SOC_PERCENT'' = None"
  shows "\<exists>cfg s t b. modbus_main env = Some (Inr (cfg, s)) \<and> modbus_step SimulatorTick s = Some t
    \<and> rack t = Some b \<and> soc_percent b = NaN \<and> modbus_step SimulatorTick t = None"
proof -
  have x: "env_f64 env ''BATTERY_TIME_SCALE'' (f64_lit 1) = Inr NaN"
    by (simp add: env_f64_def assms(3) parse_eval Let_def)
  from battery_from_env_starts [OF x _ assms(4)] obtain h where
    be: "battery_from_env env = Some (Inr (battery_new \<lparr>capacity_kwh = RACK_CAPACITY_KWH,
      power_limit_w = RACK_POWER_LIMIT_W, time_scale = NaN\<rparr> (Num 60), h))" (is "_ = Some (Inr (?b, h))") by auto
  from rack_main_starts [OF this assms(1,2)] obtain cfg s where
    s: "modbus_main env = Some (Inr (cfg, s))" "rack s = Some ?b" "simulated s" "driven (meter_of s) = {}"
    by blast
  have "battery_ok (?b\<lparr>config := (config ?b)\<lparr>time_scale := Num 1\<rparr>\<rparr>)"
    using battery_from_env_ok(1) [OF be] by (simp add: battery_ok_def config_ok_def)
  from nan_step [OF this, of "driven (meter_of s)" "holding (meter_of s)" "dt s"] s(4) obtain b' h' where
    b': "battery_step ?b (holding (meter_of s)) {} (dt s) = Some (b', h')" "soc_percent b' = NaN"
    by (auto simp: battery_new_def)
  let ?t = "s\<lparr>meter_of := (meter_of s)\<lparr>holding := h'\<rparr>, rack := Some b'\<rparr>"
  have "modbus_step SimulatorTick s = Some ?t" using s(2-4) b'(1) by (simp add: Let_def)
  moreover have "modbus_step SimulatorTick ?t = None"
    using s(3,4) nan_panics [OF b'(2), of "{}"] by (simp add: Let_def)
  ultimately show ?thesis using s(1) b'(2)
    by (intro exI [of _ cfg] exI [of _ s] exI [of _ ?t] exI [of _ b'] conjI) simp_all
qed

theorem nan_time_scale_poisons_witness:
  "\<exists>cfg s t b. modbus_main (demo_env [(''MODBUS_PROFILE'', ''bess_rack''), (''BATTERY_TIME_SCALE'', ''nan'')])
     = Some (Inr (cfg, s)) \<and> modbus_step SimulatorTick s = Some t
     \<and> rack t = Some b \<and> soc_percent b = NaN \<and> modbus_step SimulatorTick t = None"
  by (rule nan_time_scale_poisons) (simp_all add: demo_env_def)

subsection \<open>The rack\<close>

text \<open>C6: One step of a sane rack puts into the active-power register the commanded setpoint
  clipped to the present limits and rounded to a whole watt; the limits are the rating
  times the derate curve, linear in the SoC below 20 percent for discharging and above
  90 percent for charging, each float operation rounded once.\<close>

theorem rack_delivers_setpoint:
  assumes "battery_ok b" "battery_step b h drv d = Some (b', h')"
    and "SOC \<notin> drv" "ACTIVE_POWER \<notin> drv" "ACTIVE_POWER + 1 \<notin> drv"
    and "fval (power_limit_w (config b)) \<le> 2147483647"
  shows "sint (read_i32 h' ACTIVE_POWER) =
    (let r = fval (power_limit_w (config b)); soc = fval (soc_percent b);
         discharge = frnd F64 (r * max 0 (min 1 (frnd F64 (soc / 20))));
         charge = frnd F64 (r * max 0 (min 1 (frnd F64 (frnd F64 (100 - soc) / 10)))) in
     round_away (max (- charge) (min discharge (of_int (sint (read_i32 h SETPOINT))))))"
proof -
  obtain c e where l: "limits b = Some (c, e)"
    using assms(1) is_finite_not_nan [OF in_rangeD(1) [of 0 100 "soc_percent b"]]
    by (auto simp: battery_ok_def config_ok_def elim: limits_bounds)
  show ?thesis
    by (simp only: step_output [OF assms(1-5) l assms(6)] limits_val [OF assms(1) l] Let_def)
qed

theorem rack_delivers_setpoint_witness:
  "\<exists>b' h'. battery_step demo_rack (demo_setpoint 2000000) {} (from_millis 1000) = Some (b', h')
     \<and> sint (read_i32 h' ACTIVE_POWER) = 1927000"
proof -
  obtain b' h' where st: "battery_step demo_rack (demo_setpoint 2000000) {} (from_millis 1000) = Some (b', h')"
    using battery_step_total [where driven = "{}", OF demo_rack_ok demo_tick_ok] by blast
  have v: "power_limit_w (config demo_rack) = Num 1927000" "soc_percent demo_rack = Num 60"
    by (simp_all add: demo_rack_def battery_new_def)
  have "sint (read_i32 h' ACTIVE_POWER) = 1927000"
    using rack_delivers_setpoint [OF demo_rack_ok st]
    by (simp add: v demo_setpoint_read frnd_numeral Let_def)
  with st show ?thesis by blast
qed

text \<open>C29: With the SoC left to the model, a non-negative setpoint never raises the SoC and a
  non-positive one never lowers it; in particular an idle rack keeps it exactly.\<close>

theorem rack_soc_follows_setpoint:
  assumes "battery_ok b" "tick_ok (config b) d" "battery_step b h drv d = Some (b', h')" "SOC \<notin> drv"
  shows "(0 \<le> sint (read_i32 h SETPOINT) \<longrightarrow> fval (soc_percent b') \<le> fval (soc_percent b))
    \<and> (sint (read_i32 h SETPOINT) \<le> 0 \<longrightarrow> fval (soc_percent b) \<le> fval (soc_percent b'))"
  using step_soc [OF assms] by blast

theorem rack_soc_follows_setpoint_witness:
  "\<exists>b' h'. battery_step demo_rack (demo_setpoint 0) {} (from_millis 1000) = Some (b', h')
     \<and> fval (soc_percent b') = 60"
proof -
  obtain b' h' where st: "battery_step demo_rack (demo_setpoint 0) {} (from_millis 1000) = Some (b', h')"
    using battery_step_total [where driven = "{}", OF demo_rack_ok demo_tick_ok] by blast
  have "soc_percent demo_rack = Num 60" by (simp add: demo_rack_def battery_new_def)
  with rack_soc_follows_setpoint [OF demo_rack_ok demo_tick_ok st] st show ?thesis
    by (auto simp: demo_setpoint_read)
qed

text \<open>The energy counter over a whole run.\<close>

lemma fle_trans: "fle x y \<Longrightarrow> fle y z \<Longrightarrow> fle x z"
  by (cases x; cases y; cases z) (auto simp: fle_def)

lemma energy_step:
  assumes "system_ok s" "modbus_step e s = Some t" "rack s = Some b"
  shows "\<exists>b'. rack t = Some b' \<and> fle (energy_discharged_wh b) (energy_discharged_wh b')"
proof (cases "e = SimulatorTick \<and> simulated s")
  case True
  then obtain b' h' where "battery_step b (holding (meter_of s)) (driven (meter_of s)) (dt s) = Some (b', h')"
    "rack t = Some b'" using assms(2,3) by (auto simp: Let_def)
  then show ?thesis using assms(1,3) step_energy by (auto simp: system_ok_def)
next
  case False
  then have "rack t = rack s"
    using assms(2) modbus_step_rest [of e s] by (cases "e = SimulatorTick") auto
  moreover have "fle (energy_discharged_wh b) (energy_discharged_wh b)"
    using assms(1,3) by (auto simp: system_ok_def battery_ok_def fle_refl_num)
  ultimately show ?thesis using assms(3) by simp
qed

text \<open>C30: The discharged-energy counter of a rack never falls, over any run of updates.\<close>

theorem rack_energy_never_falls:
  assumes "system_ok s" "rack s = Some b" "modbus_run es s = Some t"
  shows "\<exists>b'. rack t = Some b' \<and> fle (energy_discharged_wh b) (energy_discharged_wh b')"
  using assms
proof (induction es arbitrary: s b)
  case Nil
  then show ?case by (auto simp: system_ok_def battery_ok_def fle_refl_num)
next
  case (Cons e es)
  then obtain s' where s': "modbus_step e s = Some s'" "modbus_run es s' = Some t"
    by (auto simp: bind_eq_Some_conv)
  obtain b1 where b1: "rack s' = Some b1" "fle (energy_discharged_wh b) (energy_discharged_wh b1)"
    using energy_step [OF Cons.prems(1) s'(1) Cons.prems(2)] by blast
  have "system_ok s'" using system_ok_step [OF Cons.prems(1), of e] s'(1) by simp
  from Cons.IH [OF this b1(1) s'(2)] b1(2) show ?case by (auto intro: fle_trans)
qed

definition demo_rack_system :: modbus_system where
  "demo_rack_system = \<lparr>meter_of = (meter_new (demo_setpoint 1000000))\<lparr>writable := True\<rparr>,
     rack = Some demo_rack, poi_task = None, simulated = True, dt = from_millis 1000\<rparr>"

lemma demo_rack_system_ok: "system_ok demo_rack_system"
  using demo_rack_ok demo_tick_ok by (simp add: system_ok_def demo_rack_system_def meter_ok_def meter_new_def)

theorem rack_energy_never_falls_witness:
  "\<exists>t b'. modbus_run [SimulatorTick, SimulatorTick] demo_rack_system = Some t \<and> rack t = Some b'
     \<and> fle (Num 0) (energy_discharged_wh b')"
proof -
  obtain t where t: "modbus_run [SimulatorTick, SimulatorTick] demo_rack_system = Some t"
    using system_ok_run [OF demo_rack_system_ok] by blast
  have r: "rack demo_rack_system = Some demo_rack" "energy_discharged_wh demo_rack = Num 0"
    by (simp_all add: demo_rack_system_def demo_rack_def battery_new_def)
  from rack_energy_never_falls [OF demo_rack_system_ok r(1) t] t r(2) show ?thesis by auto
qed

subsection \<open>The meter at the point of interconnection\<close>

text \<open>What a rack's server answers to the meter's request for two registers: the two answers of its
  \<open>read_holding_register\<close>, or an exception when one of them is one.  The unit id, the timeout
  and the connection of \<open>read_rack_power\<close> decide whether the request gets an answer at all; a
  read without one is \<open>None\<close>, as a read answered with an exception is.\<close>

definition rack_reply :: "meter \<Rightarrow> u16 list option" where
  "rack_reply m =
     (case (read_holding_register m RACK_ACTIVE_POWER, read_holding_register m (RACK_ACTIVE_POWER + 1)) of
        (Inr high, Inr low) \<Rightarrow> Some [high, low] | _ \<Rightarrow> None)"

lemma rack_reply_pair:
  assumes "RACK_ACTIVE_POWER \<in> dom (holding m)" "RACK_ACTIVE_POWER + 1 \<in> dom (holding m)"
  shows "rack_reply m = Some [hi16 (read_i32 (holding m) ACTIVE_POWER), lo16 (read_i32 (holding m) ACTIVE_POWER)]"
  using assms
  by (auto simp: rack_reply_def read_holding_register_def read_i32_def word_or_0_def
      RACK_ACTIVE_POWER_def ACTIVE_POWER_def)

lemma rack_replies:
  assumes "\<And>m. m \<in> set ms \<Longrightarrow> RACK_ACTIVE_POWER \<in> dom (holding m) \<and> RACK_ACTIVE_POWER + 1 \<in> dom (holding m)"
  shows "List.map_filter rack_power (map rack_reply ms)
    = map f64_of_int (map (\<lambda>m. sint (read_i32 (holding m) ACTIVE_POWER)) ms)"
proof -
  have "map rack_reply ms = map (\<lambda>w. Some [hi16 w, lo16 w]) (map (\<lambda>m. read_i32 (holding m) ACTIVE_POWER) ms)"
    using assms rack_reply_pair by auto
  then show ?thesis by (simp only: map_filter_replies) simp
qed

lemma site_load_whole:
  assumes "load = Num (of_int L)" "\<bar>L\<bar> \<le> 2 ^ 51" shows "site_load load None = Num (of_int L)"
proof -
  have "bound_ok F64 (of_int L)" using assms(2) by (intro bound_ok_of_int) simp
  then have "frnd F64 (of_int L) = of_int L" "\<bar>of_int L :: rat\<bar> < huge F64"
    by (simp_all add: bound_ok_def on_grid_def)
  then show ?thesis by (auto simp: site_load_def assms(1) fadd_def pack_def Let_def abs_less_iff)
qed

text \<open>Integer loads and integer rack powers: the pair decodes to their balance, rounded once.\<close>

lemma poi_meter_value:
  assumes "\<And>m. m \<in> set ms \<Longrightarrow> RACK_ACTIVE_POWER \<in> dom (holding m) \<and> RACK_ACTIVE_POWER + 1 \<in> dom (holding m)"
    and "length ms = length rs" "length ms \<le> 2 ^ 20" "\<bar>L\<bar> \<le> 2 ^ 52"
    and "POI_ACTIVE_POWER \<notin> drv" "POI_ACTIVE_POWER + 1 \<notin> drv"
    and "is_finite load" "fval load = of_int L"
  shows "fval (f32_of_bits (read_i32
      (let powers = List.map_filter rack_power (map rack_reply ms) in
       if length powers = length rs then write_poi_power h drv (poi_active_power load powers) else h) POI_ACTIVE_POWER))
    = frnd F32 (of_int (L - (\<Sum>m\<leftarrow>ms. sint (read_i32 (holding m) ACTIVE_POWER))))"
proof -
  let ?ks = "map (\<lambda>m. sint (read_i32 (holding m) ACTIVE_POWER)) ms"
  let ?p = "poi_active_power load (map f64_of_int ?ks)"
  have b: "\<bar>k\<bar> \<le> 2 ^ 31" if "k \<in> set ?ks" for k
    using that sint_ge [where 'a = 32] sint_lt [where 'a = 32]
    by (auto simp: abs_le_iff less_imp_le minus_le_iff)
  have "length ?ks \<le> 2 ^ 20" using assms(3) by simp
  note p = poi_active_power_ints [OF b this assms(7,8,4), simplified (no_asm_use)]
  have "\<bar>sum_list ?ks\<bar> \<le> int (length ?ks) * 2 ^ 31" using b by (rule sum_list_bound)
  then have "\<bar>L - sum_list ?ks\<bar> \<le> 2 ^ 60" using assms(3,4) by simp
  then have "\<bar>of_int (L - sum_list ?ks) :: rat\<bar> \<le> of_int (2 ^ 60)"
    by (simp only: of_int_le_iff flip: of_int_abs)
  then have "fval (as_f32 ?p) = frnd F32 (of_int (L - sum_list ?ks))"
    using as_f32_fval(2) [of ?p] p by simp
  then show ?thesis
    using write_poi_power_value [OF assms(5,6)] assms(2)
    by (simp add: Let_def rack_replies [OF assms(1)])
qed

text \<open>C13: When every rack answers, the float32 pair of the meter decodes to the site load
  minus the sum of the racks' active-power registers, the sum exact and rounded to
  float32 exactly once, for up to \<open>2 ^ 20\<close> racks and whole-watt site loads.\<close>

theorem poi_meter_balances_site:
  assumes "\<And>m. m \<in> set ms \<Longrightarrow> RACK_ACTIVE_POWER \<in> dom (holding m) \<and> RACK_ACTIVE_POWER + 1 \<in> dom (holding m)"
    and "length ms = length (racks p)" "length ms \<le> 2 ^ 20" "compute p = None"
    and "fixed_load p = Num (of_int L)" "\<bar>L\<bar> \<le> 2 ^ 51"
    and "POI_ACTIVE_POWER \<notin> drv" "POI_ACTIVE_POWER + 1 \<notin> drv"
  shows "fval (f32_of_bits (read_i32 (snd (poi_tick p (map rack_reply ms) nd h drv)) POI_ACTIVE_POWER))
    = frnd F32 (of_int (L - (\<Sum>m\<leftarrow>ms. sint (read_i32 (holding m) ACTIVE_POWER))))"
proof -
  have "\<bar>L\<bar> \<le> 2 ^ 52" "is_finite (site_load (fixed_load p) None)" "fval (site_load (fixed_load p) None) = of_int L"
    using assms(6) site_load_whole [OF assms(5,6)] by simp_all
  from poi_meter_value [OF assms(1-3) this(1) assms(7,8) this(2,3), of h]
  show ?thesis by (simp add: poi_tick_def assms(4) Let_def)
qed

definition demo_output :: "i32 \<Rightarrow> meter" where
  "demo_output w = meter_new [ACTIVE_POWER \<mapsto> hi16 w, ACTIVE_POWER + 1 \<mapsto> lo16 w]"

lemma demo_output_simps [simp]:
  "RACK_ACTIVE_POWER \<in> dom (holding (demo_output w))" "RACK_ACTIVE_POWER + 1 \<in> dom (holding (demo_output w))"
  "read_i32 (holding (demo_output w)) ACTIVE_POWER = w"
  by (simp_all add: demo_output_def meter_new_def RACK_ACTIVE_POWER_def ACTIVE_POWER_def read_i32_def
      word_or_0_def)

theorem poi_meter_balances_site_witness:
  "fval (f32_of_bits (read_i32 (snd (poi_tick demo_poi (map rack_reply [demo_output 20000, demo_output 10000])
     None Map.empty {})) POI_ACTIVE_POWER)) = 42800"
proof -
  have "(42800 :: int) < 2 ^ prec F32" by simp
  then have f: "frnd F32 42800 = 42800" by (rule frnd_numeral)
  have s: "sint (20000 :: i32) = 20000" "sint (10000 :: i32) = 10000" by simp_all
  have m: "RACK_ACTIVE_POWER \<in> dom (holding m) \<and> RACK_ACTIVE_POWER + 1 \<in> dom (holding m)"
    if "m \<in> set [demo_output 20000, demo_output 10000]" for m
    using that unfolding list.set insert_iff empty_iff by (elim disjE) simp_all
  have "fixed_load demo_poi = Num (of_int 72800)" "compute demo_poi = None"
    "length [demo_output 20000, demo_output 10000] = length (racks demo_poi)"
    by (simp_all add: demo_poi_def)
  with poi_meter_balances_site [of "[demo_output 20000, demo_output 10000]" demo_poi 72800 "{}" None Map.empty, OF m]
  show ?thesis using f s by simp
qed

lemma map_filter_missing:
  "\<exists>x\<in>set xs. f x = None \<Longrightarrow> length (List.map_filter f xs) < length xs"
proof (induction xs)
  case (Cons x xs)
  have "length (List.map_filter f xs) \<le> length xs"
    by (simp add: List.map_filter_def length_filter_le)
  with Cons show ?case by (auto simp: List.map_filter_simps split: option.split)
qed simp

text \<open>One unreadable rack is enough for the meter to keep its last published registers
  rather than publish a partial sum, and an unreadable node keeps the last good node draw.\<close>

theorem poi_meter_holds_last:
  assumes "length replies = length (racks p)"
  shows "((\<exists>r\<in>set replies. rack_power r = None) \<longrightarrow> snd (poi_tick p replies nd h drv) = h)
    \<and> node_w (fst (poi_tick p replies None h drv)) = node_w p"
proof -
  have "length (List.map_filter rack_power replies) \<noteq> length (racks p)"
    if "\<exists>r\<in>set replies. rack_power r = None"
    using map_filter_missing [OF that] assms by simp
  then show ?thesis by (auto simp: poi_tick_def Let_def)
qed

theorem poi_meter_holds_last_witness:
  "snd (poi_tick demo_poi [Some [0, 5], None] None (demo_setpoint 7) {}) = demo_setpoint 7"
  using poi_meter_holds_last [of "[Some [0, 5], None]" demo_poi None "demo_setpoint 7" "{}"]
  by (simp add: demo_poi_def rack_power_def)

subsection \<open>The sawtooth register\<close>

lemma poi_tick_other:
  "a \<noteq> POI_ACTIVE_POWER \<Longrightarrow> a \<noteq> POI_ACTIVE_POWER + 1 \<Longrightarrow> snd (poi_tick p rs nd h drv) a = h a"
  by (simp add: poi_tick_def write_poi_power_def Let_def)

definition background_event :: "modbus_event \<Rightarrow> bool" where
  "background_event e = (case e of SimulatorTick \<Rightarrow> True | PoiTick _ _ \<Rightarrow> True | _ \<Rightarrow> False)"

lemma kwh_step:
  assumes "simulated s" "rack s = None" "3206 \<notin> driven (meter_of s)" "3207 \<notin> driven (meter_of s)"
    and "background_event e" "modbus_step e s = Some s'"
  shows "background s s'" "rack s' = None"
    and "saw_read kwh_saw (holding (meter_of s')) =
      (if e = SimulatorTick then saw_next kwh_saw (saw_read kwh_saw (holding (meter_of s)))
       else saw_read kwh_saw (holding (meter_of s)))"
proof -
  consider "e = SimulatorTick" | rs nd where "e = PoiTick rs nd"
    using assms(5) by (cases e) (auto simp: background_event_def)
  then have "background s s' \<and> rack s' = None \<and> saw_read kwh_saw (holding (meter_of s')) =
      (if e = SimulatorTick then saw_next kwh_saw (saw_read kwh_saw (holding (meter_of s)))
       else saw_read kwh_saw (holding (meter_of s)))"
  proof cases
    case 1
    then have s': "s' = s\<lparr>meter_of := (meter_of s)\<lparr>holding :=
        modbus_tick modbus_simulator (holding (meter_of s)) (driven (meter_of s))\<rparr>\<rparr>"
      using assms(1,2,6) by (simp add: Let_def)
    have "background s s'" using assms(6) unfolding 1 background_def by blast
    with 1 assms(2) modbus_tick_reads(1) [OF assms(3,4)] show ?thesis by (simp add: s')
  next
    case 2
    have h: "holding (meter_of s') a = holding (meter_of s) a" if "a \<noteq> 3060" "a \<noteq> 3061" for a
      using 2 assms(6) that
      by (auto simp: Let_def split_beta poi_tick_other POI_ACTIVE_POWER_def split: option.splits)
    have "background s s'" using assms(6) unfolding 2 background_def by blast
    moreover have "rack s' = None"
      using modbus_step_rest [of e s] 2 assms(2,6) by auto
    ultimately show ?thesis using 2 h [of 3206] h [of 3207] by (simp add: saw_read_def word_or_0_def)
  qed
  then show "background s s'" "rack s' = None" "saw_read kwh_saw (holding (meter_of s')) =
      (if e = SimulatorTick then saw_next kwh_saw (saw_read kwh_saw (holding (meter_of s)))
       else saw_read kwh_saw (holding (meter_of s)))" by blast+
qed

lemma kwh_run:
  assumes "simulated s" "rack s = None" "3206 \<notin> driven (meter_of s)" "3207 \<notin> driven (meter_of s)"
    and "\<forall>e\<in>set es. background_event e" "modbus_run es s = Some t"
  shows "saw_read kwh_saw (holding (meter_of t)) =
    (saw_next kwh_saw ^^ length (filter (\<lambda>e. e = SimulatorTick) es)) (saw_read kwh_saw (holding (meter_of s)))"
  using assms
proof (induction es arbitrary: s)
  case Nil then show ?case by simp
next
  case (Cons e es)
  then obtain s' where s': "modbus_step e s = Some s'" "modbus_run es s' = Some t"
    by (auto simp: bind_eq_Some_conv)
  have ev: "background_event e" "\<forall>e\<in>set es. background_event e" using Cons.prems(5) by auto
  note k = kwh_step [OF Cons.prems(1-4) ev(1) s'(1)]
  note bg = background_frame [OF k(1)]
  have "simulated s'" "3206 \<notin> driven (meter_of s')" "3207 \<notin> driven (meter_of s')"
    using Cons.prems(1,3,4) by (simp_all add: bg)
  from Cons.IH [OF this(1) k(2) this(2,3) ev(2) s'(2)] k(3) show ?case by (simp add: funpow_swap1)
qed

text \<open>C31: On a freshly started meter that nobody drives, the energy register pair 3206-3207
  reads exactly \<open>1000000 + 100 * (n mod 101)\<close> after \<open>n\<close> simulator ticks, however many POI
  updates run in between.\<close>

theorem meter_energy_sawtooth:
  assumes "modbus_main env = Some (Inr (cfg, s))" "profile cfg = ''poi_meter''"
    and "\<forall>e\<in>set es. background_event e" "modbus_run es s = Some t"
  shows "unat (read_i32 (holding (meter_of t)) 3206)
    = 1000000 + 100 * (length (filter (\<lambda>e. e = SimulatorTick) es) mod 101)"
proof -
  obtain h i b where pr: "profile_registers env (profile cfg) = Some (Inr (h, i, b))"
    and w: "modbus_wire env cfg (h, i, b) = Inr (cfg, s)" using assms(1) by (rule modbus_mainE)
  have hb: "h = poi_holding_registers" "b = None" using pr assms(2) by (simp_all add: profile_registers_def)
  note m = modbus_wire_system [OF w]
  have "saw_read kwh_saw (holding (meter_of s)) = 1000000"
    by (simp add: m(4) hb saw_read_def word_or_0_def poi_holding_registers_def join16_def)
  then show ?thesis
    using kwh_run [OF _ _ _ _ assms(3,4)] kwh_wave m(3,6,7) assms(2) hb(2)
    by (simp add: saw_read_def read_i32_def)
qed

lemma demo_meter_starts:
  "\<exists>cfg s. modbus_main (demo_env []) = Some (Inr (cfg, s)) \<and> profile cfg = ''poi_meter''"
  by (simp add: modbus_main_def modbus_settings_from_env_def profile_registers_def modbus_wire_def
      poi_from_env_def env_f64_def compute_load_from_env_def demo_env_def trim_def Let_def)

theorem meter_energy_sawtooth_witness:
  "\<exists>cfg s t. modbus_main (demo_env []) = Some (Inr (cfg, s))
     \<and> modbus_run [SimulatorTick, PoiTick [] None, SimulatorTick] s = Some t
     \<and> unat (read_i32 (holding (meter_of t)) 3206) = 1000200"
proof -
  let ?es = "[SimulatorTick, PoiTick [] None, SimulatorTick]"
  obtain cfg s where m: "modbus_main (demo_env []) = Some (Inr (cfg, s))" "profile cfg = ''poi_meter''"
    using demo_meter_starts by blast
  have "system_ok s"
    by (rule modbus_main_ok [OF m(1)]) (simp add: env_f64_def demo_env_def fle_def)
  then obtain t where t: "modbus_run ?es s = Some t" using system_ok_run by blast
  have "\<forall>e\<in>set ?es. background_event e" by (simp add: background_event_def)
  from meter_energy_sawtooth [OF m this t] m(1) t show ?thesis by auto
qed

subsection \<open>Protocol writes\<close>

text \<open>C27: On a read-only device both write functions answer with the exception and change
  nothing.  On a writable one a single write acknowledges and makes exactly its register
  read the value, a multi-register write makes every register it names read the last value
  given for it; both take what they wrote over from the simulator, and leave all other
  registers and the input registers alone.\<close>

theorem modbus_write_behaviour:
  "(\<not> writable m \<longrightarrow> write_multiple_registers avs m = (m, Inl IllegalFunction)
      \<and> write_single_register av m = (m, Inl IllegalFunction))
   \<and> (writable m \<longrightarrow> snd (write_multiple_registers avs m) = Inr ()
      \<and> driven (fst (write_multiple_registers avs m)) = driven m \<union> fst ` set avs
      \<and> (\<forall>a. read_holding_register (fst (write_multiple_registers avs m)) a =
           (case map_of (rev avs) a of Some v \<Rightarrow> Inr v | None \<Rightarrow> read_holding_register m a))
      \<and> (\<forall>a. read_input_register (fst (write_multiple_registers avs m)) a = read_input_register m a))
   \<and> (writable m \<longrightarrow> snd (write_single_register av m) = Inr ()
      \<and> driven (fst (write_single_register av m)) = insert (fst av) (driven m)
      \<and> (\<forall>a. read_holding_register (fst (write_single_register av m)) a =
           (if a = fst av then Inr (snd av) else read_holding_register m a))
      \<and> (\<forall>a. read_input_register (fst (write_single_register av m)) a = read_input_register m a))"
  by (auto simp: write_multiple_registers_def write_single_register_def read_holding_register_def
      read_input_register_def store_simps frame_simps insert_all_lookup split: option.split)

theorem modbus_write_behaviour_witness:
  "read_holding_register (fst (write_multiple_registers [(50, 7), (50, 8)]
      ((meter_new Map.empty)\<lparr>writable := True\<rparr>))) 50 = Inr 8
   \<and> read_holding_register (fst (write_single_register (51, 9) ((meter_new Map.empty)\<lparr>writable := True\<rparr>))) 51 = Inr 9
   \<and> read_holding_register (fst (write_single_register (51, 9) ((meter_new Map.empty)\<lparr>writable := True\<rparr>))) 50
     = Inl IllegalDataAddress"
  using modbus_write_behaviour [of "(meter_new Map.empty)\<lparr>writable := True\<rparr>" "[(50, 7), (50, 8)]" "(51, 9)"]
  by (simp add: meter_new_def read_holding_register_def [of "\<lparr>holding = _, input = _, driven = _, writable = _\<rparr>"])

subsection \<open>Start-up\<close>

text \<open>A configured list of racks in the documented form: the entries with commas between them.\<close>

definition rack_entry :: "string \<times> nat \<Rightarrow> string" where
  "rack_entry r = fst r @ CHR '':'' # show_nat (snd r)"

fun rack_list :: "(string \<times> nat) list \<Rightarrow> string" where
  "rack_list [] = []"
| "rack_list [r] = rack_entry r"
| "rack_list (r # q # rs) = rack_entry r @ CHR '','' # rack_list (q # rs)"

definition plain_host :: "string \<Rightarrow> bool" where
  "plain_host h \<longleftrightarrow> CHR '','' \<notin> set h \<and> (h = [] \<or> \<not> is_space (hd h))"

lemma trim_entry:
  assumes "plain_host (fst r)"
  shows "trim (rack_entry r) = rack_entry r"
proof -
  obtain h p where r: "r = (h, p)" by (cases r)
  have d: "\<not> is_space c" if "c \<in> set (show_nat p)" for c
    using show_nat_digits [OF that] by (auto simp: is_space_def Let_def)
  obtain c q where q: "rev (show_nat p) = c # q" using show_nat_nonempty [of p] by (cases "rev (show_nat p)") auto
  then have "c \<in> set (show_nat p)" by (metis list.set_intros(1) set_rev)
  then have e: "dropWhile is_space (rev (rack_entry r)) = rev (rack_entry r)"
    using d q by (simp add: rack_entry_def r)
  have "dropWhile is_space (rack_entry r) = rack_entry r"
    using assms by (cases h) (auto simp: rack_entry_def r plain_host_def is_space_def Let_def)
  with e show ?thesis by (simp only: trim_def rev_rev_ident)
qed

lemma rack_entry_plain:
  assumes "plain_host (fst r)" shows "CHR '','' \<notin> set (rack_entry r)" "rack_entry r \<noteq> []"
  using assms show_nat_notin [of "CHR '',''" "snd r"] by (simp_all add: rack_entry_def plain_host_def)

lemma split_rack_list:
  assumes "\<And>r. r \<in> set rs \<Longrightarrow> plain_host (fst r)"
  shows "filter (\<lambda>s. trim s \<noteq> []) (split_on CHR '','' (rack_list rs)) = map rack_entry rs"
  using assms
proof (induction rs rule: rack_list.induct)
  case 1 then show ?case by (simp add: trim_def)
next
  case (2 r)
  then show ?case using rack_entry_plain [of r] by (simp add: split_on_plain trim_entry)
next
  case (3 r q rs)
  then show ?case using rack_entry_plain [of r] split_on_append by (simp add: trim_entry)
qed

lemma parse_rack_entries:
  assumes "\<And>r. r \<in> set rs \<Longrightarrow> plain_host (fst r) \<and> snd r < 2 ^ 16"
  shows "parse_racks (map trim (map rack_entry rs)) = Inr rs"
proof -
  have "map trim (map rack_entry rs) = map rack_entry rs" using assms by (simp add: trim_entry)
  moreover have "parse_racks (map rack_entry rs) = Inr rs"
    using assms by (induction rs) (simp_all add: rack_entry_def parse_host_port_show)
  ultimately show ?thesis by (simp only:)
qed

text \<open>C32: A list of racks written as \<open>host:port\<close> entries with commas between them, hosts without
  commas or leading blanks and ports that fit 16 bits, is read back from \<open>POI_BESS_RACKS\<close>
  exactly, in order, the last entry included.\<close>

theorem poi_racks_round_trip:
  assumes "env ''POI_BESS_RACKS'' = Some (rack_list rs)" "env ''SITE_LOAD_W'' = None"
    "env ''SITE_COMPUTE_URL'' = None"
    and "\<And>r. r \<in> set rs \<Longrightarrow> plain_host (fst r) \<and> snd r < 2 ^ 16"
  shows "poi_from_env env = Inr \<lparr>fixed_load = Num 0, racks = rs, compute = None, node_w = None\<rparr>"
  using assms(1-3) split_rack_list [of rs] parse_rack_entries [of rs] assms(4)
  by (simp add: poi_from_env_def env_f64_def compute_load_from_env_def Let_def del: map_map)

theorem poi_racks_round_trip_witness:
  "poi_from_env (demo_env [(''POI_BESS_RACKS'', rack_list [(''rack-1'', 502), (''rack-2'', 5020)])])
     = Inr \<lparr>fixed_load = Num 0, racks = [(''rack-1'', 502), (''rack-2'', 5020)], compute = None, node_w = None\<rparr>"
  by (rule poi_racks_round_trip) (auto simp: demo_env_def plain_host_def is_space_def Let_def)

end
