(* ===== verification/ModbusServer.thy ===== *)
theory ModbusServer
  imports ModbusProps
begin

text \<open>
  What a Modbus client of mock-modbus-server can do: a request reaches the handler through
  rodbus, which looks up the unit id in the map \<open>main\<close> builds and, in TLS mode, asks the
  authorization handler \<open>tls.rs\<close> passes to it.  rodbus is a parameter: what its read-only
  authorization handler decides, how replies are made up from the handler's answers, and what
  it answers to the coil and discrete-input functions the handler leaves to rodbus's defaults.
\<close>

subsection \<open>Requests and rodbus\<close>

datatype modbus_request =
    ReadHoldingRegisters "u16 list"
  | ReadInputRegisters "u16 list"
  | WriteSingleRegister "u16 \<times> u16"
  | WriteMultipleRegisters "(u16 \<times> u16) list"
  | ReadCoils "u16 list"
  | ReadDiscreteInputs "u16 list"
  | WriteSingleCoil "u16 \<times> bool"
  | WriteMultipleCoils "(u16 \<times> bool) list"

primrec is_write :: "modbus_request \<Rightarrow> bool" where
  "is_write (ReadHoldingRegisters as) = False"
| "is_write (ReadInputRegisters as) = False"
| "is_write (WriteSingleRegister av) = True"
| "is_write (WriteMultipleRegisters avs) = True"
| "is_write (ReadCoils as) = False"
| "is_write (ReadDiscreteInputs as) = False"
| "is_write (WriteSingleCoil ib) = True"
| "is_write (WriteMultipleCoils ibs) = True"

text \<open>The handler implements four functions; for the others rodbus calls the default methods of its
  trait, which do not reach the handler's state: \<open>default_reply\<close> is what they make it answer.\<close>

record 'reply rodbus_lib =
  read_only_allows :: "modbus_request \<Rightarrow> bool"
  denied :: "modbus_request \<Rightarrow> 'reply"
  unmapped :: "'reply"
  read_reply :: "(exception_code + u16) list \<Rightarrow> 'reply"
  write_reply :: "modbus_request \<Rightarrow> exception_code + unit \<Rightarrow> 'reply"
  default_reply :: "modbus_request \<Rightarrow> 'reply"

text \<open>The documented decision of \<open>ReadOnlyAuthorizationHandler\<close>.\<close>

definition read_only_laws :: "'reply rodbus_lib \<Rightarrow> bool" where
  "read_only_laws lib \<longleftrightarrow> (\<forall>req. read_only_allows lib req = (\<not> is_write req))"

subsection \<open>Serving a request\<close>

text \<open>The \<open>RequestHandler\<close> implementation, as rodbus calls it for one request.\<close>

primrec handle_request :: "'reply rodbus_lib \<Rightarrow> modbus_request \<Rightarrow> meter \<Rightarrow> meter \<times> 'reply" where
  "handle_request lib (ReadHoldingRegisters as) m = (m, read_reply lib (map (read_holding_register m) as))"
| "handle_request lib (ReadInputRegisters as) m = (m, read_reply lib (map (read_input_register m) as))"
| "handle_request lib (WriteSingleRegister av) m =
     (let (m', r) = write_single_register av m in (m', write_reply lib (WriteSingleRegister av) r))"
| "handle_request lib (WriteMultipleRegisters avs) m =
     (let (m', r) = write_multiple_registers avs m in (m', write_reply lib (WriteMultipleRegisters avs) r))"
| "handle_request lib (ReadCoils as) m = (m, default_reply lib (ReadCoils as))"
| "handle_request lib (ReadDiscreteInputs as) m = (m, default_reply lib (ReadDiscreteInputs as))"
| "handle_request lib (WriteSingleCoil ib) m = (m, default_reply lib (WriteSingleCoil ib))"
| "handle_request lib (WriteMultipleCoils ibs) m = (m, default_reply lib (WriteMultipleCoils ibs))"

text \<open>The listener of \<open>main\<close>: one handler under one unit id, with authorization in TLS mode only.\<close>

definition authorized :: "'reply rodbus_lib \<Rightarrow> modbus_settings \<Rightarrow> modbus_request \<Rightarrow> bool" where
  "authorized lib cfg req = (if tls_mode cfg then read_only_allows lib req else True)"

definition serve_request ::
  "'reply rodbus_lib \<Rightarrow> modbus_settings \<Rightarrow> nat \<Rightarrow> modbus_request \<Rightarrow> modbus_system \<Rightarrow> modbus_system \<times> 'reply" where
  "serve_request lib cfg unit req s =
     (if unit \<noteq> unit_id cfg then (s, unmapped lib)
      else if \<not> authorized lib cfg req then (s, denied lib req)
      else (let (m, r) = handle_request lib req (meter_of s) in (s\<lparr>meter_of := m\<rparr>, r)))"

subsection \<open>The server\<close>

datatype server_event =
    Protocol nat modbus_request
  | Tick
  | Track "u16 list option list" "fp option"
  | Control "(u16 \<times> u16) list option"

text \<open>The updates an event makes; a protocol request makes one only if it is a write that gets through.\<close>

primrec handler_writes :: "modbus_request \<Rightarrow> modbus_event list" where
  "handler_writes (ReadHoldingRegisters as) = []"
| "handler_writes (ReadInputRegisters as) = []"
| "handler_writes (WriteSingleRegister av) = [WriteSingle av]"
| "handler_writes (WriteMultipleRegisters avs) = [WriteMultiple avs]"
| "handler_writes (ReadCoils as) = []"
| "handler_writes (ReadDiscreteInputs as) = []"
| "handler_writes (WriteSingleCoil ib) = []"
| "handler_writes (WriteMultipleCoils ibs) = []"

primrec out_of_band :: "server_event \<Rightarrow> modbus_event list" where
  "out_of_band (Protocol u req) = []"
| "out_of_band Tick = [SimulatorTick]"
| "out_of_band (Track replies node_read) = [PoiTick replies node_read]"
| "out_of_band (Control body) = [PutRegisters body]"

primrec server_step ::
  "'reply rodbus_lib \<Rightarrow> modbus_settings \<Rightarrow> server_event \<Rightarrow> modbus_system \<Rightarrow> (modbus_system \<times> 'reply list) option" where
  "server_step lib cfg (Protocol u req) s =
     (let (s', r) = serve_request lib cfg u req s in Some (s', [r]))"
| "server_step lib cfg Tick s = map_option (\<lambda>t. (t, [])) (modbus_step SimulatorTick s)"
| "server_step lib cfg (Track replies node_read) s = map_option (\<lambda>t. (t, [])) (modbus_step (PoiTick replies node_read) s)"
| "server_step lib cfg (Control body) s = map_option (\<lambda>t. (t, [])) (modbus_step (PutRegisters body) s)"

primrec server_run ::
  "'reply rodbus_lib \<Rightarrow> modbus_settings \<Rightarrow> server_event list \<Rightarrow> modbus_system \<Rightarrow> (modbus_system \<times> 'reply list) option" where
  "server_run lib cfg [] s = Some (s, [])"
| "server_run lib cfg (e # es) s =
     Option.bind (server_step lib cfg e s) (\<lambda>(t, rs).
       map_option (\<lambda>(u, rs'). (u, rs @ rs')) (server_run lib cfg es t))"

subsection \<open>The server refines the tasks' machine\<close>

definition effects :: "'reply rodbus_lib \<Rightarrow> modbus_settings \<Rightarrow> server_event \<Rightarrow> modbus_event list" where
  "effects lib cfg e =
     (case e of
        Protocol u req \<Rightarrow> if u = unit_id cfg \<and> authorized lib cfg req then handler_writes req else []
      | _ \<Rightarrow> out_of_band e)"

lemma meter_of_same [simp]: "s\<lparr>meter_of := meter_of s\<rparr> = s"
  by simp

lemma handle_request_writes:
  "Some (s\<lparr>meter_of := fst (handle_request lib req (meter_of s))\<rparr>) = modbus_run (handler_writes req) s"
  by (cases req) (simp_all add: split_beta Let_def)

lemma serve_request_effects:
  "Some (fst (serve_request lib cfg u req s)) = modbus_run (effects lib cfg (Protocol u req)) s"
  using handle_request_writes [of lib req s] by (simp add: serve_request_def effects_def split_beta Let_def)

lemma modbus_run_one: "Option.bind x (modbus_run []) = x"
  by (cases x) simp_all

lemma server_step_effects:
  "map_option fst (server_step lib cfg e s) = modbus_run (effects lib cfg e) s"
proof (cases e)
  case (Protocol u req)
  then show ?thesis using serve_request_effects [of lib cfg u req s] by (simp add: split_beta Let_def)
qed (simp_all add: effects_def option.map_comp comp_def option.map_ident modbus_run_one del: modbus_step.simps)

lemma modbus_run_append: "modbus_run (es @ es') s = Option.bind (modbus_run es s) (modbus_run es')"
proof (induction es arbitrary: s)
  case (Cons e es)
  then show ?case by (cases "modbus_step e s") simp_all
qed simp

lemma server_run_effects:
  "map_option fst (server_run lib cfg es s) = modbus_run (concat (map (effects lib cfg) es)) s"
proof (induction es arbitrary: s)
  case (Cons e es)
  show ?case
  proof (cases "server_step lib cfg e s")
    case None
    then show ?thesis using server_step_effects [of lib cfg e s] by (simp add: modbus_run_append)
  next
    case (Some p)
    then have "modbus_run (effects lib cfg e) s = Some (fst p)"
      using server_step_effects [of lib cfg e s] by simp
    then show ?thesis
      using Some Cons.IH [of "fst p"] by (simp add: modbus_run_append split_beta option.map_comp comp_def)
  qed
qed simp

subsection \<open>Modbus Security is read-only\<close>

lemma read_has_no_writes [simp]: "\<not> is_write req \<Longrightarrow> handler_writes req = []"
  by (cases req) simp_all

lemma tls_effects: "read_only_laws lib \<Longrightarrow> tls_mode cfg \<Longrightarrow> effects lib cfg e = out_of_band e"
  by (cases e) (simp_all add: effects_def authorized_def read_only_laws_def)

lemma modbus_main_settings: "modbus_main env = Some (Inr (cfg, s)) \<Longrightarrow> cfg = modbus_settings_from_env env"
  by (erule modbus_mainE)

text \<open>C9: Over TLS the Modbus protocol is read-only whatever the profile and whatever
  \<open>MODBUS_WRITABLE\<close> says: after any requests, ticks and control writes the state is the one
  the ticks and control writes alone produce, every write to the device's unit is denied,
  and every read is answered as the plain listener would answer it.\<close>

theorem tls_protocol_is_read_only:
  assumes "read_only_laws lib" "modbus_main env = Some (Inr (cfg, s))" "env ''MODBUS_TLS'' = Some ''1''"
  shows "map_option fst (server_run lib cfg es s) = modbus_run (concat (map out_of_band es)) s
    \<and> serve_request lib cfg u req t =
        (if u = unit_id cfg \<and> is_write req then (t, denied lib req)
         else serve_request lib (cfg\<lparr>tls_mode := False\<rparr>) u req t)"
proof -
  have tls: "tls_mode cfg"
    using modbus_main_settings [OF assms(2)] assms(3) by (simp add: modbus_settings_from_env_def Let_def)
  have "effects lib cfg = out_of_band" using tls_effects [OF assms(1) tls] by blast
  then have "map_option fst (server_run lib cfg es s) = modbus_run (concat (map out_of_band es)) s"
    using server_run_effects [of lib cfg es s] by simp
  then show ?thesis using assms(1) tls by (simp add: serve_request_def authorized_def read_only_laws_def)
qed

text \<open>A dry cooler behind TLS: a setpoint written over Modbus is denied, one put by the control
  surface arrives.\<close>

definition demo_rodbus :: "string rodbus_lib" where
  "demo_rodbus = \<lparr>read_only_allows = (\<lambda>req. \<not> is_write req), denied = (\<lambda>_. ''denied''), unmapped = ''unmapped'',
     read_reply = (\<lambda>rs. if list_all (\<lambda>r. case r of Inl e \<Rightarrow> False | Inr v \<Rightarrow> True) rs then ''values'' else ''exception''),
     write_reply = (\<lambda>_ r. case r of Inl e \<Rightarrow> ''exception'' | Inr v \<Rightarrow> ''written''),
     default_reply = (\<lambda>_. ''exception'')\<rparr>"

definition tls_cooler_env :: env where
  "tls_cooler_env = demo_env [(''MODBUS_TLS'', ''1''), (''MODBUS_PROFILE'', ''dc_external''),
     (''MODBUS_TLS_CA'', ''ca''), (''MODBUS_TLS_CERT'', ''cert''), (''MODBUS_TLS_KEY'', ''key'')]"

lemma tls_cooler_starts:
  "\<exists>cfg s. modbus_main tls_cooler_env = Some (Inr (cfg, s)) \<and> writable (meter_of s) \<and> unit_id cfg = 1"
proof -
  have "tls_paths tls_cooler_env = Inr [''ca'', ''cert'', ''key'']"
    by (simp add: tls_paths_def tls_cooler_env_def demo_env_def require_env_path_def)
  moreover have "tls_cooler_env ''MODBUS_TLS'' = Some ''1''" "tls_cooler_env ''MODBUS_PROFILE'' = Some ''dc_external''"
    "tls_cooler_env ''UNIT_ID'' = None" by (simp_all add: tls_cooler_env_def demo_env_def)
  ultimately show ?thesis
    by (simp add: modbus_main_def modbus_settings_from_env_def profile_registers_def modbus_wire_def
        meter_new_def env_uint_def Let_def)
qed

theorem tls_protocol_is_read_only_witness:
  "\<exists>cfg s t. modbus_main tls_cooler_env = Some (Inr (cfg, s)) \<and> writable (meter_of s)
     \<and> serve_request demo_rodbus cfg 1 (WriteSingleRegister (30, 215)) s = (s, ''denied'')
     \<and> map_option fst (server_run demo_rodbus cfg
          [Protocol 1 (WriteSingleRegister (30, 215)), Control (Some [(30, 180)])] s) = Some t
     \<and> read_holding_register (meter_of t) 30 = Inr 180"
proof -
  obtain cfg s where m: "modbus_main tls_cooler_env = Some (Inr (cfg, s))" "writable (meter_of s)" "unit_id cfg = 1"
    using tls_cooler_starts by blast
  have "read_only_laws demo_rodbus" "tls_cooler_env ''MODBUS_TLS'' = Some ''1''"
    by (simp_all add: read_only_laws_def demo_rodbus_def tls_cooler_env_def demo_env_def)
  note ro = tls_protocol_is_read_only [OF this(1) m(1) this(2)]
  have "serve_request demo_rodbus cfg 1 (WriteSingleRegister (30, 215)) s = (s, ''denied'')"
    using ro [of "[]" 1 "WriteSingleRegister (30, 215)" s] m(3) by (simp add: demo_rodbus_def)
  moreover have "map_option fst (server_run demo_rodbus cfg
      [Protocol 1 (WriteSingleRegister (30, 215)), Control (Some [(30, 180)])] s)
      = Some (s\<lparr>meter_of := drive (30, 180) (meter_of s)\<rparr>)"
    using ro [THEN conjunct1, of "[Protocol 1 (WriteSingleRegister (30, 215)), Control (Some [(30, 180)])]"]
    by (simp only: ) (simp add: put_registers_def)
  ultimately show ?thesis using m(1,2) by (auto simp: read_holding_register_def)
qed

end
