(* ===== verification/RackView.thy ===== *)
theory RackView
  imports ModbusProps
begin

text \<open>
  What a client of the \<open>bess_rack\<close> profile reads at any time: every register the model owns
  shows the present state of the rack in its documented range, from start-up on and through
  every update, except where a client has taken the register over.
\<close>

subsection \<open>The view\<close>

definition word_free :: "u16 set \<Rightarrow> u16 \<Rightarrow> bool" where
  "word_free drv a \<longleftrightarrow> a \<notin> drv \<and> a + 1 \<notin> drv"

text \<open>The registers that repeat the state of the rack: SoC in tenths of a percent, the energy
  counter, the limits at the present SoC.\<close>

definition shows_state :: "battery \<Rightarrow> u16 set \<Rightarrow> regs \<Rightarrow> bool" where
  "shows_state b drv h \<longleftrightarrow>
     (SOC \<notin> drv \<longrightarrow> (\<exists>v. h SOC = Some v \<and> uint v = round_away (frnd F64 (fval (soc_percent b) * 10))))
   \<and> (word_free drv ENERGY_DISCHARGED \<longrightarrow>
        read_i32 h ENERGY_DISCHARGED = as_i32 (fround (energy_discharged_wh b)))
   \<and> (\<forall>c d. limits b = Some (c, d) \<longrightarrow>
        (word_free drv MAX_CHARGE \<longrightarrow> sint (read_i32 h MAX_CHARGE) = round_away (fval c))
      \<and> (word_free drv MAX_DISCHARGE \<longrightarrow> sint (read_i32 h MAX_DISCHARGE) = round_away (fval d)))"

text \<open>The registers that show the output of the last step: a power within the rating, and the
  state that belongs to its sign.\<close>

definition shows_output :: "u16 set \<Rightarrow> regs \<Rightarrow> bool" where
  "shows_output drv h \<longleftrightarrow>
     (word_free drv ACTIVE_POWER \<longrightarrow> \<bar>sint (read_i32 h ACTIVE_POWER)\<bar> \<le> 1927000)
   \<and> (OPERATING_STATE \<notin> drv \<longrightarrow>
        (\<exists>st \<in> {STANDBY, CHARGING, DISCHARGING}. h OPERATING_STATE = Some st
         \<and> (word_free drv ACTIVE_POWER \<longrightarrow>
              (0 < sint (read_i32 h ACTIVE_POWER) \<longrightarrow> st = DISCHARGING)
            \<and> (sint (read_i32 h ACTIVE_POWER) < 0 \<longrightarrow> st = CHARGING)
            \<and> (st = STANDBY \<longrightarrow> sint (read_i32 h ACTIVE_POWER) = 0))))"

subsection \<open>Values of the registers\<close>

lemma soc_word:
  assumes "in_range 0 100 soc"
  shows "uint (as_u16 (fround (fmul F64 soc (Num 10)))) = round_away (frnd F64 (fval soc * 10))"
    and "0 \<le> round_away (frnd F64 (fval soc * 10))" "round_away (frnd F64 (fval soc * 10)) \<le> 1000"
proof -
  note s = in_rangeD [OF assms]
  have r: "in_range 0 1000 (fmul F64 soc (Num 10))" using s by (intro in_range_fmul) simp_all
  have v: "fval (fmul F64 soc (Num 10)) = frnd F64 (fval soc * 10)"
    using frnd_between [of 0 "fval soc * 10" 1000 F64] fmul_finite(2) [of soc "Num 10" F64] s by simp
  then show b: "0 \<le> round_away (frnd F64 (fval soc * 10))" "round_away (frnd F64 (fval soc * 10)) \<le> 1000"
    using round_away_between [of 0 "frnd F64 (fval soc * 10)" 1000] in_rangeD [OF r] by simp_all
  show "uint (as_u16 (fround (fmul F64 soc (Num 10)))) = round_away (frnd F64 (fval soc * 10))"
    using as_u16_fround [OF in_rangeD(1) [OF r]] b by (simp add: v)
qed

lemma watt_word:
  assumes "is_finite x" "\<bar>fval x\<bar> \<le> 1927000"
  shows "sint (as_i32 (fround x)) = round_away (fval x)" "\<bar>round_away (fval x)\<bar> \<le> 1927000"
proof -
  show b: "\<bar>round_away (fval x)\<bar> \<le> 1927000"
    using round_away_between [of "- 1927000" "fval x" 1927000] assms(2) by (simp add: abs_le_iff minus_le_iff)
  then show "sint (as_i32 (fround x)) = round_away (fval x)"
    using as_i32_fround [OF assms(1)] by auto
qed

lemma limit_words:
  assumes "battery_ok b" "power_limit_w (config b) = Num 1927000" "limits b = Some (c, d)"
  shows "sint (as_i32 (fround c)) = round_away (fval c)" "sint (as_i32 (fround d)) = round_away (fval d)"
    and "0 \<le> round_away (fval c)" "round_away (fval c) \<le> 1927000"
    and "0 \<le> round_away (fval d)" "round_away (fval d) \<le> 1927000"
proof -
  note r = battery_ok_limits [OF assms(1,3), unfolded assms(2), simplified]
  note c = in_rangeD [OF r(1)] and d = in_rangeD [OF r(2)]
  have "\<bar>fval c\<bar> \<le> 1927000" "\<bar>fval d\<bar> \<le> 1927000" using c d by simp_all
  with c(1) d(1) show "sint (as_i32 (fround c)) = round_away (fval c)" "sint (as_i32 (fround d)) = round_away (fval d)"
    using watt_word(1) by auto
  show "0 \<le> round_away (fval c)" "round_away (fval c) \<le> 1927000"
    "0 \<le> round_away (fval d)" "round_away (fval d) \<le> 1927000"
    using round_away_between [of 0 "fval c" 1927000] round_away_between [of 0 "fval d" 1927000] c d by simp_all
qed

subsection \<open>A step keeps the view\<close>

lemma adopted_limits:
  assumes "battery_ok b" "adopt_driven_soc b h drv = Some b1"
  obtains c d where "limits b1 = Some (c, d)" "in_range 0 (fval (power_limit_w (config b))) c"
    "in_range 0 (fval (power_limit_w (config b))) d"
proof -
  have "rating_ok (power_limit_w (config b1))" "config b1 = config b"
    using assms(1) adopt_frame [OF assms(2)] by (simp_all add: battery_ok_def config_ok_def)
  with limits_bounds [OF this(1) is_finite_not_nan [OF in_rangeD(1) [OF adopt_soc_finite(1) [OF assms(2,1)]]]]
  show ?thesis using that by metis
qed

lemma step_shows:
  assumes ok: "battery_ok b" "tick_ok (config b) tk" and step: "battery_step b h drv tk = Some (b', h')"
    and rated: "power_limit_w (config b) = Num 1927000"
  shows "shows_state b' drv h'" "shows_output drv h'"
proof -
  from step obtain b1 p lims where b1: "adopt_driven_soc b h drv = Some b1"
    and p: "deliverable b1 (f64_of_int (sint (read_i32 h SETPOINT))) = Some p"
    and lims: "limits b' = Some lims" and h': "h' = write_registers b' p lims drv h"
    by (rule battery_stepE) (rule that)
  have ok': "battery_ok b'" using battery_step_ok [OF ok step] .
  have rated': "power_limit_w (config b') = Num 1927000" using step_config [OF step] rated by simp
  obtain c d where l: "lims = (c, d)" by (cases lims)
  note w = limit_words [OF ok' rated' lims [unfolded l]]
  have soc: "in_range 0 100 (soc_percent b')" using ok' by (simp add: battery_ok_def)
  show "shows_state b' drv h'"
    using soc_word(1) [OF soc] w lims
    by (auto simp: shows_state_def word_free_def h' l write_registers_soc write_registers_energy write_registers_limits)
  obtain c1 d1 where l1: "limits b1 = Some (c1, d1)" "in_range 0 1927000 c1" "in_range 0 1927000 d1"
    using adopted_limits [OF ok(1) b1] rated by auto
  note pv = deliverable_val [OF l1 p]
  have "\<bar>fval p\<bar> \<le> 1927000"
    using in_rangeD [OF l1(2)] in_rangeD [OF l1(3)] by (auto simp: pv(2))
  note pw = watt_word [OF pv(1) this]
  have "0 < round_away (fval p) \<Longrightarrow> 0 < fval p" "round_away (fval p) < 0 \<Longrightarrow> fval p < 0"
    using round_away_mono [of "fval p" 0] round_away_mono [of 0 "fval p"] by (auto simp: not_less [symmetric])
  then show "shows_output drv h'"
    using pw pv(1)
    by (auto simp: shows_output_def word_free_def h' write_registers_power write_registers_state flt_def
        CHARGING_def DISCHARGING_def STANDBY_def)
qed

text \<open>A client's writes change the view only where they take it over.\<close>

lemma read_i32_cong: "h' a = h a \<Longrightarrow> h' (a + 1) = h (a + 1) \<Longrightarrow> read_i32 h' a = read_i32 h a"
  by (simp add: read_i32_def word_or_0_def)

lemma shows_cong:
  assumes "drv \<subseteq> drv'" "\<And>a. a \<notin> drv' \<Longrightarrow> h' a = h a"
  shows "shows_state b drv h \<Longrightarrow> shows_state b drv' h'" "shows_output drv h \<Longrightarrow> shows_output drv' h'"
proof -
  have f: "word_free drv' a \<Longrightarrow> word_free drv a \<and> read_i32 h' a = read_i32 h a" for a
    using assms by (auto simp: word_free_def intro!: read_i32_cong)
  have g: "a \<notin> drv' \<Longrightarrow> a \<notin> drv \<and> h' a = h a" for a using assms by auto
  show "shows_state b drv h \<Longrightarrow> shows_state b drv' h'" using f g unfolding shows_state_def by metis
  show "shows_output drv h \<Longrightarrow> shows_output drv' h'" using f g unfolding shows_output_def by metis
qed

subsection \<open>The invariant of the system\<close>

definition view_ok :: "modbus_system \<Rightarrow> bool" where
  "view_ok s \<longleftrightarrow> system_ok s \<and> poi_task s = None \<and>
     (\<exists>b. rack s = Some b \<and> power_limit_w (config b) = Num 1927000
        \<and> shows_state b (driven (meter_of s)) (holding (meter_of s))
        \<and> shows_output (driven (meter_of s)) (holding (meter_of s)))"

lemma view_ok_client:
  assumes "view_ok s" "system_ok (client_write avs s)" shows "view_ok (client_write avs s)"
proof -
  let ?m = "meter_of s" and ?m' = "meter_of (client_write avs s)"
  have d: "driven ?m \<subseteq> driven ?m'" by (auto simp: client_write_def apply_writes_driven)
  have h: "holding ?m' a = holding ?m a" if "a \<notin> driven ?m'" for a
  proof -
    have "a \<notin> fst ` set avs" using that by (simp add: client_write_def apply_writes_driven)
    then have "map_of (rev avs) a = None" by (simp add: map_of_eq_None_iff)
    then show ?thesis by (simp add: client_write_def apply_writes_holding insert_all_lookup)
  qed
  show ?thesis using assms shows_cong [OF d h] by (auto simp: view_ok_def client_write_def)
qed

lemma view_ok_step:
  assumes "view_ok s" "modbus_step e s = Some t" shows "view_ok t"
proof -
  have ok: "system_ok s" and np: "poi_task s = None" using assms(1) by (simp_all add: view_ok_def)
  have t: "system_ok t" using system_ok_step [OF ok, of e] assms(2) by simp
  show ?thesis
  proof (cases "e = SimulatorTick \<and> simulated s")
    case True
    obtain b where b: "rack s = Some b" "power_limit_w (config b) = Num 1927000"
      using assms(1) by (auto simp: view_ok_def)
    obtain b' h' where st: "battery_step b (holding (meter_of s)) (driven (meter_of s)) (dt s) = Some (b', h')"
      "t = s\<lparr>meter_of := (meter_of s)\<lparr>holding := h'\<rparr>, rack := Some b'\<rparr>"
      using True b assms(2) by (auto simp: Let_def)
    have "battery_ok b" "tick_ok (config b) (dt s)" using ok b(1) by (simp_all add: system_ok_def)
    from step_shows [OF this st(1) b(2)] show ?thesis
      using t np b(2) step_config [OF st(1)] by (simp add: view_ok_def st(2))
  next
    case False
    then have "t = s \<or> t = client_write (written (writable (meter_of s)) e) s"
      using assms(2) np
      by (cases e) (auto simp: client_write_def write_single_register_def write_multiple_registers_def
          put_registers_def split: option.split)
    then show ?thesis using assms(1) t view_ok_client by blast
  qed
qed

lemma view_ok_run: "view_ok s \<Longrightarrow> modbus_run es s = Some t \<Longrightarrow> view_ok t"
  by (induction es arbitrary: s) (auto simp: bind_eq_Some_conv intro: view_ok_step)

text \<open>Start-up publishes the view of the initial SoC at rest.\<close>

lemma initial_shows:
  assumes "battery_from_env env = Some (Inr (b, h))"
  shows "power_limit_w (config b) = Num 1927000" "shows_state b {} h" "shows_output {} h"
proof -
  have ok: "battery_ok b" using battery_from_env_ok(1) [OF assms] .
  obtain soc where h: "initial_registers soc (Num 1927000) = Some h" "soc_percent b = soc"
    "energy_discharged_wh b = Num 0" and r: "power_limit_w (config b) = Num 1927000"
    using assms by (auto simp: battery_from_env_def battery_new_def RACK_POWER_LIMIT_W_def Let_def split: sum.splits if_splits)
  from h(1) obtain c d where l: "max_charge_w (Num 1927000) soc = Some c" "max_discharge_w (Num 1927000) soc = Some d"
    by (auto simp: initial_registers_def Let_def bind_eq_Some_conv)
  then have lim: "limits b = Some (c, d)" by (simp add: limits_def r h(2))
  note w = limit_words [OF ok r lim]
  have soc: "in_range 0 100 soc" using ok h(2) by (simp add: battery_ok_def)
  have z: "read_i32 h ENERGY_DISCHARGED = 0" "read_i32 h ACTIVE_POWER = 0" "h OPERATING_STATE = Some STANDBY"
    "h SOC = Some (as_u16 (fround (fmul F64 soc (Num 10))))"
    "read_i32 h MAX_CHARGE = as_i32 (fround c)" "read_i32 h MAX_DISCHARGE = as_i32 (fround d)"
    using h(1) l by (auto simp: initial_registers_def Let_def store_simps rack_addresses read_i32_def [of "_(_ \<mapsto> _)"]
        word_or_0_def join16_def)
  show "power_limit_w (config b) = Num 1927000" by (rule r)
  have "as_i32 (fround (Num 0)) = 0" by (simp add: as_i32_def sat_int_def trunc_rat_def)
  then show "shows_state b {} h" using soc_word(1) [OF soc] w h(2,3)
    by (auto simp: shows_state_def z lim)
  show "shows_output {} h" by (simp add: shows_output_def z)
qed

lemma view_ok_main:
  assumes "modbus_main env = Some (Inr (cfg, s))" "profile cfg = ''bess_rack''"
    and "\<And>x. env_f64 env ''BATTERY_TIME_SCALE'' (f64_lit 1) = Inr x \<Longrightarrow> fle x (Num (2 ^ 900))"
  shows "view_ok s"
proof -
  from assms(1) obtain h i bo where pr: "profile_registers env (profile cfg) = Some (Inr (h, i, bo))"
    and w: "modbus_wire env cfg (h, i, bo) = Inr (cfg, s)" by (rule modbus_mainE)
  obtain b where be: "battery_from_env env = Some (Inr (b, h))" and bo: "bo = Some b"
    using pr assms(2) by (cases "the (battery_from_env env)") (auto simp: profile_registers_def)
  have "poi_task s = None" using w assms(2) by (auto simp: modbus_wire_def Let_def split: sum.splits)
  moreover have "system_ok s" by (rule modbus_main_ok [OF assms(1,3)])
  ultimately show ?thesis using initial_shows [OF be] modbus_wire_system [OF w] bo by (simp add: view_ok_def)
qed

text \<open>C11: The registers of a started \<open>bess_rack\<close>, with a time scale that is unset or at most
  \<open>2 ^ 900\<close>, show the rack at any time, whatever ticks and client writes ran, wherever no
  client has taken them over.  The SoC register is ten times the SoC, rounded, and at most
  1000; the energy register is the energy counter, rounded and saturated; the limit registers are the limits
  at the present SoC, rounded, between 0 and the rating of 1927 kW; the active power is within the
  rating, and the operating state is one of the three codes and agrees with its sign.\<close>

theorem rack_registers_show_the_rack:
  assumes "modbus_main env = Some (Inr (cfg, s))" "profile cfg = ''bess_rack''" "modbus_run es s = Some t"
    and "\<And>x. env_f64 env ''BATTERY_TIME_SCALE'' (f64_lit 1) = Inr x \<Longrightarrow> fle x (Num (2 ^ 900))"
  defines "drv \<equiv> driven (meter_of t)" and "h \<equiv> holding (meter_of t)"
  shows "\<exists>b c d. rack t = Some b \<and> limits b = Some (c, d)
    \<and> (SOC \<notin> drv \<longrightarrow> (\<exists>v. h SOC = Some v \<and> uint v = round_away (frnd F64 (fval (soc_percent b) * 10)) \<and> uint v \<le> 1000))
    \<and> (word_free drv ENERGY_DISCHARGED \<longrightarrow> read_i32 h ENERGY_DISCHARGED = as_i32 (fround (energy_discharged_wh b)))
    \<and> (word_free drv MAX_CHARGE \<longrightarrow>
         sint (read_i32 h MAX_CHARGE) = round_away (fval c) \<and> sint (read_i32 h MAX_CHARGE) \<in> {0..1927000})
    \<and> (word_free drv MAX_DISCHARGE \<longrightarrow>
         sint (read_i32 h MAX_DISCHARGE) = round_away (fval d) \<and> sint (read_i32 h MAX_DISCHARGE) \<in> {0..1927000})
    \<and> (word_free drv ACTIVE_POWER \<longrightarrow> sint (read_i32 h ACTIVE_POWER) \<in> {-1927000..1927000})
    \<and> (OPERATING_STATE \<notin> drv \<longrightarrow> (\<exists>st \<in> {STANDBY, CHARGING, DISCHARGING}. h OPERATING_STATE = Some st
         \<and> (word_free drv ACTIVE_POWER \<longrightarrow>
              (0 < sint (read_i32 h ACTIVE_POWER) \<longrightarrow> st = DISCHARGING)
            \<and> (sint (read_i32 h ACTIVE_POWER) < 0 \<longrightarrow> st = CHARGING)
            \<and> (st = STANDBY \<longrightarrow> sint (read_i32 h ACTIVE_POWER) = 0))))"
proof -
  from view_ok_run [OF view_ok_main [OF assms(1,2,4)] assms(3)] obtain b where
    ok: "system_ok t" and b: "rack t = Some b" "power_limit_w (config b) = Num 1927000"
    and st: "shows_state b drv h" and out: "shows_output drv h"
    by (auto simp: view_ok_def drv_def h_def)
  have bok: "battery_ok b" using ok b(1) by (simp add: system_ok_def)
  then have soc: "in_range 0 100 (soc_percent b)" by (simp add: battery_ok_def)
  obtain c d where l: "limits b = Some (c, d)" by (rule adopted_limits [OF bok adopt_undriven [where driven = "{}"]]) auto
  note w = limit_words [OF bok b(2) l]
  have 1: "SOC \<notin> drv \<longrightarrow> (\<exists>v. h SOC = Some v
      \<and> uint v = round_away (frnd F64 (fval (soc_percent b) * 10)) \<and> uint v \<le> 1000)"
    using st soc_word(3) [OF soc] unfolding shows_state_def by (metis (no_types))
  have 2: "word_free drv ENERGY_DISCHARGED \<longrightarrow> read_i32 h ENERGY_DISCHARGED = as_i32 (fround (energy_discharged_wh b))"
    "word_free drv MAX_CHARGE \<longrightarrow> sint (read_i32 h MAX_CHARGE) = round_away (fval c)"
    "word_free drv MAX_DISCHARGE \<longrightarrow> sint (read_i32 h MAX_DISCHARGE) = round_away (fval d)"
    using st l unfolding shows_state_def by blast+
  have 3: "word_free drv ACTIVE_POWER \<longrightarrow> sint (read_i32 h ACTIVE_POWER) \<in> {-1927000..1927000}"
    using out unfolding shows_output_def by (simp add: abs_le_iff minus_le_iff)
  have 4: "round_away (fval c) \<in> {0..1927000}" "round_away (fval d) \<in> {0..1927000}" using w by simp_all
  show ?thesis
    by (intro exI [of _ b] exI [of _ c] exI [of _ d] conjI; (rule b l 1 3 2(1))?)
      (use 2 4 out in \<open>simp_all add: shows_output_def\<close>)
qed

theorem rack_registers_show_the_rack_witness:
  "\<exists>cfg s t v. modbus_main (demo_env [(''MODBUS_PROFILE'', ''bess_rack'')]) = Some (Inr (cfg, s))
     \<and> modbus_run [PutRegisters (Some [(40, 7)]), SimulatorTick] s = Some t
     \<and> holding (meter_of t) SOC = Some v \<and> uint v \<le> 1000
     \<and> sint (read_i32 (holding (meter_of t)) MAX_CHARGE) \<in> {0..1927000}"
proof -
  let ?e = "demo_env [(''MODBUS_PROFILE'', ''bess_rack'')]" and ?es = "[PutRegisters (Some [(40, 7)]), SimulatorTick]"
  have x: "env_f64 ?e ''BATTERY_TIME_SCALE'' (f64_lit 1) = Inr (Num 1)"
    by (simp add: env_f64_def demo_env_def)
  have "\<exists>h. battery_from_env ?e = Some (Inr (battery_new \<lparr>capacity_kwh = RACK_CAPACITY_KWH,
      power_limit_w = RACK_POWER_LIMIT_W, time_scale = Num 1\<rparr> (Num 60), h))"
    using x by (rule battery_from_env_starts) (simp_all add: fle_def demo_env_def)
  then obtain cfg s where m: "modbus_main ?e = Some (Inr (cfg, s))" "driven (meter_of s) = {}"
    using rack_main_starts [of ?e] by (auto simp: demo_env_def)
  have p: "profile cfg = ''bess_rack''"
    using m(1) by (auto simp: demo_env_def modbus_settings_from_env_def Let_def elim!: modbus_mainE)
  have sc: "fle y (Num (2 ^ 900))" if "env_f64 ?e ''BATTERY_TIME_SCALE'' (f64_lit 1) = Inr y" for y
    using that x by (simp add: fle_def)
  from modbus_main_ok [OF m(1) sc] obtain t where t: "modbus_run ?es s = Some t" using system_ok_run by blast
  then have "background (s\<lparr>meter_of := apply_writes [(40, 7)] (meter_of s)\<rparr>) t"
    by (simp add: background_def put_registers_def bind_eq_Some_conv)
  then have "driven (meter_of t) = {40}" using m(2) by (simp add: background_frame(1))
  with rack_registers_show_the_rack [OF m(1) p t sc] m(1) t show ?thesis
    by (auto simp: word_free_def rack_addresses)
qed

end
