(* ===== verification/ModbusTests.thy ===== *)
theory ModbusTests
  imports ModbusServer
begin

text \<open>
  The unit tests that stand in the source files of mock-modbus-server, translated to
  predicates over the model: what they assert holds of it.  A batch that the code takes
  from a hash map is an argument, so that a test is shown for every order of its entries.
\<close>

subsection \<open>handler.rs\<close>

definition apply_writes_updates_values_and_marks_driven :: "(u16 \<times> u16) list \<Rightarrow> bool" where
  "apply_writes_updates_values_and_marks_driven writes =
     (let handler = apply_writes writes (meter_new [4000 \<mapsto> 1]) in
      holding handler 4000 = Some 15 \<and> holding handler 4001 = Some 16960
      \<and> 4000 \<in> driven handler \<and> 4001 \<in> driven handler)"

lemma apply_writes_updates:
  "apply_writes_updates_values_and_marks_driven [(4000, 15), (4001, 16960)]"
  "apply_writes_updates_values_and_marks_driven [(4001, 16960), (4000, 15)]"
  by (simp_all add: apply_writes_updates_values_and_marks_driven_def)

definition input_registers_are_a_separate_space_from_holding :: bool where
  "input_registers_are_a_separate_space_from_holding =
     (let handler = (meter_new [10 \<mapsto> 1])\<lparr>input := [10 \<mapsto> 2]\<rparr> in
      read_holding_register handler 10 = Inr 1 \<and> read_input_register handler 10 = Inr 2)"

lemma input_registers_are_separate: input_registers_are_a_separate_space_from_holding
  by (simp add: input_registers_are_a_separate_space_from_holding_def meter_new_def
      read_holding_register_def read_input_register_def)

definition a_single_register_write_lands_only_when_writable :: bool where
  "a_single_register_write_lands_only_when_writable =
     (let read_only = meter_new Map.empty; writable = (meter_new Map.empty)\<lparr>writable := True\<rparr>;
          (_, rejected) = write_single_register (30, 215) read_only;
          (w, accepted) = write_single_register (30, 215) writable in
      rejected = Inl IllegalFunction \<and> accepted = Inr () \<and> holding w 30 = Some 215 \<and> 30 \<in> driven w)"

lemma single_write_lands: a_single_register_write_lands_only_when_writable
  by (simp add: a_single_register_write_lands_only_when_writable_def meter_new_def write_single_register_def)

subsection \<open>simulator.rs\<close>

definition tick_advances_undriven_sawtooth :: bool where
  "tick_advances_undriven_sawtooth =
     (let h = modbus_tick modbus_simulator [3206 \<mapsto> 0x000F, 3207 \<mapsto> 0x4240] {} in
      h 3206 = Some 0x000F \<and> h 3207 = Some 0x42A4)"

lemma tick_advances: tick_advances_undriven_sawtooth
  by (simp add: tick_advances_undriven_sawtooth_def modbus_tick_def tick_channel_def saw_read_def word_or_0_def
      saw_next_def saturating_add_def join16_def hi16_def lo16_def Let_def)

definition tick_skips_control_driven_channels :: bool where
  "tick_skips_control_driven_channels =
     (let h = modbus_tick modbus_simulator [3206 \<mapsto> 0x1234, 3207 \<mapsto> 0x5678] {3206} in
      h 3206 = Some 0x1234 \<and> h 3207 = Some 0x5678)"

lemma tick_skips: tick_skips_control_driven_channels
  by (simp add: tick_skips_control_driven_channels_def modbus_tick_def tick_channel_def)

subsection \<open>registers.rs\<close>

text \<open>\<open>n\<close> words from \<open>addr\<close> on as one number; a missing register is a panic.\<close>

primrec words :: "regs \<Rightarrow> u16 \<Rightarrow> nat \<Rightarrow> u64 option" where
  "words m addr 0 = Some 0"
| "words m addr (Suc n) = Option.bind (words m addr n) (\<lambda>acc.
     map_option (\<lambda>v. push_bit 16 acc OR ucast v) (m (addr + of_nat n)))"

definition f32_at :: "regs \<Rightarrow> u16 \<Rightarrow> fp option" where
  "f32_at m addr = map_option (\<lambda>w. f32_of_bits (ucast w)) (words m addr 2)"

definition every_poi_meter_binding_reads_a_plausible_value :: bool where
  "every_poi_meter_binding_reads_a_plausible_value =
     (let m = poi_holding_registers;
          f32_close = (\<lambda>addr v. case f32_at m addr of None \<Rightarrow> False | Some x \<Rightarrow> close_to x (f64_lit v) (f64_lit (1 / 10 ^ 6)));
          f32_is = (\<lambda>addr v. case f32_at m addr of None \<Rightarrow> False | Some x \<Rightarrow> feq x (f64_lit v)) in
      words m 3204 4 = Some 1000000 \<and> words m 3208 4 = Some 250000
      \<and> f32_close 3150 (98 / 100) \<and> f32_close 21330 (210 / 100) \<and> f32_close 21332 (235 / 100)
      \<and> f32_close 21334 (195 / 100) \<and> f32_is 3060 0 \<and> f32_is 3110 60)"

lemma words_numeral [simp]:
  "words m addr (numeral k) = Option.bind (words m addr (pred_numeral k)) (\<lambda>acc.
     map_option (\<lambda>v. push_bit 16 acc OR ucast v) (m (addr + of_nat (pred_numeral k))))"
  by (simp add: numeral_eq_Suc)

lemma poi_words:
  "words poi_holding_registers 3204 4 = Some 1000000" "words poi_holding_registers 3208 4 = Some 250000"
  by (simp_all add: poi_holding_registers_def)

lemma poi_floats:
  "map (f32_at poi_holding_registers) [3150, 21330, 21332, 21334, 3060, 3110] =
    map (Some \<circ> Num) [2055209 / 2097152, 4404019 / 2097152, 4928307 / 2097152, 8178893 / 4194304, 0, 60]"
  by (simp add: f32_at_def poi_holding_registers_def f32_of_bits_def fzero_def Let_def)

lemma poi_meter_binding: every_poi_meter_binding_reads_a_plausible_value
  using poi_words poi_floats
  by (simp add: every_poi_meter_binding_reads_a_plausible_value_def Let_def close_to_def fabs_def fp_eval flt_def feq_def)

subsection \<open>dc_external.rs\<close>

definition every_dc_external_binding_reads_a_plausible_value :: bool where
  "every_dc_external_binding_reads_a_plausible_value =
     (let inp = dc_input_registers; hold = dc_holding_registers;
          scaled = (\<lambda>i. fmul F64 (f64_of_int i) (f64_lit (1 / 10))); eps = f64_lit (1 / 10 ^ 9);
          temp = (\<lambda>addr v. case inp addr of None \<Rightarrow> False | Some r \<Rightarrow> close_to (scaled (sint r)) (f64_lit v) eps) in
      temp 53508 30 \<and> temp 53511 38 \<and> temp 53513 25
      \<and> inp 53633 = Some 65 \<and> inp 53634 = Some 62 \<and> inp 53616 = Some 0 \<and> hold 53249 = Some 2
      \<and> (case hold 53257 of None \<Rightarrow> False | Some r \<Rightarrow> close_to (scaled (uint r)) (f64_lit 30) eps))"

lemma dc_external_binding: every_dc_external_binding_reads_a_plausible_value
  by (simp add: every_dc_external_binding_reads_a_plausible_value_def Let_def dc_input_registers_def
      dc_holding_registers_def close_to_def fabs_def fp_eval flt_def)

definition measurements_are_not_in_the_holding_space :: bool where
  "measurements_are_not_in_the_holding_space = (dc_holding_registers 53508 = None)"

lemma measurements_not_holding: measurements_are_not_in_the_holding_space
  by (simp add: measurements_are_not_in_the_holding_space_def dc_holding_registers_def)

subsection \<open>pv_inverter.rs\<close>

text \<open>\<open>10f64.powi(n)\<close> for the small powers that are exact.\<close>

definition powi10 :: "int \<Rightarrow> fp" where
  "powi10 n = f64_lit (10 powi n)"

definition model_103_active_power_decodes_with_its_scale_factor :: bool where
  "model_103_active_power_decodes_with_its_scale_factor =
     (case (pv_holding_registers 40084, pv_holding_registers 40085) of
        (Some w, Some sf) \<Rightarrow> feq (fmul F64 (f64_of_int (sint w)) (powi10 (sint sf))) (f64_lit 3125000)
      | _ \<Rightarrow> False)"

lemma model_103_decodes: model_103_active_power_decodes_with_its_scale_factor
  by (simp add: model_103_active_power_decodes_with_its_scale_factor_def pv_holding_registers_def powi10_def
      fp_eval feq_def)

definition the_sunspec_map_is_discoverable :: bool where
  "the_sunspec_map_is_discoverable =
     (map pv_holding_registers [40000, 40001, 40002, 40003, 40070, 40071]
      = map Some [0x5375, 0x6E53, 1, 66, 103, 50])"

lemma sunspec_discoverable: the_sunspec_map_is_discoverable
  by (simp add: the_sunspec_map_is_discoverable_def pv_holding_registers_def)

end
