(* ===== verification/SnmpValues.thy ===== *)
theory SnmpValues
  imports RustStd "HOL-Library.AList" "HOL-Library.List_Lexorder"
begin

text \<open>
  The value map of mock-snmp-agent and everything that writes it: the canned readings
  (\<open>oids.rs\<close>), their Raritan mirror (\<open>raritan.rs\<close>), the drift simulator
  (\<open>simulator.rs\<close>), the load-following PDU (\<open>pdu_load.rs\<close>) and the HTTP control surface
  (\<open>control.rs\<close>).  A hash map is an association list with distinct keys in the order it
  is visited.
\<close>

type_synonym oid = "u32 list"
type_synonym oid_map = "(oid \<times> i64) list"

text \<open>\<open>HashMap::extend\<close>.\<close>

definition map_extend :: "oid_map \<Rightarrow> oid_map \<Rightarrow> oid_map" where
  "map_extend m kvs = fold (\<lambda>kv. AList.update (fst kv) (snd kv)) kvs m"

subsection \<open>Canned readings (oids.rs)\<close>

definition OID_INPUT_CURRENT :: oid where
  "OID_INPUT_CURRENT = [1, 3, 6, 1, 4, 1, 1718, 4, 1, 4, 3, 1, 3, 1, 1, 1]"

definition sentry4 :: "u32 \<Rightarrow> oid \<Rightarrow> oid" where
  "sentry4 table tail = [1, 3, 6, 1, 4, 1, 1718, 4, 1, table, 3, 1, 3, 1, 1] @ tail"

definition sentry4_and_switch :: oid_map where
  "sentry4_and_switch = map_extend []
     [(sentry4 4 [1], 1500), (sentry4 4 [2], 1520), (sentry4 4 [3], 1480),
      (sentry4 5 [1], 2400), (sentry4 5 [2], 2395), (sentry4 5 [3], 2405),
      (sentry4 3 [], 10800),
      ([1, 3, 6, 1, 2, 1, 2, 2, 1, 8, 1], 1),
      ([1, 3, 6, 1, 2, 1, 99, 1, 1, 1, 4, 1], 27),
      ([1, 3, 6, 1, 2, 1, 99, 1, 1, 1, 4, 2], 58)]"

subsection \<open>The Raritan mirror (raritan.rs)\<close>

definition SENSOR_ACTIVE_POWER :: u32 where "SENSOR_ACTIVE_POWER = 5"
definition RMS_CURRENT :: u32 where "RMS_CURRENT = 1"
definition RMS_VOLTAGE :: u32 where "RMS_VOLTAGE = 4"

definition inlet_power :: oid where
  "inlet_power = [1, 3, 6, 1, 4, 1, 13742, 6, 5, 2, 3, 1, 4, 1, 1, SENSOR_ACTIVE_POWER]"

definition pole :: "u32 \<Rightarrow> u32 \<Rightarrow> oid" where
  "pole p sensor = [1, 3, 6, 1, 4, 1, 13742, 6, 5, 2, 4, 1, 4, 1, 1, p, sensor]"

text \<open>\<open>3f64.sqrt()\<close>: the \<open>f64\<close> nearest to the square root of three.\<close>

definition SQRT3 :: fp where
  "SQRT3 = Num (7800463371553962 / 2 ^ 52)"

definition line_volts :: "i64 \<Rightarrow> i64" where
  "line_volts decivolts = as_i64 (fround (fmul F64
     (fdiv F64 (f64_of_int (sint decivolts)) (f64_lit 10)) SQRT3))"

definition mirror_pole :: "oid_map \<Rightarrow> u32 \<Rightarrow> oid_map \<Rightarrow> oid_map" where
  "mirror_pole values p out =
     (let out1 = (case map_of values (sentry4 4 [p]) of
            None \<Rightarrow> out
          | Some centiamps \<Rightarrow> AList.update (pole p RMS_CURRENT) (centiamps * 10) out) in
      case map_of values (sentry4 5 [p]) of
        None \<Rightarrow> out1
      | Some decivolts \<Rightarrow> AList.update (pole p RMS_VOLTAGE) (line_volts decivolts) out1)"

definition mirror :: "oid_map \<Rightarrow> oid_map" where
  "mirror values =
     (let out = (case map_of values (sentry4 3 []) of
            None \<Rightarrow> [] | Some watts \<Rightarrow> AList.update inlet_power watts []) in
      fold (mirror_pole values) [1, 2, 3] out)"

definition initial_values :: oid_map where
  "initial_values = map_extend sentry4_and_switch (mirror sentry4_and_switch)"

subsection \<open>The drift simulator (simulator.rs)\<close>

record int_sawtooth =
  saw_oid :: oid
  saw_lo :: i64
  saw_hi :: i64
  saw_inc :: i64

definition snmp_simulator :: "int_sawtooth list" where
  "snmp_simulator = [\<lparr>saw_oid = OID_INPUT_CURRENT, saw_lo = 1500, saw_hi = 1600, saw_inc = 5\<rparr>]"

definition next_int :: "int_sawtooth \<Rightarrow> i64 \<Rightarrow> i64" where
  "next_int s cur = (if sint (saw_hi s) < sint (cur + saw_inc s) then saw_lo s else cur + saw_inc s)"

definition tick_oid :: "oid set \<Rightarrow> int_sawtooth \<Rightarrow> oid_map \<Rightarrow> oid_map" where
  "tick_oid drv s values =
     (if saw_oid s \<in> drv then values
      else let cur = (case map_of values (saw_oid s) of None \<Rightarrow> saw_lo s | Some v \<Rightarrow> v)
           in AList.update (saw_oid s) (next_int s cur) values)"

definition snmp_tick :: "int_sawtooth list \<Rightarrow> oid_map \<Rightarrow> oid set \<Rightarrow> oid_map" where
  "snmp_tick saws values drv = fold (tick_oid drv) saws values"

subsection \<open>The load-following PDU (pdu_load.rs)\<close>

record pdu_load =
  load_nodes :: fp
  load_share :: fp
  load_base_w :: fp

definition pdu_load_from_env :: "env \<Rightarrow> startup_error + pdu_load" where
  "pdu_load_from_env env =
     (case env_f64 env ''PDU_LOAD_NODES'' (f64_lit 7) of Inl e \<Rightarrow> Inl e
      | Inr n \<Rightarrow>
        (case env_f64 env ''PDU_LOAD_SHARE'' (f64_lit 4) of Inl e \<Rightarrow> Inl e
         | Inr s \<Rightarrow>
           (case env_f64 env ''PDU_BASE_LOAD_W'' (f64_lit 3000) of Inl e \<Rightarrow> Inl e
            | Inr b \<Rightarrow> Inr \<lparr>load_nodes = n, load_share = s, load_base_w = b\<rparr>)))"

definition pdu_power_w :: "pdu_load \<Rightarrow> fp \<Rightarrow> fp" where
  "pdu_power_w load nd =
     fdiv F64 (fadd F64 (fmul F64 (load_nodes load) nd) (load_base_w load)) (load_share load)"

definition phase_current :: "fp \<Rightarrow> oid_map \<Rightarrow> u32 \<Rightarrow> i64" where
  "phase_current power_w values phase =
     (let raw = (case map_of values (sentry4 5 [phase]) of None \<Rightarrow> 2400 | Some v \<Rightarrow> v);
          volts = fdiv F64 (f64_of_int (sint raw)) (f64_lit 10) in
      as_i64 (fround (fmul F64 (fdiv F64 (fdiv F64 power_w (f64_lit 3)) volts) (f64_lit 100))))"

definition readings :: "pdu_load \<Rightarrow> fp \<Rightarrow> oid_map \<Rightarrow> oid_map" where
  "readings load nd values =
     (let power_w = pdu_power_w load nd;
          out = fold (\<lambda>p. AList.update (sentry4 4 [p]) (phase_current power_w values p)) [1, 2, 3]
            [(sentry4 3 [], as_i64 (fround power_w))] in
      map_extend out (mirror out))"

subsection \<open>The shared state and its writers\<close>

record snmp_state =
  oid_values :: oid_map
  oid_driven :: "oid set"

definition snmp_init :: snmp_state where
  "snmp_init = \<lparr>oid_values = initial_values, oid_driven = {}\<rparr>"

text \<open>The simulator task of \<open>main.rs\<close>: one tick, then the mirror.\<close>

definition drift :: "snmp_state \<Rightarrow> snmp_state" where
  "drift s = (let v = snmp_tick snmp_simulator (oid_values s) (oid_driven s)
     in s\<lparr>oid_values := map_extend v (mirror v)\<rparr>)"

text \<open>\<open>store\<close> of pdu_load.rs.\<close>

definition store :: "oid_map \<Rightarrow> snmp_state \<Rightarrow> snmp_state" where
  "store nxt s = (let s1 = s\<lparr>oid_driven := oid_driven s \<union> fst ` set nxt\<rparr>
     in s1\<lparr>oid_values := map_extend (oid_values s1) nxt\<rparr>)"

text \<open>The control surface (control.rs).\<close>

primrec parse_segments :: "string list \<Rightarrow> oid option" where
  "parse_segments [] = Some []"
| "parse_segments (p # ps) =
     (case parse_uint 32 p of
        None \<Rightarrow> None
      | Some n \<Rightarrow> map_option (\<lambda>ns. of_nat n # ns) (parse_segments ps))"

definition parse_oid :: "string \<Rightarrow> oid option" where
  "parse_oid dotted = parse_segments (split_on CHR ''.'' dotted)"

primrec parse_batch :: "(string \<times> i64) list \<Rightarrow> oid_map option" where
  "parse_batch [] = Some []"
| "parse_batch (kv # kvs) =
     (case parse_oid (fst kv) of
        None \<Rightarrow> None
      | Some oid \<Rightarrow> map_option (\<lambda>rest. (oid, snd kv) # rest) (parse_batch kvs))"

definition drive_oid :: "oid \<times> i64 \<Rightarrow> snmp_state \<Rightarrow> snmp_state" where
  "drive_oid kv s = s\<lparr>oid_values := AList.update (fst kv) (snd kv) (oid_values s),
     oid_driven := insert (fst kv) (oid_driven s)\<rparr>"

text \<open>The body as axum extracts it, in the order of the hash map; \<open>None\<close> when it rejects.\<close>

definition put_oids :: "(string \<times> i64) list option \<Rightarrow> snmp_state \<Rightarrow> snmp_state \<times> http_status" where
  "put_oids body s =
     (case body of
        None \<Rightarrow> (s, REJECTED)
      | Some kvs \<Rightarrow>
          (case parse_batch kvs of
             None \<Rightarrow> (s, UNPROCESSABLE_ENTITY)
           | Some parsed \<Rightarrow> (fold drive_oid parsed s, NO_CONTENT)))"

datatype snmp_event =
    Drift
  | PutOids "(string \<times> i64) list option"
  | StoreLoad pdu_load fp oid_map

text \<open>
  The reading of a load event is computed under the value lock, which is released before
  the store; its third component is the snapshot it saw.
\<close>

primrec snmp_step :: "snmp_event \<Rightarrow> snmp_state \<Rightarrow> snmp_state" where
  "snmp_step Drift s = drift s"
| "snmp_step (PutOids body) s = fst (put_oids body s)"
| "snmp_step (StoreLoad load nd seen) s = store (readings load nd seen) s"

definition snmp_run :: "snmp_event list \<Rightarrow> snmp_state \<Rightarrow> snmp_state" where
  "snmp_run es s = fold snmp_step es s"

subsection \<open>Association lists\<close>

lemma map_of_update [store_simps]: "map_of (AList.update k v m) j = (if j = k then Some v else map_of m j)"
  by (simp add: update_conv')

lemma map_extend_lookup [store_simps]:
  "map_of (map_extend m kvs) k = (case map_of (rev kvs) k of None \<Rightarrow> map_of m k | Some v \<Rightarrow> Some v)"
  unfolding map_extend_def
proof (induction kvs arbitrary: m)
  case (Cons kv kvs)
  then show ?case by (cases kv) (auto simp: map_of_update map_add_def split: option.split)
qed simp

lemma map_extend_keys: "fst ` set (map_extend m kvs) = fst ` set m \<union> fst ` set kvs"
  unfolding map_extend_def by (induction kvs arbitrary: m) (auto simp: dom_update)

lemma map_extend_distinct: "distinct (map fst m) \<Longrightarrow> distinct (map fst (map_extend m kvs))"
  unfolding map_extend_def by (induction kvs arbitrary: m) (auto intro: distinct_update)

lemma map_of_rev_distinct: "distinct (map fst kvs) \<Longrightarrow> map_of (rev kvs) = map_of kvs"
  by (rule map_of_inject_set [THEN iffD2]) (simp_all add: rev_map [symmetric])

subsection \<open>Keys\<close>

text \<open>The Raritan part of the tree, enterprise 13742.\<close>

definition is_raritan :: "oid \<Rightarrow> bool" where
  "is_raritan k \<longleftrightarrow> take 7 k = [1, 3, 6, 1, 4, 1, 13742]"

lemma pole_raritan [simp]: "is_raritan (pole p q)" "is_raritan inlet_power"
  by (simp_all add: is_raritan_def pole_def inlet_power_def)

lemma sentry4_not_raritan [simp]: "\<not> is_raritan (sentry4 t x)"
  by (simp add: is_raritan_def sentry4_def)

lemma sentry4_inj [simp]: "sentry4 t x = sentry4 u y \<longleftrightarrow> t = u \<and> x = y"
  by (simp add: sentry4_def)

lemma pole_inj [simp]: "pole p q = pole p' q' \<longleftrightarrow> p = p' \<and> q = q'"
  by (simp add: pole_def)

lemma key_neq [simp]:
  "pole p q \<noteq> inlet_power" "inlet_power \<noteq> pole p q"
  "sentry4 t x \<noteq> pole p q" "pole p q \<noteq> sentry4 t x"
  "sentry4 t x \<noteq> inlet_power" "inlet_power \<noteq> sentry4 t x"
  by (simp_all add: pole_def inlet_power_def sentry4_def)

lemma input_current: "OID_INPUT_CURRENT = sentry4 4 [1]"
  by (simp add: OID_INPUT_CURRENT_def sentry4_def)

lemma sensor_neq [simp]: "RMS_CURRENT \<noteq> RMS_VOLTAGE" "RMS_VOLTAGE \<noteq> RMS_CURRENT"
  by (simp_all add: RMS_CURRENT_def RMS_VOLTAGE_def)

subsection \<open>The mirror\<close>

lemma mirror_pole_distinct: "distinct (map fst out) \<Longrightarrow> distinct (map fst (mirror_pole values p out))"
  by (auto simp: mirror_pole_def Let_def intro: distinct_update split: option.split)

lemma mirror_distinct: "distinct (map fst (mirror values))"
  by (auto simp: mirror_def Let_def intro!: mirror_pole_distinct split: option.split)

lemma mirror_pole_lookup:
  "map_of (mirror_pole values p out) k =
    (if k = pole p RMS_VOLTAGE \<and> map_of values (sentry4 5 [p]) \<noteq> None
     then map_option line_volts (map_of values (sentry4 5 [p]))
     else if k = pole p RMS_CURRENT \<and> map_of values (sentry4 4 [p]) \<noteq> None
     then map_option (\<lambda>c. c * 10) (map_of values (sentry4 4 [p]))
     else map_of out k)"
  by (auto simp: mirror_pole_def Let_def map_of_update split: option.split)

lemma mirror_lookup:
  assumes "p \<in> {1, 2, 3}"
  shows "map_of (mirror values) (pole p RMS_CURRENT) = map_option (\<lambda>c. c * 10) (map_of values (sentry4 4 [p]))"
    and "map_of (mirror values) (pole p RMS_VOLTAGE) = map_option line_volts (map_of values (sentry4 5 [p]))"
    and "map_of (mirror values) inlet_power = map_of values (sentry4 3 [])"
  using assms
  by (auto simp: mirror_def Let_def mirror_pole_lookup map_of_update split: option.split)

lemma mirror_other: "\<not> is_raritan k \<Longrightarrow> map_of (mirror values) k = None"
  by (auto simp: mirror_def Let_def mirror_pole_lookup map_of_update split: option.split)

lemma mirror_cong:
  assumes "\<And>t x. map_of v (sentry4 t x) = map_of w (sentry4 t x)" shows "mirror v = mirror w"
proof -
  have "mirror_pole v p out = mirror_pole w p out" for p out by (simp add: mirror_pole_def assms)
  then have "mirror_pole v = mirror_pole w" by (intro ext)
  then show ?thesis by (simp add: mirror_def assms)
qed

lemma map_extend_mirror_lookup:
  "map_of (map_extend v (mirror w)) k =
    (case map_of (mirror w) k of None \<Rightarrow> map_of v k | Some x \<Rightarrow> Some x)"
  by (simp add: map_extend_lookup map_of_rev_distinct mirror_distinct)

subsection \<open>The writers\<close>

lemma tick_oid_lookup:
  "map_of (tick_oid drv s v) k = (if k = saw_oid s \<and> k \<notin> drv
     then Some (next_int s (case map_of v k of None \<Rightarrow> saw_lo s | Some x \<Rightarrow> x)) else map_of v k)"
  by (auto simp: tick_oid_def Let_def map_of_update)

lemma snmp_tick_driven: "k \<in> drv \<Longrightarrow> map_of (snmp_tick saws v drv) k = map_of v k"
  unfolding snmp_tick_def by (induction saws arbitrary: v) (simp_all add: tick_oid_lookup)

lemma fold_drive_oid:
  "oid_values (fold drive_oid kvs s) = map_extend (oid_values s) kvs"
  "oid_driven (fold drive_oid kvs s) = oid_driven s \<union> fst ` set kvs"
  unfolding map_extend_def by (induction kvs arbitrary: s) (auto simp: drive_oid_def)

lemma store_fields:
  "oid_values (store kvs s) = map_extend (oid_values s) kvs"
  "oid_driven (store kvs s) = oid_driven s \<union> fst ` set kvs"
  by (simp_all add: store_def)

lemma store_eq_drive: "store kvs s = fold drive_oid kvs s"
  using fold_drive_oid [of kvs s] store_fields [of kvs s] by (intro snmp_state.equality) simp_all

interpretation so: control_surface
  "\<lambda>s k. map_of (oid_values s) k" "\<lambda>s k. k \<in> oid_driven s" "\<lambda>s t. t = drift s" store "\<lambda>k. \<not> is_raritan k"
proof
  fix s t :: snmp_state and k
  assume t: "t = drift s"
  show "k \<in> oid_driven s \<Longrightarrow> k \<in> oid_driven t" by (simp add: t drift_def Let_def)
  assume "k \<in> oid_driven s" "\<not> is_raritan k"
  then show "map_of (oid_values t) k = map_of (oid_values s) k"
    by (simp add: t drift_def Let_def map_extend_mirror_lookup mirror_other snmp_tick_driven)
qed (auto simp: store_fields map_extend_lookup)

text \<open>What an event puts into the map as a client.\<close>

primrec put_by :: "snmp_event \<Rightarrow> oid_map" where
  "put_by Drift = []"
| "put_by (PutOids body) = (case Option.bind body parse_batch of None \<Rightarrow> [] | Some kvs \<Rightarrow> kvs)"
| "put_by (StoreLoad load nd seen) = readings load nd seen"

lemma snmp_step_cases: "snmp_step e s = drift s \<and> put_by e = [] \<or> snmp_step e s = store (put_by e) s"
  by (cases e) (auto simp: put_oids_def store_eq_drive split: option.split)

lemma snmp_run_surface:
  assumes "so.run s bs t"
  shows "\<exists>bs'. so.run s (bs @ bs') (snmp_run es t) \<and> concat bs' = concat (map put_by es)"
  using assms
proof (induction es arbitrary: t bs)
  case Nil then show ?case by (intro exI [of _ "[]"]) (simp add: snmp_run_def)
next
  case (Cons e es)
  have "\<exists>bs1. so.run s (bs @ bs1) (snmp_step e t) \<and> concat bs1 = put_by e"
    using snmp_step_cases [of e t]
  proof
    assume "snmp_step e t = drift t \<and> put_by e = []"
    then show ?thesis using so.run_sim [OF Cons.prems] by (intro exI [of _ "[]"]) simp
  next
    assume "snmp_step e t = store (put_by e) t"
    then show ?thesis using so.run_put [OF Cons.prems] by (intro exI [of _ "[put_by e]"]) simp
  qed
  then obtain bs1 where bs1: "so.run s (bs @ bs1) (snmp_step e t)" "concat bs1 = put_by e" by blast
  from Cons.IH [OF bs1(1)] obtain bs2 where
    "so.run s (bs @ bs1 @ bs2) (snmp_run es (snmp_step e t))" "concat bs2 = concat (map put_by es)" by auto
  with bs1(2) show ?case by (intro exI [of _ "bs1 @ bs2"]) (simp add: snmp_run_def)
qed

lemma snmp_run_last_write:
  assumes "\<not> is_raritan k" "k \<in> oid_driven s \<or> k \<in> fst ` set (concat (map put_by es))"
  shows "map_of (oid_values (snmp_run es s)) k =
    (case map_of (rev (concat (map put_by es))) k of None \<Rightarrow> map_of (oid_values s) k | Some v \<Rightarrow> Some v)"
proof -
  obtain bs where bs: "so.run s bs (snmp_run es s)" "concat bs = concat (map put_by es)"
    using snmp_run_surface [OF so.run_start, of s es] by auto
  have "k \<in> oid_driven s \<or> (\<exists>b\<in>set bs. k \<in> fst ` set b)" using assms(2)
    unfolding bs(2) [symmetric] set_concat image_UN by blast
  from so.run_last_write [OF bs(1) assms(1) this] bs(2) show ?thesis by simp
qed

end
