(* ===== verification/SnmpAgent.thy ===== *)
theory SnmpAgent
  imports SnmpValues
begin

text \<open>
  The v2c side of mock-snmp-agent (\<open>main.rs\<close>): the version peek, the response to a Get or
  GetNext request, and the handling of one datagram.  The BER codec and the validity of
  an object identifier belong to the rasn crate and are parameters: \<open>oid_ok\<close> says when
  \<open>ObjectIdentifier::new\<close> returns a value, \<open>decode\<close> and \<open>encode\<close> are the codec.
\<close>

subsection \<open>Messages (rasn-snmp)\<close>

datatype var_value = IntegerValue i32 | OtherValue bytes | Unspecified | NoSuchInstance | EndOfMibView

record pdu =
  request_id :: i32
  error_status :: u32
  error_index :: u32
  variable_bindings :: "(oid \<times> var_value) list"

datatype pdus = GetRequest pdu | GetNextRequest pdu | GetBulkRequest pdu | Response pdu | Report pdu
  | OtherPdus bytes

record v2c_message =
  msg_version :: int
  community :: bytes
  msg_data :: pdus

subsection \<open>The version peek\<close>

text \<open>\<open>slice::get\<close>.\<close>

definition byte_at :: "bytes \<Rightarrow> nat \<Rightarrow> u8 option" where
  "byte_at bs i = (if i < length bs then Some (bs ! i) else None)"

definition peek_snmp_version :: "bytes \<Rightarrow> u8 option" where
  "peek_snmp_version datagram =
     (if byte_at datagram 0 \<noteq> Some 0x30 then None
      else case byte_at datagram 1 of None \<Rightarrow> None
      | Some len_byte \<Rightarrow>
          (let header_len = (if len_byte < 0x80 then 2 else 2 + unat (len_byte AND 0x7F)) in
           if byte_at datagram header_len \<noteq> Some 2 \<or> byte_at datagram (header_len + 1) \<noteq> Some 1 then None
           else byte_at datagram (header_len + 2)))"

subsection \<open>Responses\<close>

text \<open>The candidates above the requested OID, sorted; the first one is the answer.\<close>

definition get_next :: "oid_map \<Rightarrow> oid \<Rightarrow> oid option" where
  "get_next values req =
     (case sort (filter (\<lambda>k. req < k) (map fst values)) of [] \<Rightarrow> None | nxt # _ \<Rightarrow> Some nxt)"

definition answer :: "oid_map \<Rightarrow> bool \<Rightarrow> oid \<Rightarrow> oid \<times> i64 option" where
  "answer values is_get_next req =
     (if is_get_next then
        (case get_next values req of Some nxt \<Rightarrow> (nxt, map_of values nxt) | None \<Rightarrow> (req, None))
      else (req, map_of values req))"

definition var_value_of :: "bool \<Rightarrow> i64 option \<Rightarrow> var_value" where
  "var_value_of is_get_next v =
     (case v of Some x \<Rightarrow> IntegerValue (ucast x)
      | None \<Rightarrow> if is_get_next then EndOfMibView else NoSuchInstance)"

definition respond :: "(oid \<Rightarrow> bool) \<Rightarrow> oid_map \<Rightarrow> bool \<Rightarrow> oid \<Rightarrow> (oid \<times> var_value) option" where
  "respond oid_ok values is_get_next req =
     (let (oid, v) = answer values is_get_next req in
      if oid_ok oid then Some (oid, var_value_of is_get_next v) else None)"

primrec respond_all ::
  "(oid \<Rightarrow> bool) \<Rightarrow> oid_map \<Rightarrow> bool \<Rightarrow> oid list \<Rightarrow> (oid \<times> var_value) list option" where
  "respond_all oid_ok values nx [] = Some []"
| "respond_all oid_ok values nx (r # rs) =
     (case respond oid_ok values nx r of None \<Rightarrow> None
      | Some vb \<Rightarrow> map_option (\<lambda>vbs. vb # vbs) (respond_all oid_ok values nx rs))"

text \<open>\<open>None\<close>: the \<open>expect\<close> on an invalid object identifier panics.\<close>

definition build_response :: "(oid \<Rightarrow> bool) \<Rightarrow> pdu \<Rightarrow> oid_map \<Rightarrow> bool \<Rightarrow> pdu option" where
  "build_response oid_ok request values is_get_next =
     map_option (\<lambda>vbs. \<lparr>request_id = request_id request, error_status = 0, error_index = 0,
                       variable_bindings = vbs\<rparr>)
       (respond_all oid_ok values is_get_next (map fst (variable_bindings request)))"

subsection \<open>One datagram\<close>

datatype datagram_error = DecodeError | UnsupportedPdu | EncodeError

text \<open>The reply, an error that is logged, or a panic of the task (\<open>None\<close>).\<close>

definition handle_datagram ::
  "(oid \<Rightarrow> bool) \<Rightarrow> (bytes \<Rightarrow> v2c_message option) \<Rightarrow> (v2c_message \<Rightarrow> bytes option)
     \<Rightarrow> bytes \<Rightarrow> oid_map \<Rightarrow> (datagram_error + bytes) option" where
  "handle_datagram oid_ok decode encode datagram values =
     (case decode datagram of
        None \<Rightarrow> Some (Inl DecodeError)
      | Some message \<Rightarrow>
          (let reply = (\<lambda>response_pdu.
             let response = message\<lparr>msg_data := Response response_pdu\<rparr> in
             case encode response of None \<Rightarrow> Inl EncodeError | Some bs \<Rightarrow> Inr bs) in
           case msg_data message of
             GetRequest req \<Rightarrow> map_option reply (build_response oid_ok req values False)
           | GetNextRequest req \<Rightarrow> map_option reply (build_response oid_ok req values True)
           | _ \<Rightarrow> Some (Inl UnsupportedPdu)))"

subsection \<open>Facts\<close>

lemma get_next_Some:
  assumes "get_next values req = Some k"
  shows "k \<in> fst ` set values" "req < k" "\<And>j. j \<in> fst ` set values \<Longrightarrow> req < j \<Longrightarrow> k \<le> j"
proof -
  let ?c = "filter (\<lambda>k. req < k) (map fst values)"
  obtain r where s: "sort ?c = k # r" using assms by (auto simp: get_next_def split: list.splits)
  have m: "set (k # r) = set ?c" "sorted (k # r)" using s by (metis set_sort, metis sorted_sort)
  then show "k \<in> fst ` set values" "req < k" by auto
  show "k \<le> j" if "j \<in> fst ` set values" "req < j" for j
  proof -
    have "j \<in> set (k # r)" unfolding m(1) using that by auto
    then show ?thesis using m(2) by auto
  qed
qed

lemma get_next_None: "get_next values req = None \<longleftrightarrow> (\<forall>k\<in>fst ` set values. k \<le> req)"
proof -
  have "get_next values req = None \<longleftrightarrow> filter (\<lambda>k. req < k) (map fst values) = []"
    by (auto simp: get_next_def split: list.split dest: arg_cong [where f = set])
  then show ?thesis by (auto simp: filter_empty_conv not_less)
qed

interpretation ov: ordered_view "\<lambda>values. fst ` set values" get_next
  by unfold_locales (auto simp: get_next_Some get_next_None dest: get_next_Some)

lemma answer_value:
  "snd (answer values nx req) = map_of values (fst (answer values nx req)) \<or> snd (answer values nx req) = None"
  by (auto simp: answer_def split: option.split)

lemma respond_all_Some:
  "respond_all oid_ok values nx rs = Some vbs \<longleftrightarrow>
    vbs = map (\<lambda>r. (fst (answer values nx r), var_value_of nx (snd (answer values nx r)))) rs
    \<and> (\<forall>r\<in>set rs. oid_ok (fst (answer values nx r)))"
  by (induction rs arbitrary: vbs) (auto simp: respond_def split_beta split: option.split)

lemma build_response_total:
  assumes "\<And>k. k \<in> fst ` set values \<Longrightarrow> oid_ok k"
    and "\<And>b. b \<in> set (variable_bindings request) \<Longrightarrow> oid_ok (fst b)"
  shows "\<exists>p. build_response oid_ok request values nx = Some p"
proof -
  have ok: "oid_ok (fst (answer values nx r))" if "oid_ok r" for r
    using assms(1) that get_next_Some(1) [of "values" r]
    by (auto simp: answer_def split: option.split)
  let ?rs = "map fst (variable_bindings request)"
  have "\<forall>r\<in>set ?rs. oid_ok (fst (answer values nx r))" using assms(2) ok by auto
  then obtain vbs where "respond_all oid_ok values nx ?rs = Some vbs" using respond_all_Some by blast
  then show ?thesis by (simp add: build_response_def)
qed

text \<open>The walk a client makes: each answered OID is the next request.\<close>

lemma get_next_walk:
  "walk (get_next values) (length values) k = sorted_list_of_set {j \<in> fst ` set values. k < j}"
proof (rule ov.walk_complete)
  have "card {j \<in> fst ` set values. k < j} \<le> card (fst ` set values)" by (intro card_mono) auto
  also have "\<dots> \<le> length values" by (metis card_image_le card_length finite_set order_trans)
  finally show "card {j \<in> fst ` set values. k < j} \<le> length values" .
qed

lemma byte_at_append: "byte_at (xs @ ys) (length xs + i) = byte_at ys i"
  by (simp add: byte_at_def nth_append)

text \<open>The length octets of a definite BER length: one below 128, or a count and that many.\<close>

definition ber_length :: "bytes \<Rightarrow> bool" where
  "ber_length ls = (case ls of [] \<Rightarrow> False
     | l # r \<Rightarrow> if l < 0x80 then r = [] else length r = unat (l AND 0x7F))"

lemma peek_of_sequence:
  assumes "ber_length ls"
  shows "peek_snmp_version (0x30 # ls @ 2 # 1 # v # rest) = Some v"
proof -
  obtain l r where ls: "ls = l # r" using assms by (cases ls) (auto simp: ber_length_def)
  let ?d = "0x30 # ls @ 2 # 1 # v # rest"
  have h: "(if l < 0x80 then 2 else 2 + unat (l AND 0x7F)) = length (0x30 # ls)"
    using assms by (auto simp: ls ber_length_def split: if_splits)
  have "byte_at ?d (length (0x30 # ls) + i) = byte_at (2 # 1 # v # rest) i" for i
    using byte_at_append [of "0x30 # ls" "2 # 1 # v # rest" i] by simp
  from this [of 0] this [of 1] this [of 2] have
    "byte_at ?d (length (0x30 # ls)) = Some 2" "byte_at ?d (length (0x30 # ls) + 1) = Some 1"
    "byte_at ?d (length (0x30 # ls) + 2) = Some v"
    by (simp_all add: byte_at_def)
  moreover have "byte_at ?d 0 = Some 0x30" "byte_at ?d 1 = Some l" by (simp_all add: byte_at_def ls)
  ultimately show ?thesis unfolding peek_snmp_version_def by (simp add: h Let_def del: length_Cons)
qed

end
