(* ===== verification/SnmpLocks.thy ===== *)
theory SnmpLocks
  imports Prelude
begin

text \<open>
  The mutexes of mock-snmp-agent: the SNMPv3 agent state, the set of driven OIDs and the
  value map.  Each handler is the sequence of lock operations its code performs (a guard
  is released when it goes out of scope, the last one first); any number of handlers run
  at once.
\<close>

datatype lock = AgentLock | DrivenLock | ValuesLock

text \<open>The documented order: the driven set before the values; the agent state comes first.\<close>

instantiation lock :: linorder
begin

primrec lock_rank :: "lock \<Rightarrow> nat" where
  "lock_rank AgentLock = 0"
| "lock_rank DrivenLock = 1"
| "lock_rank ValuesLock = 2"

definition less_eq_lock :: "lock \<Rightarrow> lock \<Rightarrow> bool" where
  "less_eq_lock a b = (lock_rank a \<le> lock_rank b)"

definition less_lock :: "lock \<Rightarrow> lock \<Rightarrow> bool" where
  "less_lock a b = (lock_rank a < lock_rank b)"

instance
proof
  fix a b c :: lock
  show "(a < b) = (a \<le> b \<and> \<not> b \<le> a)" by (auto simp: less_eq_lock_def less_lock_def)
  show "a \<le> a" by (simp add: less_eq_lock_def)
  show "a \<le> b \<Longrightarrow> b \<le> c \<Longrightarrow> a \<le> c" by (simp add: less_eq_lock_def)
  show "a \<le> b \<Longrightarrow> b \<le> a \<Longrightarrow> a = b" by (cases a; cases b; simp add: less_eq_lock_def)
  show "a \<le> b \<or> b \<le> a" by (auto simp: less_eq_lock_def)
qed

end

datatype lock_op = Acquire lock | Release lock

subsection \<open>What the handlers do\<close>

text \<open>The simulator task of main.rs; \<open>put_oids\<close>; the two halves of the PDU load task;
  \<open>build_response\<close> of v2c; the discovery and the authenticated path of v3.\<close>

definition drift_locks :: "lock_op list" where
  "drift_locks = [Acquire DrivenLock, Acquire ValuesLock, Release ValuesLock, Release DrivenLock]"

definition put_oids_locks :: "lock_op list" where
  "put_oids_locks = [Acquire DrivenLock, Acquire ValuesLock, Release ValuesLock, Release DrivenLock]"

definition store_locks :: "lock_op list" where
  "store_locks = [Acquire DrivenLock, Acquire ValuesLock, Release ValuesLock, Release DrivenLock]"

definition load_locks :: "lock_op list" where
  "load_locks = [Acquire ValuesLock, Release ValuesLock] @ store_locks"

definition v2c_locks :: "lock_op list" where
  "v2c_locks = [Acquire ValuesLock, Release ValuesLock]"

definition discovery_locks :: "lock_op list" where
  "discovery_locks = [Acquire AgentLock, Release AgentLock]"

definition v3_locks :: "lock_op list" where
  "v3_locks = [Acquire AgentLock, Acquire ValuesLock, Release ValuesLock, Release AgentLock]"

definition handlers :: "lock_op list set" where
  "handlers = {drift_locks, put_oids_locks, load_locks, v2c_locks, discovery_locks, v3_locks}"

subsection \<open>Execution\<close>

text \<open>A task is what it still has to do and what it holds.\<close>

type_synonym task = "lock_op list \<times> lock set"

inductive lock_step :: "task list \<Rightarrow> task list \<Rightarrow> bool" where
  acquire: "i < length ts \<Longrightarrow> ts ! i = (Acquire l # ops, H) \<Longrightarrow> (\<forall>t\<in>set ts. l \<notin> snd t) \<Longrightarrow>
    lock_step ts (ts[i := (ops, insert l H)])"
| release: "i < length ts \<Longrightarrow> ts ! i = (Release l # ops, H) \<Longrightarrow>
    lock_step ts (ts[i := (ops, H - {l})])"

definition spawn :: "lock_op list list \<Rightarrow> task list" where
  "spawn progs = map (\<lambda>p. (p, {})) progs"

subsection \<open>Discipline\<close>

fun disciplined :: "task \<Rightarrow> bool" where
  "disciplined ([], H) \<longleftrightarrow> H = {}"
| "disciplined (Acquire l # ops, H) \<longleftrightarrow> (\<forall>h\<in>H. h < l) \<and> disciplined (ops, insert l H)"
| "disciplined (Release l # ops, H) \<longleftrightarrow> l \<in> H \<and> disciplined (ops, H - {l})"

lemma handlers_disciplined: "p \<in> handlers \<Longrightarrow> disciplined (p, {})"
  by (auto simp: handlers_def drift_locks_def put_oids_locks_def store_locks_def load_locks_def
      v2c_locks_def discovery_locks_def v3_locks_def less_lock_def)

text \<open>Every task keeps to the order, and no lock is held twice.\<close>

definition lock_inv :: "task list \<Rightarrow> bool" where
  "lock_inv ts \<longleftrightarrow> (\<forall>t\<in>set ts. disciplined t)
     \<and> (\<forall>i<length ts. \<forall>j<length ts. i \<noteq> j \<longrightarrow> snd (ts ! i) \<inter> snd (ts ! j) = {})"

lemma lock_inv_spawn: "set progs \<subseteq> handlers \<Longrightarrow> lock_inv (spawn progs)"
  by (auto simp: lock_inv_def spawn_def handlers_disciplined)

lemma disciplined_update:
  "\<forall>t\<in>set ts. disciplined t \<Longrightarrow> disciplined x \<Longrightarrow> \<forall>t\<in>set (ts[i := x]). disciplined t"
  using set_update_subset_insert [of ts i x] by auto

lemma exclusive_update:
  assumes "\<And>j k. j < length ts \<Longrightarrow> k < length ts \<Longrightarrow> j \<noteq> k \<Longrightarrow> snd (ts ! j) \<inter> snd (ts ! k) = {}"
    and "\<And>j. j < length ts \<Longrightarrow> j \<noteq> i \<Longrightarrow> snd (ts ! j) \<inter> H = {}"
  shows "\<forall>j<length ts. \<forall>k<length ts. j \<noteq> k \<longrightarrow> snd (ts[i := (ops, H)] ! j) \<inter> snd (ts[i := (ops, H)] ! k) = {}"
proof (intro allI impI)
  fix j k
  assume "j < length ts" "k < length ts" "j \<noteq> k"
  then show "snd (ts[i := (ops, H)] ! j) \<inter> snd (ts[i := (ops, H)] ! k) = {}"
    using assms(1) [of j k] assms(2) [of j] assms(2) [of k]
    by (cases "j = i"; cases "k = i") (simp_all add: Int_commute)
qed

lemma lock_inv_update:
  assumes "lock_inv ts" "disciplined (ops, H)"
    and "\<And>j. j < length ts \<Longrightarrow> j \<noteq> i \<Longrightarrow> snd (ts ! j) \<inter> H = {}"
  shows "lock_inv (ts[i := (ops, H)])"
  using assms disciplined_update [of ts "(ops, H)" i] exclusive_update [of ts i H ops]
  by (simp add: lock_inv_def)

lemma lock_inv_step:
  assumes "lock_step ts ts'" "lock_inv ts" shows "lock_inv ts'"
  using assms
proof (induction rule: lock_step.induct)
  case (acquire i ts l ops H)
  show ?case
  proof (rule lock_inv_update [OF acquire.prems])
    have "disciplined (Acquire l # ops, H)"
      using acquire.prems acquire.hyps(1,2) nth_mem unfolding lock_inv_def by metis
    then show "disciplined (ops, insert l H)" by simp
  next
    fix j assume j: "j < length ts" "j \<noteq> i"
    have "snd (ts ! j) \<inter> snd (ts ! i) = {}"
      using acquire.prems acquire.hyps(1) j by (simp add: lock_inv_def)
    then show "snd (ts ! j) \<inter> insert l H = {}" using acquire.hyps(2,3) nth_mem [OF j(1)] by auto
  qed
next
  case (release i ts l ops H)
  show ?case
  proof (rule lock_inv_update [OF release.prems])
    have "disciplined (Release l # ops, H)"
      using release.prems release.hyps(1,2) nth_mem unfolding lock_inv_def by metis
    then show "disciplined (ops, H - {l})" by simp
  next
    fix j assume j: "j < length ts" "j \<noteq> i"
    have "snd (ts ! j) \<inter> snd (ts ! i) = {}"
      using release.prems release.hyps(1) j by (simp add: lock_inv_def)
    then show "snd (ts ! j) \<inter> (H - {l}) = {}" using release.hyps(2) by auto
  qed
qed

lemma lock_inv_run: "lock_step\<^sup>*\<^sup>* ts ts' \<Longrightarrow> lock_inv ts \<Longrightarrow> lock_inv ts'"
  by (induction rule: rtranclp_induct) (auto intro: lock_inv_step)

text \<open>Who wants a lock that somebody holds is waiting for a task that wants a larger one.\<close>

lemma lock_progress:
  assumes inv: "lock_inv ts" and unfinished: "t \<in> set ts" "fst t \<noteq> []"
  shows "\<exists>ts'. lock_step ts ts'"
proof (rule ccontr)
  assume stuck: "\<nexists>ts'. lock_step ts ts'"
  have wants: "\<exists>l ops. fst t = Acquire l # ops \<and> (\<exists>u\<in>set ts. l \<in> snd u)"
    if t: "t \<in> set ts" "fst t \<noteq> []" for t
  proof -
    obtain i where i: "i < length ts" "ts ! i = t" using t(1) by (auto simp: in_set_conv_nth)
    obtain ops o1 H where o: "t = (o1 # ops, H)" using t(2) by (cases t; cases "fst t") auto
    show ?thesis
    proof (cases o1)
      case (Release l)
      then show ?thesis using stuck lock_step.release [OF i(1)] i(2) o by blast
    next
      case (Acquire l)
      then show ?thesis using stuck lock_step.acquire [OF i(1)] i(2) o by fastforce
    qed
  qed
  define W where "W = {l. \<exists>t\<in>set ts. \<exists>ops. fst t = Acquire l # ops}"
  have "finite W" by (rule finite_subset [of _ "{AgentLock, DrivenLock, ValuesLock}"])
      (auto intro: lock.exhaust)
  moreover have "W \<noteq> {}" using wants [OF unfinished] unfinished(1) by (auto simp: W_def)
  ultimately have m: "Max W \<in> W" "\<And>l. l \<in> W \<Longrightarrow> l \<le> Max W" by auto
  from m(1) obtain t1 ops1 where t1: "t1 \<in> set ts" "fst t1 = Acquire (Max W) # ops1" by (auto simp: W_def)
  from wants [OF t1(1)] t1(2) obtain u where u: "u \<in> set ts" "Max W \<in> snd u" by auto
  have d: "disciplined u" using inv u(1) by (simp add: lock_inv_def)
  then have "fst u \<noteq> []" using u(2) by (cases u) auto
  from wants [OF u(1) this] obtain l ops where l: "fst u = Acquire l # ops" by blast
  then have "Max W < l" using d u(2) by (cases u) auto
  moreover have "l \<in> W" using l u(1) by (auto simp: W_def)
  ultimately show False using m(2) [of l] by simp
qed

definition ops_left :: "task list \<Rightarrow> nat" where
  "ops_left ts = sum_list (map (\<lambda>t. length (fst t)) ts)"

lemma ops_left_update:
  assumes "i < length ts" "ts ! i = (x # ops, H)"
  shows "Suc (ops_left (ts[i := (ops, H')])) = ops_left ts"
proof -
  have "Suc (length ops) \<in> set (map (\<lambda>t. length (fst t)) ts)"
    using nth_mem [OF assms(1)] assms(2) by force
  from member_le_sum_list [OF this] show ?thesis
    using assms by (simp add: ops_left_def map_update sum_list_update)
qed

lemma ops_left_step: "lock_step ts ts' \<Longrightarrow> Suc (ops_left ts') = ops_left ts"
  by (induction rule: lock_step.induct) (simp_all add: ops_left_update)

lemma ops_left_run: "(lock_step ^^ n) ts ts' \<Longrightarrow> n + ops_left ts' = ops_left ts"
proof (induction n arbitrary: ts')
  case (Suc n)
  then obtain u where "(lock_step ^^ n) ts u" "lock_step u ts'" by auto
  then show ?case using Suc.IH [of u] ops_left_step by fastforce
qed simp

end
