(* ===== verification/SnmpProps.thy ===== *)
theory SnmpProps
  imports SnmpAgent SnmpLocks
begin

text \<open>
  The properties of mock-snmp-agent's value map and v2c service: who decides what an OID
  reads, the Raritan view, batches, the order of a walk, what a response holds, and that
  the handlers' locks never deadlock.
\<close>

subsection \<open>The value map\<close>

text \<open>C5: Whatever the drift simulator, the PDU load follower and the HTTP control surface do,
  in any order, an OID outside the Raritan mirror that has ever been put by a client or
  the load follower answers a Get with the value of the last such put.\<close>

theorem snmp_client_writes_stick:
  assumes "\<not> is_raritan k" "k \<in> oid_driven s \<or> k \<in> fst ` set (concat (map put_by es))"
  shows "answer (oid_values (snmp_run es s)) False k =
    (k, case map_of (rev (concat (map put_by es))) k of None \<Rightarrow> map_of (oid_values s) k | Some v \<Rightarrow> Some v)"
  using snmp_run_last_write [OF assms] by (simp add: answer_def)

lemma put_one: "parse_oid k = Some oid \<Longrightarrow> put_by (PutOids (Some [(k, v)])) = [(oid, v)]"
  by simp

definition show_current :: string where
  "show_current = ''1.3.6.1.4.1.1718.4.1.4.3.1.3.1.1.1''"

lemma parse_current: "parse_oid show_current = Some OID_INPUT_CURRENT"
  by (simp add: show_current_def parse_oid_def OID_INPUT_CURRENT_def parse_uint_def digit_of_def Let_def)

theorem snmp_client_writes_stick_witness:
  "answer (oid_values (snmp_run [PutOids (Some [(show_current, 42)]), Drift, Drift] snmp_init)) False
     OID_INPUT_CURRENT = (OID_INPUT_CURRENT, Some 42)"
  using snmp_client_writes_stick [of OID_INPUT_CURRENT snmp_init
      "[PutOids (Some [(show_current, 42)]), Drift, Drift]"]
  by (simp add: input_current [symmetric] put_one [OF parse_current] is_raritan_def OID_INPUT_CURRENT_def
      del: put_by.simps(2))

text \<open>C33: After every simulator tick the Raritan view is the mirror of the Sentry4 readings:
  pole currents are ten times the line currents, pole voltages the converted phase
  voltages, the inlet power the cord's, whoever drives any of these OIDs.\<close>

theorem raritan_view_in_step:
  assumes "p \<in> {1, 2, 3}"
  shows "let v = map_of (oid_values (drift s)) in
    (\<forall>c. v (sentry4 4 [p]) = Some c \<longrightarrow> v (pole p RMS_CURRENT) = Some (c * 10))
    \<and> (\<forall>d. v (sentry4 5 [p]) = Some d \<longrightarrow> v (pole p RMS_VOLTAGE) = Some (line_volts d))
    \<and> (\<forall>w. v (sentry4 3 []) = Some w \<longrightarrow> v inlet_power = Some w)"
  using mirror_lookup [OF assms(1)]
  by (simp add: drift_def Let_def map_extend_mirror_lookup mirror_other)

theorem raritan_view_in_step_witness:
  "map_of (oid_values (drift (fst (put_oids (Some []) snmp_init)))) (pole 2 RMS_CURRENT) = Some 15200"
proof -
  have i: "map_of initial_values (sentry4 4 [2]) = Some 1520"
    by (simp add: initial_values_def map_extend_mirror_lookup mirror_other)
      (simp add: sentry4_and_switch_def map_extend_lookup sentry4_def)
  have "map_of (oid_values (drift snmp_init)) (sentry4 4 [2]) = Some 1520"
    using i by (simp add: drift_def snmp_init_def Let_def map_extend_mirror_lookup mirror_other
        snmp_tick_def snmp_simulator_def tick_oid_lookup input_current)
  then show ?thesis
    using raritan_view_in_step [of 2 snmp_init] by (simp add: put_oids_def Let_def)
qed

text \<open>C24: A batch is applied as a whole or not at all: one malformed OID rejects it with 422 and
  no change; otherwise every entry is stored and driven, the last one of an OID winning.\<close>

theorem put_oids_all_or_nothing:
  "((\<exists>kv\<in>set kvs. parse_oid (fst kv) = None) \<longrightarrow> put_oids (Some kvs) s = (s, UNPROCESSABLE_ENTITY))
   \<and> ((\<forall>kv\<in>set kvs. parse_oid (fst kv) \<noteq> None) \<longrightarrow>
       (let parsed = map (\<lambda>kv. (the (parse_oid (fst kv)), snd kv)) kvs; s' = fst (put_oids (Some kvs) s) in
        snd (put_oids (Some kvs) s) = NO_CONTENT
        \<and> oid_driven s' = oid_driven s \<union> fst ` set parsed
        \<and> (\<forall>k. map_of (oid_values s') k =
             (case map_of (rev parsed) k of None \<Rightarrow> map_of (oid_values s) k | Some v \<Rightarrow> Some v))))"
proof -
  have "parse_batch kvs = (if \<exists>kv\<in>set kvs. parse_oid (fst kv) = None then None
      else Some (map (\<lambda>kv. (the (parse_oid (fst kv)), snd kv)) kvs))"
    by (induction kvs) (auto split: option.split)
  then show ?thesis
    by (auto simp: put_oids_def fold_drive_oid map_extend_lookup Let_def)
qed

theorem put_oids_all_or_nothing_witness:
  "put_oids (Some [(show_current, 7), (''1.x'', 8)]) snmp_init = (snmp_init, UNPROCESSABLE_ENTITY)"
  using put_oids_all_or_nothing [of "[(show_current, 7), (''1.x'', 8)]" snmp_init]
  by (simp add: parse_oid_def parse_uint_def digit_of_def Let_def)

text \<open>Dotted notation.\<close>

fun show_oid :: "oid \<Rightarrow> string" where
  "show_oid [] = []"
| "show_oid [x] = show_nat (unat x)"
| "show_oid (x # y # r) = show_nat (unat x) @ CHR ''.'' # show_oid (y # r)"

lemma dot_not_digit: "CHR ''.'' \<notin> set (show_nat n)"
  by (rule show_nat_notin) simp

lemma parse_show_component: "parse_uint 32 (show_nat (unat (x :: u32))) = Some (unat x)"
proof (rule parse_show_uint)
  have "unat x < 2 ^ LENGTH(32)" by (rule unsigned_less)
  then show "unat x < 2 ^ 32" by simp
qed

text \<open>C34: The dotted form of an OID parses back to it.\<close>

theorem parse_oid_round_trip:
  assumes "oid \<noteq> []"
  shows "parse_oid (show_oid oid) = Some oid"
  using assms unfolding parse_oid_def
proof (induction oid rule: show_oid.induct)
  case (2 x)
  then show ?case by (simp add: split_on_plain dot_not_digit parse_show_component)
next
  case (3 x y r)
  then show ?case by (simp add: split_on_append dot_not_digit parse_show_component)
qed simp

theorem parse_oid_round_trip_witness:
  "parse_oid (show_oid OID_INPUT_CURRENT) = Some OID_INPUT_CURRENT"
  by (rule parse_oid_round_trip) (simp add: OID_INPUT_CURRENT_def)

subsection \<open>The drifting current\<close>

definition current_saw :: int_sawtooth where
  "current_saw = hd snmp_simulator"

lemma current_saw_simps [simp]:
  "saw_oid current_saw = OID_INPUT_CURRENT" "saw_lo current_saw = 1500" "saw_hi current_saw = 1600"
  "saw_inc current_saw = 5" "snmp_simulator = [current_saw]"
  by (simp_all add: current_saw_def snmp_simulator_def)

lemma current_next:
  assumes "v \<le> 1600"
  shows "next_int current_saw v = (if v \<le> 1595 then v + 5 else 1500)"
    and "unat (next_int current_saw v) = (if v \<le> 1595 then unat v + 5 else 1500)"
proof -
  have u: "unat v \<le> 1600" using assms by (simp add: word_le_nat_alt)
  then have s: "unat (v + 5) = unat v + 5" by (subst unat_add_lem [THEN iffD1]) simp_all
  have "uint v = int (unat v)" by simp
  then have "uint v \<le> 1600" using u by linarith
  then have i: "sint (v + 5) = int (unat v) + 5"
    using sint_of_int_64 [of "int (unat (v + 5))"] u s by simp
  show eq: "next_int current_saw v = (if v \<le> 1595 then v + 5 else 1500)"
    by (simp add: next_int_def i word_le_def)
  show "unat (next_int current_saw v) = (if v \<le> 1595 then unat v + 5 else 1500)"
    by (simp add: eq s)
qed

interpretation cur: sawtooth "next_int current_saw" "1500" "1600" "\<lambda>v. 1600 - unat v"
proof
  show "(1500 :: i64) \<le> 1600" by simp
next
  fix x :: i64
  assume x: "1500 \<le> x" "x \<le> 1600"
  show "next_int current_saw x = 1500 \<or> x < next_int current_saw x \<and> next_int current_saw x \<le> 1600
      \<and> 1600 - unat (next_int current_saw x) < 1600 - unat x"
    using current_next [OF x(2)] x(2) by (auto simp: word_less_nat_alt word_le_nat_alt)
qed

lemma current_wave: "unat ((next_int current_saw ^^ n) 1500) = 1500 + 5 * (n mod 21)"
proof (induction n)
  case 0 then show ?case by simp
next
  case (Suc n)
  let ?v = "(next_int current_saw ^^ n) 1500"
  have le: "?v \<le> 1600" using cur.iterate_in_band [of 1500 n] by simp
  have "unat (next_int current_saw ?v) = (if n mod 21 \<le> 19 then unat ?v + 5 else 1500)"
    using current_next(2) [OF le] Suc by (simp add: word_le_nat_alt)
  also have "\<dots> = 1500 + 5 * (Suc n mod 21)"
    using Suc by (auto simp: mod_Suc not_le)
  finally show ?case by simp
qed

lemma drift_current:
  "OID_INPUT_CURRENT \<notin> oid_driven s \<Longrightarrow> map_of (oid_values s) OID_INPUT_CURRENT = Some v \<Longrightarrow>
   map_of (oid_values (drift s)) OID_INPUT_CURRENT = Some (next_int current_saw v)"
  by (simp add: drift_def Let_def map_extend_mirror_lookup mirror_other snmp_tick_def tick_oid_lookup
      input_current)

lemma initial_lookup: "\<not> is_raritan k \<Longrightarrow> map_of initial_values k = map_of sentry4_and_switch k"
  by (simp add: initial_values_def map_extend_mirror_lookup mirror_other)

text \<open>Left alone, the L1 current is \<open>1500 + 5 * (n mod 21)\<close> hundredths of an ampere after
  \<open>n\<close> ticks from start-up: always between 15 and 16 A.\<close>

theorem current_sawtooth:
  "\<exists>v. map_of (oid_values (snmp_run (replicate n Drift) snmp_init)) OID_INPUT_CURRENT = Some v
     \<and> unat v = 1500 + 5 * (n mod 21)"
proof -
  have "map_of (oid_values (snmp_run (replicate n Drift) s)) OID_INPUT_CURRENT
      = Some ((next_int current_saw ^^ n) v)"
    if "OID_INPUT_CURRENT \<notin> oid_driven s" "map_of (oid_values s) OID_INPUT_CURRENT = Some v" for s v
    using that
  proof (induction n arbitrary: s v)
    case (Suc n)
    from Suc.IH [OF _ drift_current [OF Suc.prems]] Suc.prems(1) show ?case
      by (simp add: snmp_run_def funpow_swap1 drift_def Let_def)
  qed (simp add: snmp_run_def)
  moreover have "map_of (oid_values snmp_init) OID_INPUT_CURRENT = Some 1500"
    by (simp add: snmp_init_def initial_lookup input_current)
      (simp add: sentry4_and_switch_def map_extend_lookup sentry4_def)
  moreover have "OID_INPUT_CURRENT \<notin> oid_driven snmp_init" by (simp add: snmp_init_def)
  ultimately show ?thesis using current_wave by blast
qed

subsection \<open>Get and GetNext\<close>

text \<open>C21: A client that starts anywhere and asks GetNext with the last answer receives every
  OID of the view above its start exactly once, in lexicographic order, and then no
  further answer; the view's size bounds the number of requests.\<close>

theorem get_next_walk_visits_all:
  "walk (get_next m) (length m) start = sorted_list_of_set {k \<in> fst ` set m. start < k}
   \<and> (\<forall>k. get_next m k = None \<longleftrightarrow> (\<forall>j\<in>fst ` set m. j \<le> k))"
  using get_next_walk get_next_None by blast

theorem get_next_walk_visits_all_witness:
  "get_next [([1, 3], 5), ([1], 7 :: i64)] [1, 3] = None"
proof -
  have "\<forall>j\<in>fst ` set [([1, 3], 5), ([1], 7 :: i64)]. j \<le> [1, 3 :: u32]" by simp
  then show ?thesis using get_next_walk_visits_all [of "[([1, 3], 5), ([1], 7)]" "[]"] by blast
qed

text \<open>C22: A response keeps the request's id, reports no error, and answers the bindings one by
  one: a Get with the value under that very OID or \<open>noSuchInstance\<close>, a GetNext with the
  least larger OID and its value or \<open>endOfMibView\<close>.\<close>

theorem build_response_answers:
  assumes "build_response ok request m nx = Some p"
  shows "request_id p = request_id request \<and> error_status p = 0 \<and> error_index p = 0
    \<and> length (variable_bindings p) = length (variable_bindings request)
    \<and> (\<forall>i<length (variable_bindings request).
        let req = fst (variable_bindings request ! i) in
        variable_bindings p ! i =
          (if \<not> nx then (req, case map_of m req of Some v \<Rightarrow> IntegerValue (ucast v) | None \<Rightarrow> NoSuchInstance)
           else if \<exists>k\<in>fst ` set m. req < k
           then (let k = Min {k \<in> fst ` set m. req < k} in (k, IntegerValue (ucast (the (map_of m k)))))
           else (req, EndOfMibView)))"
proof -
  let ?rs = "map fst (variable_bindings request)"
  have nxt: "answer m True r = (if \<exists>k\<in>fst ` set m. r < k
      then (Min {k \<in> fst ` set m. r < k}, map_of m (Min {k \<in> fst ` set m. r < k})) else (r, None))"
    and some: "\<exists>k\<in>fst ` set m. r < k \<Longrightarrow> map_of m (Min {k \<in> fst ` set m. r < k}) \<noteq> None" for r
  proof -
    show "answer m True r = (if \<exists>k\<in>fst ` set m. r < k
      then (Min {k \<in> fst ` set m. r < k}, map_of m (Min {k \<in> fst ` set m. r < k})) else (r, None))"
    proof (cases "get_next m r")
      case None
      then show ?thesis using get_next_None [of m r] by (auto simp: answer_def not_less [symmetric])
    next
      case (Some k)
      have "Min {k \<in> fst ` set m. r < k} = k"
        using get_next_Some [OF Some] by (intro Min_eqI) auto
      then show ?thesis using Some get_next_Some(1,2) [OF Some] by (auto simp: answer_def)
    qed
    assume e: "\<exists>k\<in>fst ` set m. r < k"
    have "Min {k \<in> fst ` set m. r < k} \<in> {k \<in> fst ` set m. r < k}" using e by (intro Min_in) auto
    then show "map_of m (Min {k \<in> fst ` set m. r < k}) \<noteq> None" by (auto simp: map_of_eq_None_iff)
  qed
  obtain vbs where v: "respond_all ok m nx ?rs = Some vbs"
    and p: "p = \<lparr>request_id = request_id request, error_status = 0, error_index = 0, variable_bindings = vbs\<rparr>"
    using assms by (auto simp: build_response_def)
  have vbs: "vbs = map (\<lambda>r. (fst (answer m nx r), var_value_of nx (snd (answer m nx r)))) ?rs"
    using v by (simp add: respond_all_Some)
  have "(fst (answer m nx r), var_value_of nx (snd (answer m nx r))) =
      (if \<not> nx then (r, case map_of m r of Some v \<Rightarrow> IntegerValue (ucast v) | None \<Rightarrow> NoSuchInstance)
       else if \<exists>k\<in>fst ` set m. r < k
       then (let k = Min {k \<in> fst ` set m. r < k} in (k, IntegerValue (ucast (the (map_of m k)))))
       else (r, EndOfMibView))" for r
  proof (cases "nx \<and> (\<exists>k\<in>fst ` set m. r < k)")
    case True
    then obtain x where "map_of m (Min {k \<in> fst ` set m. r < k}) = Some x" using some [of r] by blast
    then show ?thesis using True nxt [of r] by (simp add: var_value_of_def Let_def)
  next
    case False
    then show ?thesis using nxt [of r]
      by (cases nx) (simp_all add: answer_def [of m False] var_value_of_def split: option.split)
  qed
  then show ?thesis by (simp add: p vbs Let_def)
qed

definition demo_request :: pdu where
  "demo_request = \<lparr>request_id = 77, error_status = 0, error_index = 0,
     variable_bindings = [([1, 3], Unspecified), ([9], Unspecified)]\<rparr>"

theorem build_response_answers_witness:
  "\<exists>p. build_response (\<lambda>_. True) demo_request [([1, 3], 5)] False = Some p \<and> request_id p = 77
     \<and> variable_bindings p ! 0 = ([1, 3], IntegerValue 5) \<and> variable_bindings p ! 1 = ([9], NoSuchInstance)"
proof -
  obtain p where p: "build_response (\<lambda>_. True) demo_request [([1, 3], 5)] False = Some p"
    using build_response_total [of "[([1, 3], 5)]" "\<lambda>_. True" demo_request] by blast
  from build_response_answers [OF p] have "request_id p = 77"
    "variable_bindings p ! 0 = ([1, 3], IntegerValue 5)" "variable_bindings p ! 1 = ([9], NoSuchInstance)"
    by (simp_all add: demo_request_def Let_def)
  with p show ?thesis by blast
qed

text \<open>The agent serves the raw 64-bit value faithfully exactly when it fits the 32 bits of
  an SNMP integer; any other value is truncated.\<close>

theorem served_integer_range:
  "(\<exists>w. var_value_of nx (Some v) = IntegerValue w \<and> sint w = sint v)
     \<longleftrightarrow> - (2 ^ 31) \<le> sint v \<and> sint v < 2 ^ 31"
proof
  assume "\<exists>w. var_value_of nx (Some v) = IntegerValue w \<and> sint w = sint v"
  then obtain w :: i32 where "sint w = sint v" by auto
  moreover have "- (2 ^ 31) \<le> sint w" "sint w < 2 ^ 31" using sint_ge [of w] sint_lt [of w] by simp_all
  ultimately show "- (2 ^ 31) \<le> sint v \<and> sint v < 2 ^ 31" by simp
next
  assume r: "- (2 ^ 31) \<le> sint v \<and> sint v < 2 ^ 31"
  have "ucast v = (word_of_int (sint v) :: i32)"
    by (rule bit_word_eqI) (simp add: bit_simps bit_sint_iff)
  then have "sint (ucast v :: i32) = sint v" using r sint_of_int_32 [of "sint v"] by simp
  then show "\<exists>w. var_value_of nx (Some v) = IntegerValue w \<and> sint w = sint v"
    by (simp add: var_value_of_def)
qed

text \<open>A well-formed Get or GetNext datagram whose OIDs are valid is answered by the encoding
  of the same version and community with the response to that request; any other PDU
  type is refused without an answer.\<close>

theorem handle_datagram_replies:
  assumes "decode datagram = Some msg" "\<And>r. encode (msg\<lparr>msg_data := Response r\<rparr>) \<noteq> None"
    and "\<And>k. k \<in> fst ` set m \<Longrightarrow> ok k"
    and "\<And>req b. msg_data msg = GetRequest req \<or> msg_data msg = GetNextRequest req \<Longrightarrow>
      b \<in> set (variable_bindings req) \<Longrightarrow> ok (fst b)"
  shows "case msg_data msg of
      GetRequest req \<Rightarrow> (\<exists>p bs. build_response ok req m False = Some p
        \<and> encode (msg\<lparr>msg_data := Response p\<rparr>) = Some bs
        \<and> handle_datagram ok decode encode datagram m = Some (Inr bs))
    | GetNextRequest req \<Rightarrow> (\<exists>p bs. build_response ok req m True = Some p
        \<and> encode (msg\<lparr>msg_data := Response p\<rparr>) = Some bs
        \<and> handle_datagram ok decode encode datagram m = Some (Inr bs))
    | _ \<Rightarrow> handle_datagram ok decode encode datagram m = Some (Inl UnsupportedPdu)"
proof -
  have tot: "\<exists>p bs. build_response ok req m nx = Some p \<and> encode (msg\<lparr>msg_data := Response p\<rparr>) = Some bs"
    if "msg_data msg = GetRequest req \<or> msg_data msg = GetNextRequest req" for req nx
  proof -
    have "\<exists>p. build_response ok req m nx = Some p"
      by (rule build_response_total [of m ok, OF assms(3) assms(4) [OF that]])
    then obtain p where "build_response ok req m nx = Some p" ..
    moreover obtain bs where "encode (msg\<lparr>msg_data := Response p\<rparr>) = Some bs" using assms(2) by blast
    ultimately show ?thesis by blast
  qed
  show ?thesis
  proof (cases "msg_data msg")
    case (GetRequest req)
    then obtain p bs where r: "build_response ok req m False = Some p" "encode (msg\<lparr>msg_data := Response p\<rparr>) = Some bs"
      using tot by blast
    then have "handle_datagram ok decode encode datagram m = Some (Inr bs)"
      by (simp add: handle_datagram_def assms(1) GetRequest Let_def)
    with r show ?thesis by (simp add: GetRequest)
  next
    case (GetNextRequest req)
    then obtain p bs where r: "build_response ok req m True = Some p" "encode (msg\<lparr>msg_data := Response p\<rparr>) = Some bs"
      using tot by blast
    then have "handle_datagram ok decode encode datagram m = Some (Inr bs)"
      by (simp add: handle_datagram_def assms(1) GetNextRequest Let_def)
    with r show ?thesis by (simp add: GetNextRequest)
  qed (use assms(1) in \<open>simp_all add: handle_datagram_def Let_def\<close>)
qed

theorem handle_datagram_replies_witness:
  "\<exists>bs. handle_datagram (\<lambda>_. True) (\<lambda>_. Some \<lparr>msg_version = 1, community = [112], msg_data = GetRequest demo_request\<rparr>)
     (\<lambda>_. Some [1, 2]) [0] [([1, 3], 5)] = Some (Inr bs)"
  using handle_datagram_replies [of "\<lambda>_. Some \<lparr>msg_version = 1, community = [112], msg_data = GetRequest demo_request\<rparr>"
      "[0]" "\<lparr>msg_version = 1, community = [112], msg_data = GetRequest demo_request\<rparr>" "\<lambda>_. Some [1, 2]"
      "[([1, 3], 5)]" "\<lambda>_. True"]
  by auto

text \<open>The version peek reads the version octet of every BER sequence with a definite length
  in short or long form whose first element is a one-octet integer.\<close>

theorem peek_reads_version:
  assumes "ber_length ls"
  shows "peek_snmp_version (0x30 # ls @ 2 # 1 # v # rest) = Some v"
  using assms by (rule peek_of_sequence)

theorem peek_reads_version_witness:
  "peek_snmp_version [0x30, 0x82, 1, 0, 2, 1, 3, 9] = Some 3"
  using peek_reads_version [of "[0x82, 1, 0]" 3 "[9]"] by (simp add: ber_length_def)

subsection \<open>Locks\<close>

text \<open>C14: However many handlers run at once and however they interleave, no reachable state is
  a deadlock: while a handler is unfinished some lock operation can proceed, no lock is
  ever held by two handlers, and every execution ends after at most the total number of
  operations, with all handlers finished and no lock held.\<close>

theorem snmp_locks_never_deadlock:
  assumes "set progs \<subseteq> handlers" "(lock_step ^^ n) (spawn progs) ts"
  shows "((\<exists>t\<in>set ts. fst t \<noteq> []) \<longrightarrow> (\<exists>ts'. lock_step ts ts'))
    \<and> (\<forall>i<length ts. \<forall>j<length ts. i \<noteq> j \<longrightarrow> snd (ts ! i) \<inter> snd (ts ! j) = {})
    \<and> n \<le> sum_list (map length progs)
    \<and> ((\<forall>t\<in>set ts. fst t = []) \<longrightarrow> (\<forall>t\<in>set ts. snd t = {}))"
proof -
  have "lock_step\<^sup>*\<^sup>* (spawn progs) ts" using assms(2) by (rule relpowp_imp_rtranclp)
  then have inv: "lock_inv ts" using lock_inv_spawn [OF assms(1)] by (rule lock_inv_run)
  have "snd t = {}" if "t \<in> set ts" "fst t = []" for t
    using inv that unfolding lock_inv_def by (cases t) auto
  moreover have "n \<le> ops_left (spawn progs)" using ops_left_run [OF assms(2)] by simp
  moreover have "ops_left (spawn progs) = sum_list (map length progs)"
    by (simp add: ops_left_def spawn_def comp_def)
  ultimately show ?thesis using inv lock_progress [OF inv] by (auto simp: lock_inv_def)
qed

theorem snmp_locks_never_deadlock_witness:
  "\<exists>ts'. lock_step (spawn [drift_locks, load_locks, v3_locks]) ts'"
proof -
  have "(lock_step ^^ 0) (spawn [drift_locks, load_locks, v3_locks]) (spawn [drift_locks, load_locks, v3_locks])"
    by simp
  from snmp_locks_never_deadlock [OF _ this] show ?thesis
    by (auto simp: handlers_def spawn_def drift_locks_def)
qed

subsection \<open>The load-following PDU\<close>

lemma readings_lookup:
  assumes "p \<in> {1, 2, 3}"
  shows "map_of (readings load nd m) (sentry4 3 []) = Some (as_i64 (fround (pdu_power_w load nd)))"
    and "map_of (readings load nd m) (sentry4 4 [p]) = Some (phase_current (pdu_power_w load nd) m p)"
    and "map_of (readings load nd m) inlet_power = Some (as_i64 (fround (pdu_power_w load nd)))"
    and "map_of (readings load nd m) (pole p RMS_CURRENT) = Some (phase_current (pdu_power_w load nd) m p * 10)"
  using assms
  by (auto simp: readings_def Let_def map_extend_mirror_lookup mirror_other mirror_lookup map_of_update)

lemma whole_num: "\<bar>k\<bar> < 2 ^ 53 \<Longrightarrow> frnd F64 (of_int k) = of_int k \<and> \<bar>of_int k :: rat\<bar> < huge F64"
  using bound_ok_of_int [of k F64] by (simp add: bound_ok_def on_grid_def)

lemma pdu_power_whole:
  assumes "load_nodes load = Num (of_int n)" "load_base_w load = Num (of_int b)"
    "load_share load = Num (of_int k)" "is_finite nd \<and> fval nd = of_int w"
    and "0 < k" "\<bar>n * w\<bar> < 2 ^ 53" "\<bar>n * w + b\<bar> < 2 ^ 53"
  shows "is_finite (pdu_power_w load nd)"
    "fval (pdu_power_w load nd) = frnd F64 (of_int (n * w + b) / of_int k)"
    "\<bar>fval (pdu_power_w load nd)\<bar> \<le> of_int (2 ^ 53)"
proof -
  let ?x = "of_int (n * w + b) / of_int k :: rat"
  have m: "is_finite (fmul F64 (load_nodes load) nd)" "fval (fmul F64 (load_nodes load) nd) = of_int (n * w)"
    using fmul_finite [of "load_nodes load" nd F64] whole_num [OF assms(6)] by (simp_all add: assms(1,4))
  have a: "is_finite (fadd F64 (fmul F64 (load_nodes load) nd) (load_base_w load))"
    "fval (fadd F64 (fmul F64 (load_nodes load) nd) (load_base_w load)) = of_int (n * w + b)"
    using fadd_finite [OF m(1), of "load_base_w load" F64] whole_num [OF assms(7)] by (simp_all add: m(2) assms(2))
  have k: "(1::rat) \<le> of_int k" using assms(5) by simp
  have "\<bar>of_int (n * w + b) :: rat\<bar> \<le> of_int (2 ^ 53)"
    using assms(7) by (simp only: of_int_le_iff flip: of_int_abs)
  then have "\<bar>?x\<bar> \<le> of_int (2 ^ 53)"
    using k by (auto simp: abs_divide divide_le_eq intro: order_trans mult_left_mono [of 1, simplified])
  then have x: "- of_int (2 ^ 53) \<le> ?x" "?x \<le> of_int (2 ^ 53)" by (simp_all only: abs_le_iff) linarith+
  have "on_grid (prec F64) (emin F64) (2 powi 53)"
    using rnd_powi2 [of "emin F64" 53 "prec F64"] emin_neg [of F64] by (simp add: on_grid_def)
  then have g: "bound_ok F64 (of_int (2 ^ 53))" by (simp add: bound_ok_def huge.simps power_int_def)
  then have g': "bound_ok F64 (- of_int (2 ^ 53))" by simp
  note r = frnd_between [OF x g' g]
  have d: "is_finite (fdiv F64 (fadd F64 (fmul F64 (load_nodes load) nd) (load_base_w load)) (load_share load))"
    "fval (fdiv F64 (fadd F64 (fmul F64 (load_nodes load) nd) (load_base_w load)) (load_share load)) = frnd F64 ?x"
    using fdiv_finite [OF a(1), of "load_share load" F64] r(3) assms(5) by (simp_all add: a(2) assms(3))
  show "is_finite (pdu_power_w load nd)" and e: "fval (pdu_power_w load nd) = frnd F64 ?x"
    using d by (simp_all only: pdu_power_w_def)
  show "\<bar>fval (pdu_power_w load nd)\<bar> \<le> of_int (2 ^ 53)"
    unfolding e using r(1,2) by (intro abs_leI) linarith+
qed

text \<open>For whole-number settings the PDU reports exactly its share of the load, rounded to
  a whole watt, on the Sentry4 cord and on the Raritan inlet alike, and every Raritan
  pole current is ten times the line current stored beside it.\<close>

lemma pdu_reports_its_share:
  assumes "load_nodes load = Num (of_int n)" "load_base_w load = Num (of_int b)"
    "load_share load = Num (of_int k)" "is_finite nd \<and> fval nd = of_int w"
    and "0 < k" "\<bar>n * w\<bar> < 2 ^ 53" "\<bar>n * w + b\<bar> < 2 ^ 53"
  shows "\<exists>v. map_of (readings load nd m) (sentry4 3 []) = Some v
    \<and> sint v = round_away (frnd F64 (of_int (n * w + b) / of_int k))
    \<and> map_of (readings load nd m) inlet_power = Some v
    \<and> (\<forall>p\<in>{1, 2, 3}. \<exists>c. map_of (readings load nd m) (sentry4 4 [p]) = Some c
         \<and> map_of (readings load nd m) (pole p RMS_CURRENT) = Some (c * 10))"
proof -
  note pw = pdu_power_whole [OF assms]
  have "- of_int (2 ^ 53) \<le> fval (pdu_power_w load nd)" "fval (pdu_power_w load nd) \<le> of_int (2 ^ 53)"
    using pw(3) by (simp_all only: abs_le_iff) linarith
  then have "- (2 ^ 53) \<le> round_away (fval (pdu_power_w load nd))
      \<and> round_away (fval (pdu_power_w load nd)) \<le> 2 ^ 53"
    using round_away_between [of "- (2 ^ 53)" "fval (pdu_power_w load nd)" "2 ^ 53"] by simp
  then have "sint (as_i64 (fround (pdu_power_w load nd))) = round_away (fval (pdu_power_w load nd))"
    using as_i64_fround [OF pw(1)] by simp
  then have "sint (as_i64 (fround (pdu_power_w load nd)))
      = round_away (frnd F64 (of_int (n * w + b) / of_int k))" by (simp only: pw(2))
  moreover have "(1 :: u32) \<in> {1, 2, 3}" by simp
  ultimately show ?thesis using readings_lookup(2,4) [of _ load nd m]
    readings_lookup(1,3) [of 1 load nd m] by blast
qed

end
