(* ===== verification/SnmpAtomic.thy ===== *)
theory SnmpAtomic
  imports SnmpLocks SnmpAgent
begin

text \<open>
  Why the handlers of mock-snmp-agent may be taken as atomic.  A handler is run statement by
  statement, any number of them interleaved, with nothing but the mutexes between them; the
  same handler is also run one critical section at a time.  The first machine refines
  the second, and the second produces the events of \<open>snmp_run\<close>.
\<close>

subsection \<open>Statements and critical sections\<close>

text \<open>What a task keeps for itself: the values it saw, and a map it has computed.\<close>

record task_view =
  snap :: oid_map
  computed :: oid_map

type_synonym effect = "task_view \<times> snmp_state \<Rightarrow> task_view \<times> snmp_state"

datatype micro = Lock lock | Unlock lock | Do effect

text \<open>A section reads the values, or holds the driven set and, from some point on, the values.\<close>

datatype critical =
    TakeAgent | DropAgent
  | Reading "task_view \<Rightarrow> oid_map \<Rightarrow> task_view"
  | Writing "effect list" "effect list"

definition reading :: "(task_view \<Rightarrow> oid_map \<Rightarrow> task_view) \<Rightarrow> effect" where
  "reading f = (\<lambda>(l, s). (f l (oid_values s), s))"

fun compile :: "critical list \<Rightarrow> micro list" where
  "compile [] = []"
| "compile (TakeAgent # cs) = Lock AgentLock # compile cs"
| "compile (DropAgent # cs) = Unlock AgentLock # compile cs"
| "compile (Reading f # cs) = Lock ValuesLock # Do (reading f) # Unlock ValuesLock # compile cs"
| "compile (Writing pre body # cs) = Lock DrivenLock # map Do pre @ Lock ValuesLock # map Do body
     @ Unlock ValuesLock # Unlock DrivenLock # compile cs"

definition perform :: "effect list \<Rightarrow> effect" where
  "perform fs x = fold (\<lambda>f. f) fs x"

text \<open>Before it takes the values a section leaves them alone.\<close>

primrec section_ok :: "critical \<Rightarrow> bool" where
  "section_ok TakeAgent \<longleftrightarrow> True"
| "section_ok DropAgent \<longleftrightarrow> True"
| "section_ok (Reading f) \<longleftrightarrow> True"
| "section_ok (Writing pre body) \<longleftrightarrow> (\<forall>f\<in>set pre. \<forall>x. oid_values (snd (f x)) = oid_values (snd x))"

subsection \<open>The two machines\<close>

type_synonym fine_task = "micro list \<times> lock set \<times> task_view"
type_synonym coarse_task = "critical list \<times> task_view"

abbreviation held :: "fine_task \<Rightarrow> lock set" where
  "held t \<equiv> fst (snd t)"

inductive fine_step :: "fine_task list \<times> snmp_state \<Rightarrow> fine_task list \<times> snmp_state \<Rightarrow> bool" where
  fine_lock: "i < length ts \<Longrightarrow> ts ! i = (Lock k # ops, H, l) \<Longrightarrow> (\<forall>t\<in>set ts. k \<notin> held t) \<Longrightarrow>
    fine_step (ts, s) (ts[i := (ops, insert k H, l)], s)"
| fine_unlock: "i < length ts \<Longrightarrow> ts ! i = (Unlock k # ops, H, l) \<Longrightarrow>
    fine_step (ts, s) (ts[i := (ops, H - {k}, l)], s)"
| fine_do: "i < length ts \<Longrightarrow> ts ! i = (Do f # ops, H, l) \<Longrightarrow> f (l, s) = (l', s') \<Longrightarrow>
    fine_step (ts, s) (ts[i := (ops, H, l')], s')"

inductive coarse_step :: "coarse_task list \<times> snmp_state \<Rightarrow> coarse_task list \<times> snmp_state \<Rightarrow> bool" where
  coarse_agent: "i < length us \<Longrightarrow> us ! i = (c # cs, l) \<Longrightarrow> c = TakeAgent \<or> c = DropAgent \<Longrightarrow>
    coarse_step (us, b) (us[i := (cs, l)], b)"
| coarse_read: "i < length us \<Longrightarrow> us ! i = (Reading f # cs, l) \<Longrightarrow>
    coarse_step (us, b) (us[i := (cs, f l (oid_values b))], b)"
| coarse_write: "i < length us \<Longrightarrow> us ! i = (Writing pre body # cs, l) \<Longrightarrow>
    perform (pre @ body) (l, b) = (l', b') \<Longrightarrow> coarse_step (us, b) (us[i := (cs, l')], b')"

subsection \<open>The refinement relation\<close>

text \<open>
  Where a task is in its program, against the sections it still has to do: the state \<open>b\<close> of
  the coarse machine is the one without the effects of the section in progress.
\<close>

inductive tracks :: "snmp_state \<Rightarrow> snmp_state \<Rightarrow> fine_task \<Rightarrow> coarse_task \<Rightarrow> bool" for b s where
  between: "DrivenLock \<notin> H \<Longrightarrow> ValuesLock \<notin> H \<Longrightarrow> list_all section_ok cs \<Longrightarrow>
    tracks b s (compile cs, H, l) (cs, l)"
| before_read: "DrivenLock \<notin> H \<Longrightarrow> ValuesLock \<in> H \<Longrightarrow> list_all section_ok cs \<Longrightarrow>
    tracks b s (Do (reading f) # Unlock ValuesLock # compile cs, H, l) (Reading f # cs, l)"
| after_read: "DrivenLock \<notin> H \<Longrightarrow> ValuesLock \<in> H \<Longrightarrow> list_all section_ok cs \<Longrightarrow>
    tracks b s (Unlock ValuesLock # compile cs, H, l) (cs, l)"
| before_values: "DrivenLock \<in> H \<Longrightarrow> ValuesLock \<notin> H \<Longrightarrow> list_all section_ok cs \<Longrightarrow>
    section_ok (Writing fs gs) \<Longrightarrow> oid_values s = oid_values b \<Longrightarrow>
    perform (fs @ gs) (l, s) = perform (pre @ body) (l0, b) \<Longrightarrow>
    tracks b s (map Do fs @ Lock ValuesLock # map Do gs @ Unlock ValuesLock # Unlock DrivenLock # compile cs, H, l)
      (Writing pre body # cs, l0)"
| in_body: "DrivenLock \<in> H \<Longrightarrow> ValuesLock \<in> H \<Longrightarrow> list_all section_ok cs \<Longrightarrow>
    perform gs (l, s) = perform (pre @ body) (l0, b) \<Longrightarrow>
    tracks b s (map Do gs @ Unlock ValuesLock # Unlock DrivenLock # compile cs, H, l) (Writing pre body # cs, l0)"
| after_write: "DrivenLock \<in> H \<Longrightarrow> ValuesLock \<notin> H \<Longrightarrow> list_all section_ok cs \<Longrightarrow> s = b \<Longrightarrow>
    tracks b s (Unlock DrivenLock # compile cs, H, l) (cs, l)"

definition refines :: "fine_task list \<times> snmp_state \<Rightarrow> coarse_task list \<times> snmp_state \<Rightarrow> bool" where
  "refines x y = (case x of (ts, s) \<Rightarrow> case y of (us, b) \<Rightarrow>
     length us = length ts
   \<and> (\<forall>i<length ts. tracks b s (ts ! i) (us ! i))
   \<and> (\<forall>i<length ts. \<forall>j<length ts. i \<noteq> j \<longrightarrow> held (ts ! i) \<inter> held (ts ! j) = {})
   \<and> ((\<forall>t\<in>set ts. DrivenLock \<notin> held t) \<longrightarrow> s = b))"

lemma tracks_frame: "tracks b s t u \<Longrightarrow> DrivenLock \<notin> held t \<Longrightarrow> tracks b' s' t u"
  by (induction rule: tracks.induct) (auto intro: tracks.intros)

text \<open>Whoever holds the driven set and not the values has not touched the values yet, or is done.\<close>

lemma tracks_values: "tracks b s t u \<Longrightarrow> DrivenLock \<in> held t \<Longrightarrow> ValuesLock \<notin> held t \<Longrightarrow> oid_values s = oid_values b"
  by (induction rule: tracks.induct) auto

text \<open>One task moves.  The state may change under the driven lock only.\<close>

lemma refines_update:
  assumes r: "refines (ts, s) (us, b)" and i: "i < length ts"
    and t: "tracks b' s' t u"
    and excl: "\<And>j. j < length ts \<Longrightarrow> j \<noteq> i \<Longrightarrow> held (ts ! j) \<inter> held t = {}"
    and own: "s' = s \<and> b' = b \<or> DrivenLock \<in> held (ts ! i)"
    and rel: "DrivenLock \<in> held (ts ! i) \<Longrightarrow> DrivenLock \<notin> held t \<Longrightarrow> s' = b'"
  shows "refines (ts[i := t], s') (us[i := u], b')"
proof -
  have old: "length us = length ts" "\<And>j. j < length ts \<Longrightarrow> tracks b s (ts ! j) (us ! j)"
    "\<And>j k. j < length ts \<Longrightarrow> k < length ts \<Longrightarrow> j \<noteq> k \<Longrightarrow> held (ts ! j) \<inter> held (ts ! k) = {}"
    "(\<forall>t\<in>set ts. DrivenLock \<notin> held t) \<Longrightarrow> s = b"
    using r by (auto simp: refines_def)
  have "tracks b' s' (ts[i := t] ! j) (us[i := u] ! j)" if j: "j < length ts" for j
  proof (cases "j = i")
    case False
    show ?thesis
    proof (cases "DrivenLock \<in> held (ts ! i)")
      case True
      then have "DrivenLock \<notin> held (ts ! j)" using old(3) [OF j i False] by auto
      then show ?thesis using tracks_frame old(2) [OF j] False by simp
    qed (use own old(2) [OF j] False in auto)
  qed (use t i old(1) in simp)
  moreover have "held (ts[i := t] ! j) \<inter> held (ts[i := t] ! k) = {}" if "j < length ts" "k < length ts" "j \<noteq> k" for j k
    using that old(3) [OF that] excl [of j] excl [of k] i by (cases "j = i"; cases "k = i") auto
  moreover have "s' = b'" if none: "\<forall>t'\<in>set (ts[i := t]). DrivenLock \<notin> held t'"
  proof (cases "DrivenLock \<in> held (ts ! i)")
    case True
    have "DrivenLock \<notin> held t" using none i set_update_memI [OF i, of t] by blast
    then show ?thesis using rel True by blast
  next
    case False
    have "DrivenLock \<notin> held t'" if "t' \<in> set ts" for t'
    proof -
      obtain j where j: "j < length ts" "ts ! j = t'" using \<open>t' \<in> set ts\<close> by (auto simp: in_set_conv_nth)
      show ?thesis
      proof (cases "j = i")
        case ne: False
        then have "ts[i := t] ! j = t'" "j < length (ts[i := t])" using j by simp_all
        then show ?thesis using none nth_mem by metis
      qed (use False j in simp)
    qed
    then show ?thesis using own old(4) False by blast
  qed
  ultimately show ?thesis using old(1) unfolding refines_def by simp
qed

lemma refinesD:
  assumes "refines (ts, s) (us, b)" "i < length ts"
  shows "length us = length ts" "tracks b s (ts ! i) (us ! i)"
    "j < length ts \<Longrightarrow> j \<noteq> i \<Longrightarrow> held (ts ! j) \<inter> held (ts ! i) = {}"
  using assms by (auto simp: refines_def)

text \<open>A reader that holds the values sees what the coarse machine has.\<close>

lemma refines_values:
  assumes r: "refines (ts, s) (us, b)" and i: "i < length ts" "ValuesLock \<in> held (ts ! i)" "DrivenLock \<notin> held (ts ! i)"
  shows "oid_values s = oid_values b"
proof (cases "\<forall>t\<in>set ts. DrivenLock \<notin> held t")
  case True
  then show ?thesis using r by (simp add: refines_def)
next
  case False
  then obtain j where j: "j < length ts" "DrivenLock \<in> held (ts ! j)" by (auto simp: in_set_conv_nth)
  then have "ValuesLock \<notin> held (ts ! j)" using refinesD(3) [OF r i(1) j(1)] i(2,3) by auto
  with refinesD(2) [OF r j(1)] j(2) show ?thesis by (rule tracks_values)
qed

subsection \<open>Simulation\<close>

lemma perform_simps [simp]: "perform [] x = x" "perform (f # fs) x = perform fs (f x)"
  by (simp_all add: perform_def)

lemma compile_lock:
  assumes "compile cs = Lock k # ops"
  obtains cs' where "cs = TakeAgent # cs'" "k = AgentLock" "ops = compile cs'"
  | f cs' where "cs = Reading f # cs'" "k = ValuesLock" "ops = Do (reading f) # Unlock ValuesLock # compile cs'"
  | pre body cs' where "cs = Writing pre body # cs'" "k = DrivenLock"
      "ops = map Do pre @ Lock ValuesLock # map Do body @ Unlock ValuesLock # Unlock DrivenLock # compile cs'"
  using assms by (cases cs rule: compile.cases) auto

lemma compile_unlock:
  assumes "compile cs = Unlock k # ops"
  obtains cs' where "cs = DropAgent # cs'" "k = AgentLock" "ops = compile cs'"
  using assms by (cases cs rule: compile.cases) auto

lemma compile_do: "compile cs \<noteq> Do f # ops"
  by (cases cs rule: compile.cases) auto

text \<open>The coarse machine does one section, or waits.\<close>

definition coarse_stutter :: "coarse_task list \<times> snmp_state \<Rightarrow> coarse_task list \<times> snmp_state \<Rightarrow> bool" where
  "coarse_stutter y y' \<longleftrightarrow> y' = y \<or> coarse_step y y'"

text \<open>The fine task moves on while the coarse one waits.\<close>

lemma refines_stutter:
  assumes r: "refines (ts, s) (us, b)" and i: "i < length ts" and t: "tracks b s' t (us ! i)"
    and "\<And>j. j < length ts \<Longrightarrow> j \<noteq> i \<Longrightarrow> held (ts ! j) \<inter> held t = {}"
    and "s' = s \<or> DrivenLock \<in> held (ts ! i)" and "DrivenLock \<in> held (ts ! i) \<Longrightarrow> DrivenLock \<notin> held t \<Longrightarrow> s' = b"
  shows "\<exists>y'. coarse_stutter (us, b) y' \<and> refines (ts[i := t], s') y'"
proof -
  have "refines (ts[i := t], s') (us[i := us ! i], b)"
    using assms by (intro refines_update [OF r i t]) auto
  then show ?thesis by (auto simp: coarse_stutter_def)
qed

lemma refines_lock:
  assumes r: "refines (ts, s) (us, b)" and i: "i < length ts" "ts ! i = (Lock k # ops, H, l)"
    and free: "\<forall>t\<in>set ts. k \<notin> held t"
  shows "\<exists>y'. coarse_stutter (us, b) y' \<and> refines (ts[i := (ops, insert k H, l)], s) y'"
proof -
  note d = refinesD [OF r i(1)]
  have excl: "held (ts ! j) \<inter> insert k H = {}" if "j < length ts" "j \<noteq> i" for j
    using d(3) [OF that] free nth_mem [OF that(1)] i(2) by auto
  have ui: "i < length us" using d(1) i(1) by simp
  from d(2) [unfolded i(2)] show ?thesis
  proof (cases rule: tracks.cases)
    case (between cs)
    from \<open>Lock k # ops = compile cs\<close> [symmetric] show ?thesis
    proof (cases rule: compile_lock)
      case (1 cs')
      have "tracks b s (ops, insert k H, l) (cs', l)" using between 1 by (auto intro: tracks.intros)
      then have "refines (ts[i := (ops, insert k H, l)], s) (us[i := (cs', l)], b)"
        using excl i(2) between by (intro refines_update [OF r i(1)]) auto
      moreover have "coarse_step (us, b) (us[i := (cs', l)], b)"
        using ui between 1 by (intro coarse_agent) auto
      ultimately show ?thesis by (auto simp: coarse_stutter_def)
    next
      case (2 f cs')
      have "tracks b s (ops, insert k H, l) (us ! i)" using between 2 by (auto intro: tracks.intros)
      then show ?thesis using excl i(2) between by (intro refines_stutter [OF r i(1)]) auto
    next
      case (3 pre body cs')
      have "s = b" using r free 3 by (simp add: refines_def)
      then have "tracks b s (ops, insert k H, l) (us ! i)"
        using between 3 by (auto intro!: tracks.before_values)
      then show ?thesis using excl i(2) between by (intro refines_stutter [OF r i(1)]) auto
    qed
  next
    case (before_values cs fs gs pre body l0)
    then have "fs = []" by (cases fs) auto
    then have "tracks b s (ops, insert k H, l) (us ! i)" using before_values by (auto intro!: tracks.in_body)
    then show ?thesis using excl i(2) before_values by (intro refines_stutter [OF r i(1)]) auto
  next
    case (in_body cs gs pre body l0)
    then show ?thesis by (cases gs) auto
  qed
qed

lemma refines_unlock:
  assumes r: "refines (ts, s) (us, b)" and i: "i < length ts" "ts ! i = (Unlock k # ops, H, l)"
  shows "\<exists>y'. coarse_stutter (us, b) y' \<and> refines (ts[i := (ops, H - {k}, l)], s) y'"
proof -
  note d = refinesD [OF r i(1)]
  have excl: "held (ts ! j) \<inter> (H - {k}) = {}" if "j < length ts" "j \<noteq> i" for j
    using d(3) [OF that] i(2) by auto
  have ui: "i < length us" using d(1) i(1) by simp
  from d(2) [unfolded i(2)] show ?thesis
  proof (cases rule: tracks.cases)
    case (between cs)
    from \<open>Unlock k # ops = compile cs\<close> [symmetric] obtain cs' where
      c: "cs = DropAgent # cs'" "k = AgentLock" "ops = compile cs'" by (rule compile_unlock)
    have "tracks b s (ops, H - {k}, l) (cs', l)" using between c by (auto intro: tracks.intros)
    then have "refines (ts[i := (ops, H - {k}, l)], s) (us[i := (cs', l)], b)"
      using excl i(2) between by (intro refines_update [OF r i(1)]) auto
    moreover have "coarse_step (us, b) (us[i := (cs', l)], b)"
      using ui between c by (intro coarse_agent) auto
    ultimately show ?thesis by (auto simp: coarse_stutter_def)
  next
    case (after_read cs)
    then have "tracks b s (ops, H - {k}, l) (us ! i)" by (auto intro!: tracks.between)
    then show ?thesis using excl i(2) after_read by (intro refines_stutter [OF r i(1)]) auto
  next
    case (before_values cs fs gs pre body l0)
    then show ?thesis by (cases fs) auto
  next
    case (in_body cs gs pre body l0)
    then have gs: "gs = []" by (cases gs) auto
    have "coarse_step (us, b) (us[i := (cs, l)], s)"
      using ui in_body gs by (intro coarse_write) auto
    moreover have "tracks s s (ops, H - {k}, l) (cs, l)"
      using in_body gs by (auto intro!: tracks.after_write)
    then have "refines (ts[i := (ops, H - {k}, l)], s) (us[i := (cs, l)], s)"
      using excl i(2) in_body by (intro refines_update [OF r i(1)]) auto
    ultimately show ?thesis by (auto simp: coarse_stutter_def)
  next
    case (after_write cs)
    then have "tracks b s (ops, H - {k}, l) (us ! i)" by (auto intro!: tracks.between)
    then show ?thesis using excl i(2) after_write by (intro refines_stutter [OF r i(1)]) auto
  qed
qed

lemma refines_do:
  assumes r: "refines (ts, s) (us, b)" and i: "i < length ts" "ts ! i = (Do f # ops, H, l)"
    and f: "f (l, s) = (l', s')"
  shows "\<exists>y'. coarse_stutter (us, b) y' \<and> refines (ts[i := (ops, H, l')], s') y'"
proof -
  note d = refinesD [OF r i(1)]
  have excl: "held (ts ! j) \<inter> H = {}" if "j < length ts" "j \<noteq> i" for j
    using d(3) [OF that] i(2) by auto
  have ui: "i < length us" using d(1) i(1) by simp
  from d(2) [unfolded i(2)] show ?thesis
  proof (cases rule: tracks.cases)
    case (between cs)
    then show ?thesis using compile_do [of cs f ops] by simp
  next
    case (before_read cs g)
    then have v: "oid_values s = oid_values b" using i by (intro refines_values [OF r i(1)]) simp_all
    then have s: "s' = s" "l' = g l (oid_values b)" using f before_read by (auto simp: reading_def)
    have "tracks b s (ops, H, l') (cs, l')" using before_read by (auto intro!: tracks.after_read)
    then have "refines (ts[i := (ops, H, l')], s') (us[i := (cs, l')], b)"
      using excl i(2) s before_read by (intro refines_update [OF r i(1)]) auto
    moreover have "coarse_step (us, b) (us[i := (cs, l')], b)"
      unfolding s(2) using ui before_read by (intro coarse_read) auto
    ultimately show ?thesis by (auto simp: coarse_stutter_def)
  next
    case (before_values cs fs gs pre body l0)
    then obtain fs' where fs: "fs = f # fs'" by (cases fs) auto
    have "oid_values (snd (f (l, s))) = oid_values s" using before_values fs by simp
    then have "oid_values s' = oid_values b" using before_values f by simp
    moreover have "perform (fs' @ gs) (l', s') = perform (pre @ body) (l0, b)" using before_values fs f by simp
    ultimately have "tracks b s' (ops, H, l') (us ! i)"
      using before_values fs by (auto intro!: tracks.before_values)
    then show ?thesis using excl i(2) before_values by (intro refines_stutter [OF r i(1)]) auto
  next
    case (in_body cs gs pre body l0)
    then obtain gs' where gs: "gs = f # gs'" by (cases gs) auto
    have "perform gs' (l', s') = perform (pre @ body) (l0, b)" using in_body gs f by simp
    then have "tracks b s' (ops, H, l') (us ! i)" using in_body gs by (auto intro!: tracks.in_body)
    then show ?thesis using excl i(2) in_body by (intro refines_stutter [OF r i(1)]) auto
  qed
qed

lemma refines_step:
  assumes "fine_step x x'" "refines x y" shows "\<exists>y'. coarse_stutter y y' \<and> refines x' y'"
proof -
  obtain us b where y: "y = (us, b)" by (cases y)
  from assms(1) show ?thesis
  proof cases
    case (fine_lock i ts k ops H l s)
    then show ?thesis using refines_lock assms(2) by (simp add: y)
  next
    case (fine_unlock i ts k ops H l s)
    then show ?thesis using refines_unlock assms(2) by (simp add: y)
  next
    case (fine_do i ts f ops H l s l' s')
    then show ?thesis using refines_do assms(2) by (simp add: y)
  qed
qed

lemma refines_run: "fine_step\<^sup>*\<^sup>* x x' \<Longrightarrow> refines x y \<Longrightarrow> \<exists>y'. coarse_step\<^sup>*\<^sup>* y y' \<and> refines x' y'"
proof (induction rule: rtranclp_induct)
  case (step x' x'')
  then obtain y' where "coarse_step\<^sup>*\<^sup>* y y'" "refines x' y'" by blast
  with refines_step [OF step.hyps(2)] show ?case
    unfolding coarse_stutter_def by (metis rtranclp.rtrancl_into_rtrancl)
qed blast

definition fine_start :: "critical list list \<Rightarrow> task_view \<Rightarrow> snmp_state \<Rightarrow> fine_task list \<times> snmp_state" where
  "fine_start ps l s = (map (\<lambda>cs. (compile cs, {}, l)) ps, s)"

definition coarse_start :: "critical list list \<Rightarrow> task_view \<Rightarrow> snmp_state \<Rightarrow> coarse_task list \<times> snmp_state" where
  "coarse_start ps l s = (map (\<lambda>cs. (cs, l)) ps, s)"

lemma refines_start: "\<forall>cs\<in>set ps. list_all section_ok cs \<Longrightarrow> refines (fine_start ps l s) (coarse_start ps l s)"
  by (auto simp: refines_def fine_start_def coarse_start_def intro!: tracks.between)

text \<open>A finished fine run is a finished coarse run with the same state and the same views.\<close>

lemma refines_finished:
  assumes "refines (ts, s) (us, b)" "\<forall>t\<in>set ts. fst t = []"
  shows "s = b" "us = map (\<lambda>t. ([], snd (snd t))) ts"
proof -
  have k: "DrivenLock \<notin> held (ts ! i) \<and> us ! i = ([], snd (snd (ts ! i)))" if i: "i < length ts" for i
  proof -
    obtain H l where t: "ts ! i = ([], H, l)" using assms(2) nth_mem [OF i] by (cases "ts ! i") auto
    have c: "[] = compile cs \<Longrightarrow> cs = []" for cs by (cases cs rule: compile.cases) auto
    from refinesD(2) [OF assms(1) i] show ?thesis unfolding t by (cases rule: tracks.cases) (auto dest: c)
  qed
  then have "\<forall>t\<in>set ts. DrivenLock \<notin> held t" by (metis in_set_conv_nth)
  then show "s = b" using assms(1) by (simp add: refines_def)
  show "us = map (\<lambda>t. ([], snd (snd t))) ts"
    using k assms(1) by (intro nth_equalityI) (auto simp: refines_def)
qed

end
