(* ===== verification/SnmpTasks.thy ===== *)
theory SnmpTasks
  imports SnmpAtomic
begin

text \<open>
  The handlers of mock-snmp-agent as programs of \<open>SnmpAtomic\<close>: their statements under the
  mutexes, the locks they take, and the events their sections amount to.
\<close>

datatype snmp_task =
    DriftTask
  | PutTask "(string \<times> i64) list option"
  | LoadTask pdu_load fp
  | GetTask
  | DiscoveryTask
  | V3Task

subsection \<open>The programs\<close>

text \<open>\<open>sim.tick\<close>, one channel at a time, then the mirror is computed and stored (main.rs).\<close>

definition drift_body :: "effect list" where
  "drift_body = map (\<lambda>c (l, s). (l, s\<lparr>oid_values := tick_oid (oid_driven s) c (oid_values s)\<rparr>)) snmp_simulator
     @ [\<lambda>(l, s). (l\<lparr>computed := mirror (oid_values s)\<rparr>, s),
        \<lambda>(l, s). (l, s\<lparr>oid_values := map_extend (oid_values s) (computed l)\<rparr>)]"

text \<open>The loop of \<open>put_oids\<close>: the value, then the driven mark, entry by entry (control.rs).\<close>

definition put_entry :: "oid \<times> i64 \<Rightarrow> effect list" where
  "put_entry kv =
     [\<lambda>(l, s). (l, s\<lparr>oid_values := AList.update (fst kv) (snd kv) (oid_values s)\<rparr>),
      \<lambda>(l, s). (l, s\<lparr>oid_driven := insert (fst kv) (oid_driven s)\<rparr>)]"

text \<open>\<open>readings\<close> under the value lock alone; \<open>store\<close> marks before it takes the values (pdu_load.rs).\<close>

definition see_load :: "pdu_load \<Rightarrow> fp \<Rightarrow> task_view \<Rightarrow> oid_map \<Rightarrow> task_view" where
  "see_load load nd l v = l\<lparr>snap := v, computed := readings load nd v\<rparr>"

definition store_section :: critical where
  "store_section = Writing
     [\<lambda>(l, s). (l, s\<lparr>oid_driven := oid_driven s \<union> fst ` set (computed l)\<rparr>)]
     [\<lambda>(l, s). (l, s\<lparr>oid_values := map_extend (oid_values s) (computed l)\<rparr>)]"

definition see_values :: "task_view \<Rightarrow> oid_map \<Rightarrow> task_view" where
  "see_values l v = l\<lparr>snap := v\<rparr>"

fun sections_of :: "snmp_task \<Rightarrow> critical list" where
  "sections_of DriftTask = [Writing [] drift_body]"
| "sections_of (PutTask None) = []"
| "sections_of (PutTask (Some kvs)) =
     (case parse_batch kvs of None \<Rightarrow> [] | Some parsed \<Rightarrow> [Writing [] (concat (map put_entry parsed))])"
| "sections_of (LoadTask load nd) = [Reading (see_load load nd), store_section]"
| "sections_of GetTask = [Reading see_values]"
| "sections_of DiscoveryTask = [TakeAgent, DropAgent]"
| "sections_of V3Task = [TakeAgent, Reading see_values, DropAgent]"

text \<open>Their lock operations are the ones of \<open>SnmpLocks\<close>.\<close>

fun lock_ops :: "micro list \<Rightarrow> lock_op list" where
  "lock_ops [] = []"
| "lock_ops (Lock k # ops) = Acquire k # lock_ops ops"
| "lock_ops (Unlock k # ops) = Release k # lock_ops ops"
| "lock_ops (Do f # ops) = lock_ops ops"

lemma lock_ops_dos: "lock_ops (map Do fs @ ops) = lock_ops ops"
  by (induction fs) simp_all

lemma locks_of_tasks:
  "lock_ops (compile (sections_of DriftTask)) = drift_locks"
  "parse_batch kvs \<noteq> None \<Longrightarrow> lock_ops (compile (sections_of (PutTask (Some kvs)))) = put_oids_locks"
  "lock_ops (compile (sections_of (LoadTask load nd))) = load_locks"
  "lock_ops (compile (sections_of GetTask)) = v2c_locks"
  "lock_ops (compile (sections_of DiscoveryTask)) = discovery_locks"
  "lock_ops (compile (sections_of V3Task)) = v3_locks"
  by (auto simp: drift_locks_def put_oids_locks_def load_locks_def store_locks_def v2c_locks_def
      discovery_locks_def v3_locks_def store_section_def lock_ops_dos)

lemma sections_ok: "list_all section_ok (sections_of t)"
  by (cases t rule: sections_of.cases) (simp_all add: store_section_def split: option.split)

subsection \<open>What a section amounts to\<close>

lemma perform_append: "perform (fs @ gs) x = perform gs (perform fs x)"
  by (simp add: perform_def)

lemma perform_drift: "snd (perform drift_body (l, s)) = drift s"
proof -
  have "perform (map (\<lambda>c (l, s). (l, s\<lparr>oid_values := tick_oid (oid_driven s) c (oid_values s)\<rparr>)) cs) (l, s)
      = (l, s\<lparr>oid_values := snmp_tick cs (oid_values s) (oid_driven s)\<rparr>)" for cs
    by (induction cs arbitrary: s) (simp_all add: snmp_tick_def)
  then show ?thesis by (simp add: drift_body_def perform_append drift_def Let_def)
qed

lemma perform_puts: "snd (perform (concat (map put_entry kvs)) (l, s)) = fold drive_oid kvs s"
  by (induction kvs arbitrary: s) (simp_all add: put_entry_def drive_oid_def)

lemma perform_store:
  "snd (perform [\<lambda>(l, s). (l, s\<lparr>oid_driven := oid_driven s \<union> fst ` set (computed l)\<rparr>),
     \<lambda>(l, s). (l, s\<lparr>oid_values := map_extend (oid_values s) (computed l)\<rparr>)] (l, s)) = store (computed l) s"
  by (simp add: store_def Let_def)

text \<open>Which task an event belongs to, and the tasks that write at all.\<close>

primrec task_of :: "snmp_event \<Rightarrow> snmp_task" where
  "task_of Drift = DriftTask"
| "task_of (PutOids body) = PutTask body"
| "task_of (StoreLoad load nd seen) = LoadTask load nd"

definition is_writing :: "critical \<Rightarrow> bool" where
  "is_writing c = (case c of Writing _ _ \<Rightarrow> True | _ \<Rightarrow> False)"

definition writes :: "critical list \<Rightarrow> bool" where
  "writes cs \<longleftrightarrow> (\<exists>c\<in>set cs. is_writing c)"

text \<open>The value maps of the states along a run.\<close>

definition past :: "snmp_event list \<Rightarrow> snmp_state \<Rightarrow> oid_map set" where
  "past es s = {oid_values (snmp_run (take k es) s) | k. k \<le> length es}"

text \<open>Every load event used values the map really had, at that moment or before.\<close>

definition seen_before :: "snmp_event list \<Rightarrow> snmp_state \<Rightarrow> bool" where
  "seen_before es s \<longleftrightarrow> (\<forall>i<length es. \<forall>load nd seen. es ! i = StoreLoad load nd seen \<longrightarrow> seen \<in> past (take i es) s)"

lemma past_snoc: "v \<in> past es s \<Longrightarrow> v \<in> past (es @ [e]) s"
proof -
  assume "v \<in> past es s"
  then obtain k where "v = oid_values (snmp_run (take k es) s)" "k \<le> length es" by (auto simp: past_def)
  then show ?thesis by (auto simp: past_def intro!: exI [of _ k])
qed

lemma past_now: "oid_values (snmp_run es s) \<in> past es s"
  by (auto simp: past_def intro!: exI [of _ "length es"])

lemma seen_before_snoc:
  assumes "seen_before es s" "\<And>load nd seen. e = StoreLoad load nd seen \<Longrightarrow> seen \<in> past es s"
  shows "seen_before (es @ [e]) s"
  using assms by (auto simp: seen_before_def nth_append less_Suc_eq)

lemma snmp_run_snoc: "snmp_run (es @ [e]) s = snmp_step e (snmp_run es s)"
  by (simp add: snmp_run_def)

text \<open>Where a task of the coarse machine is.\<close>

definition stage_ok :: "oid_map set \<Rightarrow> snmp_task \<Rightarrow> coarse_task \<Rightarrow> bool" where
  "stage_ok vs h u \<longleftrightarrow> (\<exists>done_cs. sections_of h = done_cs @ fst u)
     \<and> (h \<in> {GetTask, V3Task} \<and> \<not> (\<exists>f. Reading f \<in> set (fst u)) \<longrightarrow> snap (snd u) \<in> vs)
     \<and> (\<forall>load nd. h = LoadTask load nd \<and> fst u = [store_section] \<longrightarrow>
          (\<exists>v\<in>vs. computed (snd u) = readings load nd v))"

definition performed :: "snmp_task \<Rightarrow> critical list \<Rightarrow> snmp_task multiset" where
  "performed h cs = (if writes (sections_of h) \<and> \<not> writes cs then {#h#} else {#})"

definition explained :: "snmp_task list \<Rightarrow> snmp_state \<Rightarrow> snmp_event list \<Rightarrow> coarse_task list \<times> snmp_state \<Rightarrow> bool" where
  "explained hs s0 es x = (case x of (us, b) \<Rightarrow> length us = length hs \<and> b = snmp_run es s0 \<and> seen_before es s0
     \<and> (\<forall>i<length hs. stage_ok (past es s0) (hs ! i) (us ! i))
     \<and> mset (map task_of es) = (\<Sum>i<length hs. performed (hs ! i) (fst (us ! i))))"

lemma stage_ok_mono: "stage_ok vs h u \<Longrightarrow> vs \<subseteq> ws \<Longrightarrow> stage_ok ws h u"
  unfolding stage_ok_def by blast

lemma sections_suffix:
  assumes "sections_of h = done_cs @ c # cs"
  shows "is_writing c \<Longrightarrow> cs = [] \<and> (\<forall>d\<in>set done_cs. \<not> is_writing d)"
  using assms
  by (cases h rule: sections_of.cases)
    (auto simp: is_writing_def store_section_def Cons_eq_append_conv append_eq_Cons_conv split: option.splits critical.splits)

lemma write_event:
  assumes "sections_of h = done_cs @ Writing pre body # cs" "stage_ok vs h (Writing pre body # cs, l)"
  shows "\<exists>e. task_of e = h \<and> (\<forall>s. snd (perform (pre @ body) (l, s)) = snmp_step e s)
    \<and> (\<forall>load nd seen. e = StoreLoad load nd seen \<longrightarrow> seen \<in> vs)"
proof (cases h rule: sections_of.cases)
  case 1
  then have "pre @ body = drift_body" using assms(1) by (auto simp: Cons_eq_append_conv)
  then show ?thesis using 1 by (intro exI [of _ Drift]) (simp add: perform_drift)
next
  case (3 kvs)
  then obtain parsed where "parse_batch kvs = Some parsed" "pre @ body = concat (map put_entry parsed)"
    using assms(1) by (auto simp: Cons_eq_append_conv split: option.splits)
  then show ?thesis using 3 by (intro exI [of _ "PutOids (Some kvs)"]) (simp add: perform_puts put_oids_def)
next
  case (4 load nd)
  then have s: "Writing pre body = store_section" "cs = []"
    using assms(1) by (auto simp: Cons_eq_append_conv)
  then obtain v where v: "v \<in> vs" "computed l = readings load nd v" using assms(2) 4 by (auto simp: stage_ok_def)
  have "snd (perform (pre @ body) (l, s)) = store (readings load nd v) s" for s
    using s(1) perform_store [of l s] by (simp add: store_section_def v(2))
  then show ?thesis using 4 v(1) by (intro exI [of _ "StoreLoad load nd v"]) simp
qed (use assms(1) in \<open>auto simp: Cons_eq_append_conv\<close>)

lemma performed_update:
  assumes "i < length hs" "length us = length hs"
  shows "(\<Sum>k<length hs. performed (hs ! k) (fst (us[i := u] ! k))) + performed (hs ! i) (fst (us ! i))
    = (\<Sum>k<length hs. performed (hs ! k) (fst (us ! k))) + performed (hs ! i) (fst u)"
proof -
  let ?I = "{..<length hs}"
  have "(\<Sum>k\<in>?I - {i}. performed (hs ! k) (fst (us[i := u] ! k))) = (\<Sum>k\<in>?I - {i}. performed (hs ! k) (fst (us ! k)))"
    by (rule sum.cong) auto
  then show ?thesis
    using assms sum.remove [of ?I i "\<lambda>k. performed (hs ! k) (fst (us[i := u] ! k))"]
      sum.remove [of ?I i "\<lambda>k. performed (hs ! k) (fst (us ! k))"] by (simp add: ac_simps)
qed

text \<open>A section that writes nothing leaves the explanation as it is.\<close>

lemma explained_quiet:
  assumes x: "explained hs s0 es (us, b)" and i: "i < length us" "us ! i = (c # cs, l)" "\<not> is_writing c"
    and st: "stage_ok (past es s0) (hs ! i) (cs, l')"
  shows "explained hs s0 es (us[i := (cs, l')], b)"
proof -
  have w: "performed (hs ! i) cs = performed (hs ! i) (c # cs)"
    using i(3) by (simp add: performed_def writes_def)
  have len: "length us = length hs" using x by (simp add: explained_def)
  have "stage_ok (past es s0) (hs ! j) (us[i := (cs, l')] ! j)" if "j < length hs" for j
    using x st that len by (cases "j = i") (auto simp: explained_def)
  then show ?thesis
    using x performed_update [of i hs us "(cs, l')"] i len w by (simp add: explained_def)
qed

lemma stage_ok_agent:
  assumes "stage_ok vs h (c # cs, l)" "c = TakeAgent \<or> c = DropAgent" shows "stage_ok vs h (cs, l)"
  using assms
  by (cases h rule: sections_of.cases)
    (auto simp: stage_ok_def Cons_eq_append_conv store_section_def split: option.splits)

lemma stage_ok_read:
  assumes "stage_ok vs h (Reading f # cs, l)" "v \<in> vs" shows "stage_ok vs h (cs, f l v)"
  using assms
  by (cases h rule: sections_of.cases)
    (auto simp: stage_ok_def Cons_eq_append_conv store_section_def see_load_def see_values_def split: option.splits)

lemma explained_step:
  assumes "coarse_step x x'" "explained hs s0 es x"
  shows "\<exists>es'. explained hs s0 es' x'"
  using assms(1)
proof cases
  case (coarse_agent i us c cs l b)
  have x: "explained hs s0 es (us, b)" using assms(2) coarse_agent(1) by simp
  have i: "i < length hs" using x coarse_agent(3) by (simp add: explained_def)
  have "stage_ok (past es s0) (hs ! i) (us ! i)" using x i by (simp add: explained_def)
  then have "stage_ok (past es s0) (hs ! i) (cs, l)"
    unfolding coarse_agent(4) using coarse_agent(5) by (rule stage_ok_agent)
  moreover have "\<not> is_writing c" using coarse_agent(5) by (auto simp: is_writing_def)
  ultimately show ?thesis unfolding coarse_agent(2)
    using explained_quiet [OF x coarse_agent(3,4)] by blast
next
  case (coarse_read i us f cs l b)
  have x: "explained hs s0 es (us, b)" using assms(2) coarse_read(1) by simp
  have i: "i < length hs" using x coarse_read(3) by (simp add: explained_def)
  have "stage_ok (past es s0) (hs ! i) (us ! i)" "oid_values b \<in> past es s0"
    using x i past_now by (simp_all add: explained_def)
  then have "stage_ok (past es s0) (hs ! i) (cs, f l (oid_values b))"
    unfolding coarse_read(4) by (rule stage_ok_read)
  then show ?thesis unfolding coarse_read(2)
    using explained_quiet [OF x coarse_read(3,4)] by (auto simp: is_writing_def)
next
  case (coarse_write i us pre body cs l b l' b')
  note x = assms(2) [unfolded coarse_write explained_def, simplified]
  have i: "i < length hs" using coarse_write x by simp
  then have st: "stage_ok (past es s0) (hs ! i) (Writing pre body # cs, l)" using coarse_write x by auto
  then obtain done_cs where d: "sections_of (hs ! i) = done_cs @ Writing pre body # cs" by (auto simp: stage_ok_def)
  obtain e where e: "task_of e = hs ! i" "\<And>s. snd (perform (pre @ body) (l, s)) = snmp_step e s"
    "\<And>load nd seen. e = StoreLoad load nd seen \<Longrightarrow> seen \<in> past es s0"
    using write_event [OF d st] by blast
  have cs: "cs = []" using sections_suffix [OF d] by (simp add: is_writing_def)
  have b': "b' = snmp_step e b" using e(2) [of b] coarse_write by simp
  have ws: "past es s0 \<subseteq> past (es @ [e]) s0" using past_snoc by blast
  have "stage_ok (past (es @ [e]) s0) (hs ! j) (us[i := (cs, l')] ! j)" if "j < length hs" for j
  proof (cases "j = i")
    case True
    have "stage_ok (past (es @ [e]) s0) (hs ! i) (cs, l')"
      using d cs by (cases "hs ! i" rule: sections_of.cases)
        (auto simp: stage_ok_def store_section_def Cons_eq_append_conv split: option.splits)
    then show ?thesis using True coarse_write by simp
  qed (use x that stage_ok_mono [OF _ ws] in simp)
  moreover have "performed (hs ! i) (Writing pre body # cs) = {#}" "performed (hs ! i) cs = {#hs ! i#}"
    using d cs by (auto simp: performed_def writes_def is_writing_def)
  then have "mset (map task_of (es @ [e])) = (\<Sum>k<length hs. performed (hs ! k) (fst (us[i := (cs, l')] ! k)))"
    using performed_update [of i hs us "(cs, l')"] i x coarse_write e(1) by simp
  ultimately have "explained hs s0 (es @ [e]) x'"
    using x coarse_write b' seen_before_snoc [OF _ e(3)] by (simp add: explained_def snmp_run_snoc)
  then show ?thesis ..
qed

lemma explained_run: "coarse_step\<^sup>*\<^sup>* x x' \<Longrightarrow> explained hs s0 es x \<Longrightarrow> \<exists>es'. explained hs s0 es' x'"
proof (induction rule: rtranclp_induct)
  case (step y z)
  then obtain es' where "explained hs s0 es' y" by blast
  with step.hyps(2) show ?case by (rule explained_step)
qed blast

definition start_view :: task_view where
  "start_view = \<lparr>snap = [], computed = []\<rparr>"

lemma explained_start:
  "explained hs s0 [] (coarse_start (map sections_of hs) start_view s0)"
proof -
  have "stage_ok vs h (sections_of h, l)" for vs h l
    by (cases h rule: sections_of.cases) (auto simp: stage_ok_def store_section_def)
  moreover have "performed h (sections_of h) = {#}" for h by (simp add: performed_def)
  ultimately show ?thesis
    by (simp add: explained_def coarse_start_def snmp_run_def seen_before_def)
qed

lemma sum_performed: "(\<Sum>i<length hs. performed (hs ! i) []) = mset (filter (\<lambda>h. writes (sections_of h)) hs)"
proof (induction hs rule: rev_induct)
  case (snoc h hs)
  have "(\<Sum>i<length hs. performed ((hs @ [h]) ! i) []) = (\<Sum>i<length hs. performed (hs ! i) [])"
    by (intro sum.cong) (simp_all add: nth_append)
  then show ?case using snoc by (simp add: performed_def writes_def)
qed simp

text \<open>The machine that runs the handlers statement by statement.\<close>

definition snmp_tasks :: "snmp_task list \<Rightarrow> snmp_state \<Rightarrow> fine_task list \<times> snmp_state" where
  "snmp_tasks hs s = fine_start (map sections_of hs) start_view s"

text \<open>C3: The handlers are atomic: however the statements of any number of simulator ticks, control
  writes, load readings and SNMP reads interleave under the mutexes, once they have finished
  the shared state is the one some sequence of whole events produces; the events are the
  tasks that write, each exactly once, a load event uses a value map that existed at an
  earlier point of the sequence, and what a reader saw is the map between two events,
  never a half-written batch.\<close>

theorem snmp_handlers_are_atomic:
  assumes "fine_step\<^sup>*\<^sup>* (snmp_tasks hs s0) (ts, s)" "\<forall>t\<in>set ts. fst t = []"
  shows "\<exists>es. s = snmp_run es s0 \<and> mset (map task_of es) = mset (filter (\<lambda>h. writes (sections_of h)) hs)
    \<and> seen_before es s0
    \<and> (\<forall>i<length hs. hs ! i \<in> {GetTask, V3Task} \<longrightarrow> snap (snd (snd (ts ! i))) \<in> past es s0)"
proof -
  have "refines (snmp_tasks hs s0) (coarse_start (map sections_of hs) start_view s0)"
    unfolding snmp_tasks_def by (rule refines_start) (auto simp: sections_ok)
  from refines_run [OF assms(1) this] obtain us b where
    y: "coarse_step\<^sup>*\<^sup>* (coarse_start (map sections_of hs) start_view s0) (us, b)" "refines (ts, s) (us, b)" by auto
  note fin = refines_finished [OF y(2) assms(2)]
  from explained_run [OF y(1) explained_start] obtain es where e: "explained hs s0 es (us, b)" by blast
  have us: "us ! i = ([], snd (snd (ts ! i)))" if "i < length hs" for i
    using e that fin(2) by (simp add: explained_def)
  have "(\<Sum>i<length hs. performed (hs ! i) (fst (us ! i))) = (\<Sum>i<length hs. performed (hs ! i) [])"
    using us by (intro sum.cong) auto
  also have "\<dots> = mset (filter (\<lambda>h. writes (sections_of h)) hs)"
    by (simp add: sum_performed)
  finally have "mset (map task_of es) = mset (filter (\<lambda>h. writes (sections_of h)) hs)" using e by (simp add: explained_def)
  moreover have "snap (snd (snd (ts ! i))) \<in> past es s0" if i: "i < length hs" "hs ! i \<in> {GetTask, V3Task}" for i
  proof -
    have "stage_ok (past es s0) (hs ! i) (us ! i)" using e i(1) by (simp add: explained_def)
    then show ?thesis using us [OF i(1)] i(2) by (auto simp: stage_ok_def)
  qed
  ultimately show ?thesis using e fin(1) by (auto simp: explained_def)
qed

subsection \<open>A run\<close>

text \<open>The statements of one task, while it holds its locks.\<close>

lemma do_steps:
  "i < length ts \<Longrightarrow> ts ! i = (map Do fs @ ops, H, l) \<Longrightarrow> perform fs (l, s) = (l', s') \<Longrightarrow>
   fine_step\<^sup>*\<^sup>* (ts, s) (ts[i := (ops, H, l')], s')"
proof (induction fs arbitrary: ts l s)
  case Nil
  then show ?case by (metis list.map(1) append_Nil list_update_id perform_simps(1) prod.inject rtranclp.rtrancl_refl)
next
  case (Cons f fs)
  obtain l1 s1 where f: "f (l, s) = (l1, s1)" by fastforce
  let ?ts = "ts[i := (map Do fs @ ops, H, l1)]"
  have "fine_step (ts, s) (?ts, s1)" by (rule fine_do [of _ _ f]) (use Cons.prems f in simp_all)
  moreover have "fine_step\<^sup>*\<^sup>* (?ts, s1) (?ts[i := (ops, H, l')], s')"
    using Cons.prems f by (intro Cons.IH) auto
  ultimately show ?case by (simp add: converse_rtranclp_into_rtranclp)
qed

text \<open>A tick that has its locks when a client asks: the answer waits and sees the new values.\<close>

theorem snmp_handlers_are_atomic_witness:
  "\<exists>ts s es. fine_step\<^sup>*\<^sup>* (snmp_tasks [DriftTask, GetTask] snmp_init) (ts, s) \<and> s = snmp_run es snmp_init
     \<and> mset (map task_of es) = {#DriftTask#} \<and> snap (snd (snd (ts ! 1))) \<in> past es snmp_init"
proof -
  let ?l = start_view and ?r = "[Do (reading see_values), Unlock ValuesLock]"
  let ?u = "[Unlock ValuesLock, Unlock DrivenLock]" and ?D = "DrivenLock" and ?V = "ValuesLock"
  obtain l s where p: "perform drift_body (?l, snmp_init) = (l, s)" by fastforce
  have "fine_step ([(Lock ?D # Lock ?V # map Do drift_body @ ?u, {}, ?l), (Lock ?V # ?r, {}, ?l)], snmp_init)
      ([(Lock ?V # map Do drift_body @ ?u, {?D}, ?l), (Lock ?V # ?r, {}, ?l)], snmp_init)" (is "fine_step ?x0 ?x1")
    using fine_lock [of 0 "fst ?x0"] by simp
  moreover have "fine_step ?x1 ([(map Do drift_body @ ?u, {?V, ?D}, ?l), (Lock ?V # ?r, {}, ?l)], snmp_init)"
    (is "fine_step _ ?x2") using fine_lock [of 0 "fst ?x1"] by simp
  moreover have "fine_step\<^sup>*\<^sup>* ?x2 ([(?u, {?V, ?D}, l), (Lock ?V # ?r, {}, ?l)], s)" (is "fine_step\<^sup>*\<^sup>* _ ?x3")
    using do_steps [of 0 "fst ?x2", OF _ _ p] by simp
  moreover have "fine_step ?x3 ([([Unlock ?D], {?D}, l), (Lock ?V # ?r, {}, ?l)], s)" (is "fine_step _ ?x4")
    using fine_unlock [of 0 "fst ?x3"] by (simp add: insert_Diff_if)
  moreover have "fine_step ?x4 ([([Unlock ?D], {?D}, l), (?r, {?V}, ?l)], s)" (is "fine_step _ ?x5")
    using fine_lock [of 1 "fst ?x4"] by simp
  moreover have "fine_step ?x5 ([([], {}, l), (?r, {?V}, ?l)], s)" (is "fine_step _ ?x6")
    using fine_unlock [of 0 "fst ?x5"] by simp
  moreover have "fine_step ?x6 ([([], {}, l), ([Unlock ?V], {?V}, see_values ?l (oid_values s))], s)" (is "fine_step _ ?x7")
    using fine_do [of 1 "fst ?x6"] by (simp add: reading_def)
  moreover have "fine_step ?x7 ([([], {}, l), ([], {}, see_values ?l (oid_values s))], s)" (is "fine_step _ ?x8")
    using fine_unlock [of 1 "fst ?x7"] by simp
  ultimately have "fine_step\<^sup>*\<^sup>* ?x0 ?x8" by (meson converse_rtranclp_into_rtranclp rtranclp_trans r_into_rtranclp)
  then have run: "fine_step\<^sup>*\<^sup>* (snmp_tasks [DriftTask, GetTask] snmp_init) ?x8"
    by (simp add: snmp_tasks_def fine_start_def)
  have w: "writes (sections_of DriftTask)" "\<not> writes (sections_of GetTask)"
    by (simp_all add: writes_def is_writing_def)
  from snmp_handlers_are_atomic [OF run] obtain es where
    "s = snmp_run es snmp_init" "mset (map task_of es) = {#DriftTask#}"
    "\<forall>i<length [DriftTask, GetTask]. [DriftTask, GetTask] ! i \<in> {GetTask, V3Task} \<longrightarrow>
      snap (snd (snd (fst ?x8 ! i))) \<in> past es snmp_init"
    using w by auto
  from this(3) [rule_format, of 1] have "snap (snd (snd (fst ?x8 ! 1))) \<in> past es snmp_init" by simp
  moreover note run \<open>s = snmp_run es snmp_init\<close> \<open>mset (map task_of es) = {#DriftTask#}\<close>
  ultimately show ?thesis by (intro exI [of _ "fst ?x8"] exI [of _ s] exI [of _ es]) simp
qed

end
