(* ===== verification/Redfish.thy ===== *)
theory Redfish
  imports RackRegisters
begin

text \<open>
  mock-redfish-service: the GPUs of a node and their power caps (\<open>gpu_processors.rs\<close>), the
  node's resources and routes (\<open>gpu_chassis.rs\<close>), the cooling unit (\<open>cdu.rs\<close>) and the
  start-up (\<open>main.rs\<close>).  The JSON values of serde_json are a parameter: the constructors
  the \<open>json!\<close> macro uses, \<open>Value::pointer\<close> over the tokens of a pointer, and \<open>as_f64\<close>.
\<close>

subsection \<open>JSON values (serde_json)\<close>

record 'v json_lib =
  j_null :: 'v
  j_num :: "fp \<Rightarrow> 'v"
  j_str :: "string \<Rightarrow> 'v"
  j_arr :: "'v list \<Rightarrow> 'v"
  j_obj :: "(string \<times> 'v) list \<Rightarrow> 'v"
  pointer :: "'v \<Rightarrow> string list \<Rightarrow> 'v option"
  as_f64 :: "'v \<Rightarrow> fp option"

text \<open>What the documentation of serde_json says of them; a float that is not finite becomes null.\<close>

definition json_laws :: "'v json_lib \<Rightarrow> bool" where
  "json_laws lib \<longleftrightarrow>
     (\<forall>v. pointer lib v [] = Some v)
   \<and> (\<forall>kvs k ks. distinct (map fst kvs) \<longrightarrow> pointer lib (j_obj lib kvs) (k # ks)
        = Option.bind (map_of kvs k) (\<lambda>v. pointer lib v ks))
   \<and> (\<forall>vs k ks i. parse_uint 64 k = Some i \<longrightarrow> i < length vs \<longrightarrow> show_nat i = k
        \<longrightarrow> pointer lib (j_arr lib vs) (k # ks) = pointer lib (vs ! i) ks)
   \<and> (\<forall>x. as_f64 lib (j_num lib x) = (if is_finite x then Some x else None))
   \<and> as_f64 lib (j_null lib) = None \<and> (\<forall>s. as_f64 lib (j_str lib s) = None)"

text \<open>\<open>value[key]\<close>: null where there is nothing.\<close>

definition j_index :: "'v json_lib \<Rightarrow> 'v \<Rightarrow> string \<Rightarrow> 'v" where
  "j_index lib v k = (case pointer lib v [k] of None \<Rightarrow> j_null lib | Some w \<Rightarrow> w)"

subsection \<open>One GPU (gpu_processors.rs)\<close>

definition ALLOWABLE_MIN_W :: fp where "ALLOWABLE_MIN_W = f64_lit 200"
definition ALLOWABLE_MAX_W :: fp where "ALLOWABLE_MAX_W = f64_lit 1000"

record gpu =
  demand_w :: fp
  set_point_w :: fp
  max_clock_mhz :: fp

definition capped :: "gpu \<Rightarrow> bool" where
  "capped g = flt (set_point_w g) (demand_w g)"

definition power_w :: "gpu \<Rightarrow> fp" where
  "power_w g = fmin (demand_w g) (set_point_w g)"

definition clock_mhz :: "gpu \<Rightarrow> fp" where
  "clock_mhz g = fround (fdiv F64 (fmul F64 (max_clock_mhz g) (power_w g)) (demand_w g))"

definition environment_metrics_json :: "'v json_lib \<Rightarrow> gpu \<Rightarrow> 'v" where
  "environment_metrics_json lib g = j_obj lib
     [(''@odata.type'', j_str lib ''#EnvironmentMetrics.v1_3_0.EnvironmentMetrics''),
      (''Id'', j_str lib ''EnvironmentMetrics''),
      (''PowerWatts'', j_obj lib [(''Reading'', j_num lib (power_w g))]),
      (''PowerLimitWatts'', j_obj lib
        [(''SetPoint'', j_num lib (set_point_w g)),
         (''AllowableMin'', j_num lib ALLOWABLE_MIN_W),
         (''AllowableMax'', j_num lib ALLOWABLE_MAX_W),
         (''ControlMode'', j_str lib ''Manual'')])]"

definition throttle_reason :: "gpu \<Rightarrow> string" where
  "throttle_reason g = (if capped g then ''SWPowerCap'' else ''NA'')"

definition processor_metrics_json :: "'v json_lib \<Rightarrow> gpu \<Rightarrow> 'v" where
  "processor_metrics_json lib g = j_obj lib
     [(''@odata.type'', j_str lib ''#ProcessorMetrics.v1_6_0.ProcessorMetrics''),
      (''Id'', j_str lib ''ProcessorMetrics''),
      (''OperatingSpeedMHz'', j_num lib (clock_mhz g)),
      (''Oem'', j_obj lib [(''Nvidia'', j_obj lib
        [(''ThrottleReasons'', j_arr lib [j_str lib (throttle_reason g)])])])]"

datatype patch_error = NoSetPoint | OutOfRange fp

definition set_power_limit :: "'v json_lib \<Rightarrow> 'v \<Rightarrow> gpu \<Rightarrow> patch_error + gpu" where
  "set_power_limit lib body g =
     (case Option.bind (pointer lib body [''PowerLimitWatts'', ''SetPoint'']) (as_f64 lib) of
        None \<Rightarrow> Inl NoSetPoint
      | Some watts \<Rightarrow>
          if \<not> (fle ALLOWABLE_MIN_W watts \<and> fle watts ALLOWABLE_MAX_W) then Inl (OutOfRange watts)
          else Inr (g\<lparr>set_point_w := watts\<rparr>))"

subsection \<open>The node (gpu_chassis.rs)\<close>

definition GPUS :: nat where "GPUS = 8"

record gpu_chassis =
  chassis_gpu :: gpu
  overhead_w :: fp
  node_limit_w :: fp
  inlet_c :: fp
  fan_percent :: fp

text \<open>The variables in the order of the struct expression; the first bad one is the error.\<close>

primrec env_f64s :: "env \<Rightarrow> (string \<times> fp) list \<Rightarrow> startup_error + fp list" where
  "env_f64s env [] = Inr []"
| "env_f64s env (nd # nds) =
     (case env_f64 env (fst nd) (snd nd) of Inl e \<Rightarrow> Inl e
      | Inr x \<Rightarrow> (case env_f64s env nds of Inl e \<Rightarrow> Inl e | Inr xs \<Rightarrow> Inr (x # xs)))"

definition gpu_chassis_from_env :: "env \<Rightarrow> startup_error + gpu_chassis" where
  "gpu_chassis_from_env env =
     (case env_f64s env
        [(''GPU_DEMAND_W'', f64_lit 1000), (''GPU_POWER_LIMIT_W'', f64_lit 1000),
         (''GPU_MAX_CLOCK_MHZ'', f64_lit 1980), (''GPU_NODE_OVERHEAD_W'', f64_lit 2500),
         (''GPU_NODE_POWER_LIMIT_W'', f64_lit 26400), (''GPU_NODE_INLET_C'', f64_lit 25),
         (''GPU_NODE_FAN_PERCENT'', f64_lit 45)] of
        Inl e \<Rightarrow> Inl e
      | Inr xs \<Rightarrow> Inr \<lparr>chassis_gpu = \<lparr>demand_w = xs ! 0, set_point_w = xs ! 1, max_clock_mhz = xs ! 2\<rparr>,
          overhead_w = xs ! 3, node_limit_w = xs ! 4, inlet_c = xs ! 5, fan_percent = xs ! 6\<rparr>)"

record gpu_node =
  chassis :: gpu_chassis
  gpus :: "gpu list"

definition new_node :: "gpu_chassis \<Rightarrow> gpu_node" where
  "new_node c = \<lparr>chassis = c, gpus = replicate GPUS (chassis_gpu c)\<rparr>"

definition gpu_watts :: "'v json_lib \<Rightarrow> gpu \<Rightarrow> fp option" where
  "gpu_watts lib g =
     as_f64 lib (j_index lib (j_index lib (environment_metrics_json lib g) ''PowerWatts'') ''Reading'')"

definition power_json :: "'v json_lib \<Rightarrow> gpu_chassis \<Rightarrow> gpu list \<Rightarrow> 'v" where
  "power_json lib c gs =
     (let gpu_w = foldl (fadd F64) NegZero (List.map_filter (gpu_watts lib) gs) in
      j_obj lib
       [(''@odata.id'', j_str lib ''/redfish/v1/Chassis/1/Power''),
        (''@odata.type'', j_str lib ''#Power.v1_7_1.Power''),
        (''Id'', j_str lib ''Power''), (''Name'', j_str lib ''Power''),
        (''PowerControl'', j_arr lib [j_obj lib
          [(''MemberId'', j_str lib ''0''),
           (''Name'', j_str lib ''Chassis Power Control''),
           (''PowerConsumedWatts'', j_num lib (fadd F64 gpu_w (overhead_w c))),
           (''PowerLimit'', j_obj lib [(''LimitInWatts'', j_num lib (node_limit_w c))])]])])"

definition thermal_json :: "'v json_lib \<Rightarrow> gpu_chassis \<Rightarrow> 'v" where
  "thermal_json lib c = j_obj lib
     [(''@odata.id'', j_str lib ''/redfish/v1/Chassis/1/Thermal''),
      (''@odata.type'', j_str lib ''#Thermal.v1_7_0.Thermal''),
      (''Id'', j_str lib ''Thermal''), (''Name'', j_str lib ''Thermal''),
      (''Fans'', j_arr lib [j_obj lib
        [(''MemberId'', j_str lib ''0''), (''Name'', j_str lib ''Fan 1''),
         (''Reading'', j_num lib (fan_percent c)), (''ReadingUnits'', j_str lib ''Percent'')]])]"

definition inlet_sensor_json :: "'v json_lib \<Rightarrow> gpu_chassis \<Rightarrow> 'v" where
  "inlet_sensor_json lib c = j_obj lib
     [(''@odata.id'', j_str lib ''/redfish/v1/Chassis/1/Sensors/InletTemp''),
      (''@odata.type'', j_str lib ''#Sensor.v1_7_0.Sensor''),
      (''Id'', j_str lib ''InletTemp''), (''Name'', j_str lib ''Inlet Temp''),
      (''ReadingType'', j_str lib ''Temperature''), (''ReadingUnits'', j_str lib ''Cel''),
      (''Reading'', j_num lib (inlet_c c))]"

definition gpu_base :: "nat \<Rightarrow> string" where
  "gpu_base i = ''/redfish/v1/Systems/HGX_Baseboard_0/Processors/GPU_SXM_'' @ show_nat (i + 1)"

definition gpu_routes :: "'v json_lib \<Rightarrow> gpu_node \<Rightarrow> nat \<Rightarrow> (string \<times> 'v) list" where
  "gpu_routes lib n i =
     [(gpu_base i @ ''/EnvironmentMetrics'', environment_metrics_json lib (gpus n ! i)),
      (gpu_base i @ ''/ProcessorMetrics'', processor_metrics_json lib (gpus n ! i))]"

text \<open>What a GET of each route renders.\<close>

definition chassis_routes :: "'v json_lib \<Rightarrow> gpu_node \<Rightarrow> (string \<times> 'v) list" where
  "chassis_routes lib n =
     [(''/redfish/v1/Chassis/1/Power'', power_json lib (chassis n) (gpus n)),
      (''/redfish/v1/Chassis/1/Thermal'', thermal_json lib (chassis n)),
      (''/redfish/v1/Chassis/1/Sensors/InletTemp'', inlet_sensor_json lib (chassis n))]
     @ concat (map (gpu_routes lib n) [0..<GPUS])"

text \<open>
  A PATCH of GPU \<open>i\<close>'s EnvironmentMetrics: the new node, the status, and the rendered
  resource or the reason, whose wording is not modelled.
\<close>

definition patch_gpu ::
  "'v json_lib \<Rightarrow> nat \<Rightarrow> 'v \<Rightarrow> gpu_node \<Rightarrow> gpu_node \<times> http_status \<times> (patch_error + 'v)" where
  "patch_gpu lib i body n =
     (case set_power_limit lib body (gpus n ! i) of
        Inr g \<Rightarrow> (n\<lparr>gpus := (gpus n)[i := g]\<rparr>, OK, Inr (environment_metrics_json lib g))
      | Inl e \<Rightarrow> (n, BAD_REQUEST, Inl e))"

text \<open>The routes that take a PATCH, with the GPU each one writes; \<open>None\<close> is a path or method without a handler.\<close>

definition patch_routes :: "(string \<times> nat) list" where
  "patch_routes = map (\<lambda>i. (gpu_base i @ ''/EnvironmentMetrics'', i)) [0..<GPUS]"

definition redfish_patch ::
  "'v json_lib \<Rightarrow> string \<Rightarrow> 'v \<Rightarrow> gpu_node \<Rightarrow> (gpu_node \<times> http_status \<times> (patch_error + 'v)) option" where
  "redfish_patch lib path body n = map_option (\<lambda>i. patch_gpu lib i body n) (map_of patch_routes path)"

subsection \<open>The cooling unit (cdu.rs)\<close>

definition SUPPLY_C :: fp where "SUPPLY_C = f64_lit 30"
definition RETURN_C :: fp where "RETURN_C = f64_lit 38"
definition FLOW_LPM :: fp where "FLOW_LPM = f64_lit 120"
definition PUMP_PERCENT :: fp where "PUMP_PERCENT = f64_lit 65"

definition secondary_connector_json :: "'v json_lib \<Rightarrow> 'v" where
  "secondary_connector_json lib = j_obj lib
     [(''@odata.id'', j_str lib ''/redfish/v1/ThermalEquipment/CDUs/1/SecondaryCoolantConnectors/1''),
      (''@odata.type'', j_str lib ''#CoolantConnector.v1_1_0.CoolantConnector''),
      (''Id'', j_str lib ''1''), (''Name'', j_str lib ''Secondary Loop''),
      (''SupplyTemperatureCelsius'', j_obj lib [(''Reading'', j_num lib SUPPLY_C)]),
      (''ReturnTemperatureCelsius'', j_obj lib [(''Reading'', j_num lib RETURN_C)]),
      (''FlowLitersPerMinute'', j_obj lib [(''Reading'', j_num lib FLOW_LPM)])]"

definition pump_json :: "'v json_lib \<Rightarrow> 'v" where
  "pump_json lib = j_obj lib
     [(''@odata.id'', j_str lib ''/redfish/v1/ThermalEquipment/CDUs/1/Pumps/1''),
      (''@odata.type'', j_str lib ''#Pump.v1_1_0.Pump''),
      (''Id'', j_str lib ''1''), (''Name'', j_str lib ''Pump 1''),
      (''PumpSpeedPercent'', j_obj lib [(''Reading'', j_num lib PUMP_PERCENT)]),
      (''Status'', j_obj lib [(''State'', j_str lib ''Enabled''), (''Health'', j_str lib ''OK'')])]"

definition cdu_routes :: "'v json_lib \<Rightarrow> (string \<times> 'v) list" where
  "cdu_routes lib =
     [(''/redfish/v1/ThermalEquipment/CDUs/1/SecondaryCoolantConnectors/1'', secondary_connector_json lib),
      (''/redfish/v1/ThermalEquipment/CDUs/1/Pumps/1'', pump_json lib)]"

subsection \<open>The service (main.rs)\<close>

definition redfish_get :: "'v json_lib \<Rightarrow> gpu_node \<Rightarrow> string \<Rightarrow> 'v option" where
  "redfish_get lib n path = map_of (chassis_routes lib n @ cdu_routes lib) path"

text \<open>
  TLS: the files, rustls-pemfile and rustls are a parameter.  A list of PEM items has
  \<open>None\<close> for one that does not parse; \<open>pem_key\<close> is an error, no key, or a key.
\<close>

record ('r, 'v, 'c) tls_lib =
  read_file :: "string \<Rightarrow> bytes option"
  pem_certs :: "bytes \<Rightarrow> bytes option list"
  pem_key :: "bytes \<Rightarrow> bytes option option"
  empty_roots :: 'r
  add_root :: "'r \<Rightarrow> bytes \<Rightarrow> 'r option"
  build_verifier :: "'r \<Rightarrow> 'v option"
  server_config :: "'v \<Rightarrow> bytes list \<Rightarrow> bytes \<Rightarrow> 'c option"

datatype redfish_error =
    Setting startup_error
  | NoFile string
  | BadPem
  | BadRoot
  | NoVerifier
  | NoPrivateKey
  | BadServerConfig

primrec add_roots :: "('r, 'v, 'c) tls_lib \<Rightarrow> bytes option list \<Rightarrow> 'r \<Rightarrow> redfish_error + 'r" where
  "add_roots lib [] roots = Inr roots"
| "add_roots lib (item # items) roots =
     (case item of None \<Rightarrow> Inl BadPem
      | Some der \<Rightarrow> (case add_root lib roots der of None \<Rightarrow> Inl BadRoot | Some roots' \<Rightarrow> add_roots lib items roots'))"

definition client_verifier :: "('r, 'v, 'c) tls_lib \<Rightarrow> string \<Rightarrow> redfish_error + 'v" where
  "client_verifier lib ca_path =
     (case read_file lib ca_path of None \<Rightarrow> Inl (NoFile ca_path)
      | Some ca_pem \<Rightarrow>
        (case add_roots lib (pem_certs lib ca_pem) (empty_roots lib) of Inl e \<Rightarrow> Inl e
         | Inr roots \<Rightarrow> (case build_verifier lib roots of None \<Rightarrow> Inl NoVerifier | Some v \<Rightarrow> Inr v)))"

definition server_identity :: "('r, 'v, 'c) tls_lib \<Rightarrow> string \<Rightarrow> string \<Rightarrow> redfish_error + bytes list \<times> bytes" where
  "server_identity lib cert_path key_path =
     (case read_file lib cert_path of None \<Rightarrow> Inl (NoFile cert_path)
      | Some cert_pem \<Rightarrow>
        if None \<in> set (pem_certs lib cert_pem) then Inl BadPem
        else (case read_file lib key_path of None \<Rightarrow> Inl (NoFile key_path)
         | Some key_file \<Rightarrow>
           (case pem_key lib key_file of None \<Rightarrow> Inl BadPem
            | Some None \<Rightarrow> Inl NoPrivateKey
            | Some (Some key) \<Rightarrow> Inr (map the (pem_certs lib cert_pem), key))))"

definition build_tls_config :: "('r, 'v, 'c) tls_lib \<Rightarrow> env \<Rightarrow> redfish_error + 'c" where
  "build_tls_config lib env =
     (case require_env_paths env [''REDFISH_TLS_CA'', ''REDFISH_TLS_CERT'', ''REDFISH_TLS_KEY''] of
        Inl e \<Rightarrow> Inl (Setting e)
      | Inr paths \<Rightarrow>
        (case client_verifier lib (paths ! 0) of Inl e \<Rightarrow> Inl e
         | Inr verifier \<Rightarrow>
           (case server_identity lib (paths ! 1) (paths ! 2) of Inl e \<Rightarrow> Inl e
            | Inr (certs, key) \<Rightarrow>
              (case server_config lib verifier certs key of None \<Rightarrow> Inl BadServerConfig | Some c \<Rightarrow> Inr c))))"

text \<open>\<open>main\<close> up to the listener: the port, the TLS configuration or plain HTTP, the node.\<close>

definition redfish_main :: "('r, 'v, 'c) tls_lib \<Rightarrow> env \<Rightarrow> redfish_error + nat \<times> 'c option \<times> gpu_node" where
  "redfish_main lib env =
     (case gpu_chassis_from_env env of
        Inl e \<Rightarrow> Inl (Setting e)
      | Inr c \<Rightarrow>
          (case (if env ''REDFISH_TLS'' = Some ''1'' then map_sum id Some (build_tls_config lib env) else Inr None) of
             Inl e \<Rightarrow> Inl e
           | Inr tls \<Rightarrow> Inr (env_uint env 16 ''PORT'' 8443, tls, new_node c)))"

text \<open>In TLS mode the service starts only with a verifier of client certificates from the CA file.\<close>

lemma redfish_tls_has_verifier:
  assumes "redfish_main lib env = Inr (port, tls, n)" "env ''REDFISH_TLS'' = Some ''1''"
  shows "\<exists>ca v certs key c. env ''REDFISH_TLS_CA'' = Some ca \<and> client_verifier lib ca = Inr v
    \<and> server_config lib v certs key = Some c \<and> tls = Some c"
proof -
  obtain c where c: "build_tls_config lib env = Inr c" "tls = Some c"
    using assms by (cases "build_tls_config lib env") (auto simp: redfish_main_def split: sum.splits)
  then show ?thesis
    by (auto simp: build_tls_config_def require_env_path_def split: sum.splits option.splits prod.splits) blast
qed

subsection \<open>What a client of the node reads (compute_load.rs, pdu_load.rs)\<close>

text \<open>\<open>node_power\<close> over the body of a successful answer, the JSON value the client's parser gives.
  Writing a body out and parsing it is taken to be the identity on JSON values.\<close>

definition node_power :: "'v json_lib \<Rightarrow> 'v option \<Rightarrow> fp option" where
  "node_power lib body = Option.bind body (\<lambda>b.
     Option.bind (pointer lib b [''PowerControl'', ''0'', ''PowerConsumedWatts'']) (as_f64 lib))"

subsection \<open>A concrete JSON library\<close>

datatype json = JNull | JNumber fp | JString string | JArray "json list" | JObject "(string \<times> json) list"

fun json_pointer :: "json \<Rightarrow> string list \<Rightarrow> json option" where
  "json_pointer v [] = Some v"
| "json_pointer (JObject kvs) (k # ks) =
     (case map_of kvs k of None \<Rightarrow> None | Some v \<Rightarrow> json_pointer v ks)"
| "json_pointer (JArray vs) (k # ks) =
     (case parse_uint 64 k of None \<Rightarrow> None
      | Some i \<Rightarrow> if i < length vs \<and> show_nat i = k then json_pointer (vs ! i) ks else None)"
| "json_pointer _ (k # ks) = None"

definition json_as_f64 :: "json \<Rightarrow> fp option" where
  "json_as_f64 v = (case v of JNumber x \<Rightarrow> Some x | _ \<Rightarrow> None)"

definition serde :: "json json_lib" where
  "serde = \<lparr>j_null = JNull, j_num = (\<lambda>x. if is_finite x then JNumber x else JNull), j_str = JString,
     j_arr = JArray, j_obj = JObject, pointer = json_pointer, as_f64 = json_as_f64\<rparr>"

lemma serde_laws: "json_laws serde"
  by (simp add: json_laws_def serde_def json_as_f64_def split: option.split bind_split)

subsection \<open>Facts\<close>

lemma json_lawsD:
  assumes "json_laws lib"
  shows "pointer lib v [] = Some v"
    and "distinct (map fst kvs) \<Longrightarrow> pointer lib (j_obj lib kvs) (k # ks) = Option.bind (map_of kvs k) (\<lambda>v. pointer lib v ks)"
    and "pointer lib (j_arr lib (v # vs)) (''0'' # ks) = pointer lib v ks"
    and "as_f64 lib (j_num lib x) = (if is_finite x then Some x else None)"
proof -
  have "char_of (48 :: nat) = CHR ''0''" by (simp add: char_of_eq_iff)
  then have "parse_uint 64 ''0'' = Some 0" "show_nat 0 = ''0''"
    by (simp_all add: parse_uint_def digit_of_def show_nat.simps Let_def)
  then show "pointer lib (j_arr lib (v # vs)) (''0'' # ks) = pointer lib v ks"
    using assms unfolding json_laws_def by (metis length_greater_0_conv list.distinct(1) nth_Cons_0)
qed (use assms in \<open>simp_all add: json_laws_def\<close>)

lemma gpu_watts_val:
  assumes "json_laws lib" shows "gpu_watts lib g = (if is_finite (power_w g) then Some (power_w g) else None)"
  by (simp add: gpu_watts_def j_index_def environment_metrics_json_def json_lawsD [OF assms])

lemma node_power_json:
  assumes "json_laws lib"
  shows "node_power lib (Some (power_json lib c gs)) =
    (let w = fadd F64 (foldl (fadd F64) NegZero (List.map_filter (gpu_watts lib) gs)) (overhead_w c)
     in if is_finite w then Some w else None)"
  by (simp add: node_power_def power_json_def json_lawsD [OF assms] Let_def)

lemma patch_gpus:
  "gpus (fst (patch_gpu lib i body n)) =
    (case set_power_limit lib body (gpus n ! i) of Inr g \<Rightarrow> (gpus n)[i := g] | Inl _ \<Rightarrow> gpus n)"
  "chassis (fst (patch_gpu lib i body n)) = chassis n"
  by (simp_all add: patch_gpu_def split: sum.split)

lemma set_power_limit_Inr:
  assumes "set_power_limit lib body g = Inr g'"
  shows "demand_w g' = demand_w g" "max_clock_mhz g' = max_clock_mhz g"
    "in_range 200 1000 (set_point_w g')"
proof -
  obtain w where w: "g' = g\<lparr>set_point_w := w\<rparr>" "fle (Num 200) w" "fle w (Num 1000)"
    using assms by (auto simp: set_power_limit_def ALLOWABLE_MIN_W_def ALLOWABLE_MAX_W_def
        split: option.splits if_splits)
  then show "demand_w g' = demand_w g" "max_clock_mhz g' = max_clock_mhz g" by simp_all
  show "in_range 200 1000 (set_point_w g')"
    using w by (cases w) (auto simp: fle_def in_range_def)
qed

end
