(* ===== verification/RedfishProps.thy ===== *)
theory RedfishProps
  imports Redfish Poi
begin

text \<open>
  The properties of mock-redfish-service: the operating point of a GPU under its cap, what
  a sequence of PATCHes leaves, the routes, and the node power a meter or PDU reads.
\<close>

subsection \<open>The operating point of a GPU\<close>

definition whole_gpu :: "int \<Rightarrow> int \<Rightarrow> int \<Rightarrow> gpu" where
  "whole_gpu d s c = \<lparr>demand_w = Num (of_int d), set_point_w = Num (of_int s), max_clock_mhz = Num (of_int c)\<rparr>"

lemma power_whole: "power_w (whole_gpu d s c) = Num (of_int (min d s))"
  by (auto simp: power_w_def whole_gpu_def fmin_def min_def)

lemma whole_grid: "\<bar>k\<bar> < 2 ^ 53 \<Longrightarrow> bound_ok F64 (of_int k) \<and> frnd F64 (of_int k) = of_int k
    \<and> \<bar>of_int k :: rat\<bar> < huge F64"
  using bound_ok_of_int [of k F64] by (simp add: bound_ok_def on_grid_def)

lemma clock_whole:
  assumes "0 < d" "0 \<le> s" "0 \<le> c" "c * d < 2 ^ 53"
  shows "is_finite (clock_mhz (whole_gpu d s c))"
    and "fval (clock_mhz (whole_gpu d s c)) = of_int (round_away (frnd F64 (of_int (c * min d s) / of_int d)))"
    and "0 \<le> frnd F64 (of_int (c * min d s) / of_int d)" "frnd F64 (of_int (c * min d s) / of_int d) \<le> of_int c"
proof -
  let ?p = "min d s" and ?g = "whole_gpu d s c"
  have p: "0 \<le> ?p" "?p \<le> d" using assms by simp_all
  have "c * ?p \<le> c * d" "0 \<le> c * ?p" using p assms(3) by (simp_all add: mult_left_mono)
  then have cp: "\<bar>c * ?p\<bar> < 2 ^ 53" using assms(4) by simp
  have "c * 1 \<le> c * d" using assms(1,3) by (intro mult_left_mono) simp_all
  then have c: "\<bar>c\<bar> < 2 ^ 53" using assms(3,4) by simp
  have m: "is_finite (fmul F64 (max_clock_mhz ?g) (power_w ?g))"
    "fval (fmul F64 (max_clock_mhz ?g) (power_w ?g)) = of_int (c * ?p)"
    using fmul_finite [of "max_clock_mhz ?g" "power_w ?g" F64] whole_grid [OF cp]
    by (simp_all add: power_whole) (simp_all add: whole_gpu_def)
  have "(of_int (c * ?p) :: rat) \<le> of_int c * of_int d"
    unfolding of_int_mult [symmetric] of_int_le_iff using \<open>c * ?p \<le> c * d\<close> .
  moreover have "(0 :: rat) < of_int d" using assms(1) by simp
  ultimately have q: "0 \<le> of_int (c * ?p) / (of_int d :: rat)" "of_int (c * ?p) / of_int d \<le> (of_int c :: rat)"
    using \<open>0 \<le> c * ?p\<close> by (simp_all add: divide_le_eq del: of_int_mult)
  note r = frnd_between [OF q bound_ok_numeral(1) conjunct1 [OF whole_grid [OF c]]]
  then show "0 \<le> frnd F64 (of_int (c * ?p) / of_int d)" "frnd F64 (of_int (c * ?p) / of_int d) \<le> of_int c" by blast+
  have dw: "demand_w ?g = Num (of_int d)" by (simp add: whole_gpu_def)
  have "is_finite (fdiv F64 (fmul F64 (max_clock_mhz ?g) (power_w ?g)) (demand_w ?g))"
    "fval (fdiv F64 (fmul F64 (max_clock_mhz ?g) (power_w ?g)) (demand_w ?g)) = frnd F64 (of_int (c * ?p) / of_int d)"
    using fdiv_finite [OF m(1), of "demand_w ?g" F64] r(3) assms(1) by (simp_all add: m(2) dw)
  then show "is_finite (clock_mhz ?g)"
    "fval (clock_mhz ?g) = of_int (round_away (frnd F64 (of_int (c * ?p) / of_int d)))"
    using fround_finite by (simp_all add: clock_mhz_def)
qed

text \<open>C36: A GPU with whole-number settings draws the smaller of demand and cap, reports
  \<open>SWPowerCap\<close> exactly when the cap is below the demand, and runs at the clock scaled by
  the power it keeps: between 0 and the maximum, and the maximum itself when uncapped.\<close>

theorem gpu_operating_point:
  assumes "0 < d" "0 \<le> s" "0 \<le> c" "c * d < 2 ^ 53"
  defines "g \<equiv> whole_gpu d s c"
  shows "power_w g = Num (of_int (min d s))
    \<and> throttle_reason g = (if s < d then ''SWPowerCap'' else ''NA'')
    \<and> fval (clock_mhz g) = of_int (round_away (frnd F64 (of_int (c * min d s) / of_int d)))
    \<and> 0 \<le> fval (clock_mhz g) \<and> fval (clock_mhz g) \<le> of_int c
    \<and> (d \<le> s \<longrightarrow> fval (clock_mhz g) = of_int c)"
proof -
  note k = clock_whole [OF assms(1-4)]
  have "c * 1 \<le> c * d" using assms(1,3) by (intro mult_left_mono) simp_all
  then have c: "\<bar>c\<bar> < 2 ^ 53" using assms(3,4) by simp
  have b: "0 \<le> round_away (frnd F64 (of_int (c * min d s) / of_int d))
      \<and> round_away (frnd F64 (of_int (c * min d s) / of_int d)) \<le> c"
    using round_away_between [of 0 "frnd F64 (of_int (c * min d s) / of_int d)" c] k(3,4) by simp
  have "fval (clock_mhz g) = of_int c" if "d \<le> s"
    using that k(2) assms(1) whole_grid [OF c] by (simp add: g_def min_def)
  moreover have "throttle_reason g = (if s < d then ''SWPowerCap'' else ''NA'')"
    by (simp add: throttle_reason_def capped_def g_def whole_gpu_def)
  moreover have "0 \<le> fval (clock_mhz g)" "fval (clock_mhz g) \<le> of_int c"
    unfolding g_def k(2) of_int_le_iff of_int_0_le_iff using b by auto
  ultimately show ?thesis using k(2) power_whole by (simp add: g_def)
qed

theorem gpu_operating_point_witness:
  "throttle_reason (whole_gpu 1000 700 1980) = ''SWPowerCap'' \<and> fval (clock_mhz (whole_gpu 1000 700 1980)) = 1386"
proof -
  have "frnd F64 1386 = 1386" using whole_grid [of 1386] by simp
  then show ?thesis using gpu_operating_point [of 1000 700 1980] by simp
qed

text \<open>With \<open>GPU_DEMAND_W=0\<close> the clock is zero divided by zero: the resource shows no
  number where the clock should be.\<close>

theorem zero_demand_has_no_clock:
  assumes "json_laws lib" "demand_w g = Num 0" "is_finite (set_point_w g)" "0 \<le> fval (set_point_w g)"
    and "is_finite (max_clock_mhz g)"
  shows "Option.bind (pointer lib (processor_metrics_json lib g) [''OperatingSpeedMHz'']) (as_f64 lib) = None"
proof -
  have p: "is_finite (power_w g)" "fval (power_w g) = 0"
    using assms(2-4) by (auto simp: power_w_def fmin_def)
  then have "is_finite (fmul F64 (max_clock_mhz g) (power_w g)) \<and> fval (fmul F64 (max_clock_mhz g) (power_w g)) = 0"
    using fmul_finite [OF assms(5) p(1), of F64] by simp
  then have "clock_mhz g = NaN"
    by (simp add: clock_mhz_def fdiv_def assms(2) Let_def)
  then show ?thesis by (simp add: processor_metrics_json_def json_lawsD [OF assms(1)])
qed

theorem zero_demand_has_no_clock_witness:
  "Option.bind (json_pointer (processor_metrics_json serde (whole_gpu 0 1000 1980)) [''OperatingSpeedMHz'']) json_as_f64 = None"
  using zero_demand_has_no_clock [OF serde_laws, of "whole_gpu 0 1000 1980"]
  by (simp add: whole_gpu_def) (simp add: serde_def)

subsection \<open>Power caps\<close>

text \<open>The watts a PATCH body asks for when they are acceptable.\<close>

definition accepted :: "'v json_lib \<Rightarrow> 'v \<Rightarrow> fp option" where
  "accepted lib body =
     (case Option.bind (pointer lib body [''PowerLimitWatts'', ''SetPoint'']) (as_f64 lib) of
        None \<Rightarrow> None
      | Some w \<Rightarrow> if fle (Num 200) w \<and> fle w (Num 1000) then Some w else None)"

lemma set_power_limit_accepted:
  "set_power_limit lib body g = (case accepted lib body of
     Some w \<Rightarrow> Inr (g\<lparr>set_point_w := w\<rparr>)
   | None \<Rightarrow> Inl (case Option.bind (pointer lib body [''PowerLimitWatts'', ''SetPoint'']) (as_f64 lib) of
       None \<Rightarrow> NoSetPoint | Some w \<Rightarrow> OutOfRange w))"
  by (auto simp: set_power_limit_def accepted_def ALLOWABLE_MIN_W_def ALLOWABLE_MAX_W_def split: option.split)

definition patch_all :: "'v json_lib \<Rightarrow> (nat \<times> 'v) list \<Rightarrow> gpu_node \<Rightarrow> gpu_node" where
  "patch_all lib ps n = fold (\<lambda>ib m. fst (patch_gpu lib (fst ib) (snd ib) m)) ps n"

definition accepted_for :: "'v json_lib \<Rightarrow> nat \<Rightarrow> (nat \<times> 'v) list \<Rightarrow> fp list" where
  "accepted_for lib j ps = List.map_filter (\<lambda>ib. if fst ib = j then accepted lib (snd ib) else None) ps"

text \<open>C15: After any sequence of PATCHes the cap of a GPU is the last acceptable set point sent
  to that very GPU, a number from 200 to 1000, or its boot cap when there was none;
  demands, maximal clocks and the chassis never change.\<close>

theorem gpu_cap_is_last_accepted_patch:
  assumes "j < length (gpus n)"
  shows "gpus (patch_all lib ps n) ! j = (gpus n ! j)\<lparr>set_point_w :=
      (if accepted_for lib j ps = [] then set_point_w (gpus n ! j) else last (accepted_for lib j ps))\<rparr>
    \<and> chassis (patch_all lib ps n) = chassis n
    \<and> (\<forall>w\<in>set (accepted_for lib j ps). in_range 200 1000 w)"
  using assms
proof (induction ps arbitrary: n)
  case Nil then show ?case by (simp add: patch_all_def accepted_for_def List.map_filter_def)
next
  case (Cons ib ps)
  let ?n = "fst (patch_gpu lib (fst ib) (snd ib) n)"
  have len: "length (gpus ?n) = length (gpus n)" by (simp add: patch_gpus split: sum.split)
  have st: "gpus ?n ! j = (if fst ib = j \<and> accepted lib (snd ib) \<noteq> None
      then (gpus n ! j)\<lparr>set_point_w := the (accepted lib (snd ib))\<rparr> else gpus n ! j)"
    using Cons.prems by (auto simp: patch_gpus set_power_limit_accepted nth_list_update split: option.split)
  have rng: "in_range 200 1000 w" if "accepted lib b = Some w" for b w
    using that by (cases w) (auto simp: accepted_def fle_def in_range_def split: option.splits if_splits)
  have ih: "gpus (patch_all lib ps ?n) ! j = (gpus ?n ! j)\<lparr>set_point_w :=
      (if accepted_for lib j ps = [] then set_point_w (gpus ?n ! j) else last (accepted_for lib j ps))\<rparr>"
    "chassis (patch_all lib ps ?n) = chassis ?n" "\<forall>w\<in>set (accepted_for lib j ps). in_range 200 1000 w"
    using Cons.IH [of ?n] Cons.prems len by simp_all
  have step: "patch_all lib (ib # ps) n = patch_all lib ps ?n" by (simp add: patch_all_def)
  have acc: "accepted_for lib j (ib # ps) = (if fst ib = j \<and> accepted lib (snd ib) \<noteq> None
      then the (accepted lib (snd ib)) # accepted_for lib j ps else accepted_for lib j ps)"
    by (auto simp: accepted_for_def List.map_filter_simps split: option.split)
  show ?case unfolding step ih(1,2) acc st using ih(3) rng by (auto simp: patch_gpus(2))
qed

definition demo_patch :: "rat \<Rightarrow> json" where
  "demo_patch w = JObject [(''PowerLimitWatts'', JObject [(''SetPoint'', JNumber (Num w))])]"

definition demo_node :: gpu_node where
  "demo_node = new_node \<lparr>chassis_gpu = whole_gpu 1000 1000 1980, overhead_w = Num 2500, node_limit_w = Num 26400,
     inlet_c = Num 25, fan_percent = Num 45\<rparr>"

theorem gpu_cap_is_last_accepted_patch_witness:
  "set_point_w (gpus (patch_all serde [(2, demo_patch 810), (2, demo_patch 1200), (3, demo_patch 500)] demo_node) ! 2)
     = Num 810"
proof -
  have "accepted serde (demo_patch w) = (if 200 \<le> w \<and> w \<le> 1000 then Some (Num w) else None)" for w
    by (simp add: accepted_def demo_patch_def serde_def json_as_f64_def)
  then have "accepted_for serde 2 [(2, demo_patch 810), (2, demo_patch 1200), (3, demo_patch 500)] = [Num 810]"
    by (simp add: accepted_for_def List.map_filter_simps)
  moreover have "2 < length (gpus demo_node)" by (simp add: demo_node_def new_node_def GPUS_def)
  ultimately show ?thesis
    using gpu_cap_is_last_accepted_patch [of 2 demo_node serde
        "[(2, demo_patch 810), (2, demo_patch 1200), (3, demo_patch 500)]"] by simp
qed

subsection \<open>Routes\<close>

lemma show_nat_inj: "show_nat a = show_nat b \<longleftrightarrow> a = b"
  by (metis option.inject parse_show_digits)

lemma gpu_base_inj: "gpu_base i = gpu_base j \<longleftrightarrow> i = j"
  by (simp add: gpu_base_def show_nat_inj)

lemma metrics_differ: "x @ ''/EnvironmentMetrics'' \<noteq> y @ ''/ProcessorMetrics''"
proof
  assume "x @ ''/EnvironmentMetrics'' = y @ ''/ProcessorMetrics''"
  then have "take 8 (rev (x @ ''/EnvironmentMetrics'')) = take 8 (rev (y @ ''/ProcessorMetrics''))" by simp
  then show False by simp
qed

lemma gpu_routes_lookup:
  assumes "i \<in> set is"
  shows "map_of (concat (map (gpu_routes lib n) is)) (gpu_base i @ ''/EnvironmentMetrics'')
      = Some (environment_metrics_json lib (gpus n ! i))"
    and "map_of (concat (map (gpu_routes lib n) is)) (gpu_base i @ ''/ProcessorMetrics'')
      = Some (processor_metrics_json lib (gpus n ! i))"
  using assms
  by (induction "is") (auto simp: gpu_routes_def gpu_base_inj metrics_differ metrics_differ [symmetric])

lemma gpu_route_get:
  assumes "j < GPUS"
  shows "redfish_get lib n (gpu_base j @ ''/EnvironmentMetrics'') = Some (environment_metrics_json lib (gpus n ! j))"
    and "redfish_get lib n (gpu_base j @ ''/ProcessorMetrics'') = Some (processor_metrics_json lib (gpus n ! j))"
proof -
  have ne: "gpu_base j @ x \<noteq> ''/redfish/v1/Chassis/1/Power''" "gpu_base j @ x \<noteq> ''/redfish/v1/Chassis/1/Thermal''"
    "gpu_base j @ x \<noteq> ''/redfish/v1/Chassis/1/Sensors/InletTemp''" for x
    by (simp_all add: gpu_base_def)
  have "j \<in> set [0..<GPUS]" using assms by simp
  from gpu_routes_lookup [OF this, of lib n]
  show "redfish_get lib n (gpu_base j @ ''/EnvironmentMetrics'') = Some (environment_metrics_json lib (gpus n ! j))"
    "redfish_get lib n (gpu_base j @ ''/ProcessorMetrics'') = Some (processor_metrics_json lib (gpus n ! j))"
    using ne by (simp_all add: redfish_get_def chassis_routes_def map_add_def del: upt_0 set_upt)
qed

lemma patch_routes_lookup: "i < GPUS \<Longrightarrow> map_of patch_routes (gpu_base i @ ''/EnvironmentMetrics'') = Some i"
proof -
  have "i \<in> set is \<Longrightarrow> map_of (map (\<lambda>i. (gpu_base i @ ''/EnvironmentMetrics'', i)) is)
      (gpu_base i @ ''/EnvironmentMetrics'') = Some i" for "is"
    by (induction "is") (auto simp: gpu_base_inj)
  then show "i < GPUS \<Longrightarrow> ?thesis" by (simp add: patch_routes_def)
qed

text \<open>C26: A PATCH of a GPU's environment metrics reads back: an acceptable set point is answered
  with the resource that a GET then serves and that shows the new cap, the other GPUs'
  resources stay as they were, and an unacceptable body changes no resource of the node.\<close>

theorem patch_reads_back:
  assumes "json_laws lib" "i < GPUS" "length (gpus n) = GPUS"
  shows "\<exists>n' st res. redfish_patch lib (gpu_base i @ ''/EnvironmentMetrics'') body n = Some (n', st, res)
    \<and> (case accepted lib body of
         Some w \<Rightarrow> st = OK \<and> (\<exists>v. res = Inr v \<and> redfish_get lib n' (gpu_base i @ ''/EnvironmentMetrics'') = Some v
             \<and> Option.bind (pointer lib v [''PowerLimitWatts'', ''SetPoint'']) (as_f64 lib) = Some w)
       | None \<Rightarrow> st = BAD_REQUEST \<and> n' = n)
    \<and> (\<forall>j<GPUS. j \<noteq> i \<longrightarrow> redfish_get lib n' (gpu_base j @ ''/EnvironmentMetrics'')
          = redfish_get lib n (gpu_base j @ ''/EnvironmentMetrics'')
        \<and> redfish_get lib n' (gpu_base j @ ''/ProcessorMetrics'')
          = redfish_get lib n (gpu_base j @ ''/ProcessorMetrics''))"
proof (cases "accepted lib body")
  case None
  then show ?thesis
    by (simp add: redfish_patch_def patch_routes_lookup [OF assms(2)] patch_gpu_def set_power_limit_accepted)
next
  case (Some w)
  let ?g = "(gpus n ! i)\<lparr>set_point_w := w\<rparr>"
  have "is_finite w" using Some by (cases w) (auto simp: accepted_def fle_def split: option.splits if_splits)
  then have "Option.bind (pointer lib (environment_metrics_json lib ?g) [''PowerLimitWatts'', ''SetPoint'']) (as_f64 lib) = Some w"
    by (simp add: environment_metrics_json_def json_lawsD [OF assms(1)])
  then show ?thesis
    using Some assms(2,3)
    by (simp add: redfish_patch_def patch_routes_lookup patch_gpu_def set_power_limit_accepted gpu_route_get)
qed

theorem patch_reads_back_witness:
  "\<exists>n' v. redfish_patch serde (gpu_base 2 @ ''/EnvironmentMetrics'') (demo_patch 810) demo_node = Some (n', OK, Inr v)
     \<and> redfish_get serde n' (gpu_base 2 @ ''/EnvironmentMetrics'') = Some v"
proof -
  have a: "accepted serde (demo_patch 810) = Some (Num 810)"
    by (simp add: accepted_def demo_patch_def serde_def json_as_f64_def)
  have "2 < GPUS" "length (gpus demo_node) = GPUS" by (simp_all add: GPUS_def demo_node_def new_node_def)
  from patch_reads_back [OF serde_laws this, of "demo_patch 810"] show ?thesis unfolding a by auto
qed

subsection \<open>Node power\<close>

text \<open>The draws of the GPUs as whole watts.\<close>

definition gpu_draws :: "gpu list \<Rightarrow> int list \<Rightarrow> bool" where
  "gpu_draws gs ks \<longleftrightarrow> map power_w gs = map (\<lambda>k. Num (of_int k)) ks \<and> (\<forall>k\<in>set ks. 0 \<le> k \<and> k \<le> 2 ^ 31)"

lemma node_power_whole:
  assumes "json_laws lib" "gpu_draws gs ks" "length gs \<le> 2 ^ 20" "overhead_w c = Num (of_int b)" "\<bar>b\<bar> \<le> 2 ^ 51"
  shows "\<exists>w. node_power lib (Some (power_json lib c gs)) = Some w \<and> is_finite w \<and> fval w = of_int (sum_list ks + b)"
proof -
  have k: "\<bar>k\<bar> \<le> 2 ^ 31" if "k \<in> set ks" for k using assms(2) that by (auto simp: gpu_draws_def)
  have len: "length ks \<le> 2 ^ 20" using assms(2,3) by (metis gpu_draws_def length_map)
  have "map power_w gs = map f64_of_int ks"
    using assms(2) k by (auto simp: gpu_draws_def f64_of_int_exact)
  moreover have "List.map_filter (gpu_watts lib) gs = map power_w gs"
    if "\<forall>g\<in>set gs. is_finite (power_w g)" for gs
    using that by (induction gs) (simp_all add: List.map_filter_simps gpu_watts_val [OF assms(1)])
  moreover have "\<forall>g\<in>set gs. is_finite (power_w g)"
  proof
    fix g assume "g \<in> set gs"
    then have "power_w g \<in> set (map (\<lambda>k. Num (of_int k)) ks)"
      using assms(2) by (metis gpu_draws_def image_eqI set_map)
    then show "is_finite (power_w g)" by auto
  qed
  ultimately have e: "List.map_filter (gpu_watts lib) gs = map f64_of_int ks" by simp
  have "\<bar>0\<bar> + int (length ks) * 2 ^ 31 < 2 ^ 53" using len by simp
  from foldl_fadd_ints [OF k _ _ this, of NegZero] have
    s: "is_finite (foldl (fadd F64) NegZero (map f64_of_int ks))"
    "fval (foldl (fadd F64) NegZero (map f64_of_int ks)) = of_int (sum_list ks)" by simp_all
  have "\<bar>sum_list ks\<bar> \<le> int (length ks) * 2 ^ 31" using k by (rule sum_list_bound)
  then have "\<bar>sum_list ks + b\<bar> < 2 ^ 53" using len assms(5) by simp
  from fadd_ints [OF this s(1) _ s(2), of "overhead_w c"] show ?thesis
    by (simp add: node_power_json [OF assms(1)] e assms(4) Let_def)
qed

text \<open>C37: What the POI meter and the PDU read from a node's Power resource is the exact sum of
  its GPUs' draws and its overhead, whole watts in, whole watts out.\<close>

theorem node_power_is_gpus_plus_overhead:
  assumes "json_laws lib" "gpu_draws (gpus n) ks" "length (gpus n) = GPUS"
    and "overhead_w (chassis n) = Num (of_int b)" "\<bar>b\<bar> \<le> 2 ^ 51"
  shows "\<exists>w. node_power lib (redfish_get lib n ''/redfish/v1/Chassis/1/Power'') = Some w
    \<and> is_finite w \<and> fval w = of_int (sum_list ks + b)"
  using node_power_whole [OF assms(1,2) _ assms(4,5)] assms(3)
  by (simp add: redfish_get_def chassis_routes_def GPUS_def)

theorem node_power_is_gpus_plus_overhead_witness:
  "\<exists>w. node_power serde (redfish_get serde demo_node ''/redfish/v1/Chassis/1/Power'') = Some w \<and> fval w = 10500"
proof -
  have "gpu_draws (gpus demo_node) (replicate 8 1000)"
    by (simp add: gpu_draws_def demo_node_def new_node_def GPUS_def power_whole)
  moreover have "length (gpus demo_node) = GPUS" "overhead_w (chassis demo_node) = Num (of_int 2500)"
    by (simp_all add: demo_node_def new_node_def)
  ultimately show ?thesis
    using node_power_is_gpus_plus_overhead [OF serde_laws, of demo_node "replicate 8 1000" 2500]
    by (auto simp: sum_list_replicate)
qed

end
