(* ===== verification/PduFollow.thy ===== *)
theory PduFollow
  imports SnmpProps RedfishProps
begin

text \<open>
  The task of pdu_load.rs that follows a GPU node: it fetches the node's Power resource,
  computes the readings and stores them.  What the HTTP client got is an input.
\<close>

datatype fetch_error = NoAnswer | NoPowerConsumed

text \<open>\<open>node_power\<close> of pdu_load.rs; no body is a failed request, an error status or no JSON.
  Writing a body out and parsing it is taken to be the identity on JSON values.\<close>

definition pdu_node_power :: "'v json_lib \<Rightarrow> 'v option \<Rightarrow> fetch_error + fp" where
  "pdu_node_power lib body =
     (case body of
        None \<Rightarrow> Inl NoAnswer
      | Some b \<Rightarrow>
          (case Option.bind (pointer lib b [''PowerControl'', ''0'', ''PowerConsumedWatts'']) (as_f64 lib) of
             None \<Rightarrow> Inl NoPowerConsumed
           | Some w \<Rightarrow> Inr w))"

text \<open>
  One round: a failed read leaves everything; otherwise the readings are computed from the
  values \<open>seen\<close> under their own lock and stored.
\<close>

definition load_round :: "'v json_lib \<Rightarrow> pdu_load \<Rightarrow> 'v option \<Rightarrow> oid_map \<Rightarrow> snmp_state \<Rightarrow> snmp_state" where
  "load_round lib load body seen s =
     (case pdu_node_power lib body of
        Inl _ \<Rightarrow> s
      | Inr nd \<Rightarrow> store (readings load nd seen) s)"

text \<open>It reads what the POI meter reads, and a round is a load event or nothing.\<close>

lemma pdu_node_power_eq:
  "pdu_node_power lib body = (case node_power lib body of Some w \<Rightarrow> Inr w
     | None \<Rightarrow> Inl (if body = None then NoAnswer else NoPowerConsumed))"
  by (auto simp: pdu_node_power_def node_power_def split: option.splits)

lemma load_round_event:
  "load_round lib load body seen s = (case node_power lib body of None \<Rightarrow> s
     | Some nd \<Rightarrow> snmp_step (StoreLoad load nd seen) s)"
  by (simp add: load_round_def pdu_node_power_eq split: option.split)

lemma readings_distinct: "distinct (map fst (readings load nd seen))"
  by (auto simp: readings_def Let_def intro!: map_extend_distinct distinct_update)

lemma store_readings_lookup:
  "map_of (oid_values (store (readings load nd seen) s)) k =
    (case map_of (readings load nd seen) k of None \<Rightarrow> map_of (oid_values s) k | Some v \<Rightarrow> Some v)"
  by (simp add: store_fields map_extend_lookup map_of_rev_distinct readings_distinct)

text \<open>C12: The PDU reports the node it feeds: after a round over a node's Redfish Power resource, a
  Get of the Sentry4 cord and a Get of the Raritan inlet both answer its share of the
  nodes' draw under the GPUs' current caps plus its base load, rounded to a whole watt;
  they belong to the control surface from then on; and a round whose read fails changes
  nothing.\<close>

theorem pdu_follows_the_node:
  fixes seen :: oid_map and s :: snmp_state
  assumes "json_laws lib" "gpu_draws (gpus n) ks" "length (gpus n) = GPUS"
    and "overhead_w (chassis n) = Num (of_int b)" "\<bar>b\<bar> \<le> 2 ^ 51"
    and "load_nodes load = Num (of_int m)" "load_base_w load = Num (of_int base)" "load_share load = Num (of_int k)"
    and "0 < k" "\<bar>m * (sum_list ks + b)\<bar> < 2 ^ 53" "\<bar>m * (sum_list ks + b) + base\<bar> < 2 ^ 53"
  defines "s' \<equiv> load_round lib load (redfish_get lib n ''/redfish/v1/Chassis/1/Power'') seen s"
  shows "(\<exists>v. answer (oid_values s') False (sentry4 3 []) = (sentry4 3 [], Some v)
      \<and> answer (oid_values s') False inlet_power = (inlet_power, Some v)
      \<and> sint v = round_away (frnd F64 (of_int (m * (sum_list ks + b) + base) / of_int k)))
    \<and> {sentry4 3 [], inlet_power} \<subseteq> oid_driven s'
    \<and> load_round lib load None seen s = s"
proof -
  obtain w where w: "node_power lib (redfish_get lib n ''/redfish/v1/Chassis/1/Power'') = Some w"
    "is_finite w \<and> fval w = of_int (sum_list ks + b)"
    using node_power_whole [OF assms(1,2) _ assms(4,5)] assms(3)
    by (auto simp: redfish_get_def chassis_routes_def GPUS_def)
  have s': "s' = store (readings load w seen) s" by (simp add: s'_def load_round_event w(1))
  from pdu_reports_its_share [OF assms(6-8) w(2) assms(9-11), of seen] obtain v where
    v: "map_of (readings load w seen) (sentry4 3 []) = Some v" "map_of (readings load w seen) inlet_power = Some v"
    "sint v = round_away (frnd F64 (of_int (m * (sum_list ks + b) + base) / of_int k))" by blast
  have "{sentry4 3 [], inlet_power} \<subseteq> oid_driven s'"
    using v(1,2) unfolding s' store_fields by (force dest: map_of_SomeD)
  moreover have "load_round lib load None seen s = s" by (simp add: load_round_def pdu_node_power_def)
  ultimately show ?thesis using v by (simp add: s' answer_def store_readings_lookup)
qed

theorem pdu_follows_the_node_witness:
  "\<exists>v. answer (oid_values (load_round serde \<lparr>load_nodes = Num 7, load_share = Num 4, load_base_w = Num 3000\<rparr>
       (redfish_get serde demo_node ''/redfish/v1/Chassis/1/Power'') initial_values snmp_init)) False inlet_power
     = (inlet_power, Some v) \<and> sint v = 19125"
proof -
  have "round_away (frnd F64 (76500 / 4)) = 19125" by (simp add: rnd_eval prec.simps emin.simps)
  moreover have "gpu_draws (gpus demo_node) (replicate 8 1000)"
    by (simp add: gpu_draws_def demo_node_def new_node_def GPUS_def power_whole)
  moreover have "length (gpus demo_node) = GPUS" "overhead_w (chassis demo_node) = Num (of_int 2500)"
    by (simp_all add: demo_node_def new_node_def)
  ultimately show ?thesis
    using pdu_follows_the_node [OF serde_laws, of demo_node "replicate 8 1000" 2500
        "\<lparr>load_nodes = Num 7, load_share = Num 4, load_base_w = Num 3000\<rparr>" 7 3000 4 initial_values snmp_init]
    by (auto simp: sum_list_replicate)
qed

end
