(* ===== verification/SnmpV3.thy ===== *)
theory SnmpV3
  imports SnmpAgent
begin

text \<open>
  The v3 side of mock-snmp-agent: key derivation, message authentication and privacy
  (\<open>usm.rs\<close>), the handler of one v3 datagram (\<open>v3.rs\<close>), and the dispatch by version with
  the agent's start-up (\<open>main.rs\<close>).  The BER codec (rasn), SHA-256, HMAC and AES-CFB are
  the fields of one parameter; the salt a reply draws and the seconds since boot are
  inputs.
\<close>

subsection \<open>Parameters: the codec and the primitives\<close>

record scoped_pdu =
  ctx_engine_id :: bytes
  ctx_name :: bytes
  ctx_data :: pdus

datatype scoped_pdu_data = CleartextPdu scoped_pdu | EncryptedPdu bytes

record v3_message =
  v3_version :: int
  message_id :: int
  max_size :: int
  flags :: bytes
  security_model :: int
  security_parameters :: bytes
  scoped_data :: scoped_pdu_data

record usm_params =
  authoritative_engine_id :: bytes
  authoritative_engine_boots :: int
  authoritative_engine_time :: int
  user_name :: bytes
  authentication_parameters :: bytes
  privacy_parameters :: bytes

record v3_lib =
  decode_message :: "bytes \<Rightarrow> v3_message option"
  encode_message :: "v3_message \<Rightarrow> bytes option"
  decode_usm :: "bytes \<Rightarrow> usm_params option"
  encode_usm :: "usm_params \<Rightarrow> bytes option"
  decode_scoped :: "bytes \<Rightarrow> scoped_pdu option"
  encode_scoped :: "scoped_pdu \<Rightarrow> bytes option"
  valid_oid :: "oid \<Rightarrow> bool"
  sha256 :: "bytes \<Rightarrow> bytes"
  hmac_sha256 :: "bytes \<Rightarrow> bytes \<Rightarrow> bytes"
  cfb_encrypt :: "bytes \<Rightarrow> bytes \<Rightarrow> bytes \<Rightarrow> bytes"
  cfb_decrypt :: "bytes \<Rightarrow> bytes \<Rightarrow> bytes \<Rightarrow> bytes"

subsection \<open>Primitives (usm.rs)\<close>

definition PRIV_KEY_LEN :: nat where "PRIV_KEY_LEN = 16"
definition AUTH_TRUNC_LEN :: nat where "AUTH_TRUNC_LEN = 24"

text \<open>The inner loop: \<open>n\<close> bytes of the password from index \<open>i\<close> on, and the next index.\<close>

primrec fill :: "nat \<Rightarrow> bytes \<Rightarrow> nat \<Rightarrow> bytes \<times> nat" where
  "fill 0 password i = ([], i)"
| "fill (Suc n) password i =
     (let (bs, j) = fill n password ((i + 1) mod length password) in (password ! i # bs, j))"

text \<open>The bytes hashed over \<open>r\<close> rounds of the outer loop.\<close>

primrec stretch :: "nat \<Rightarrow> bytes \<Rightarrow> nat \<Rightarrow> bytes" where
  "stretch 0 password i = []"
| "stretch (Suc r) password i = (let (buf, j) = fill 64 password i in buf @ stretch r password j)"

text \<open>An empty password makes the first index out of bounds: a panic.\<close>

definition derive_localized_key :: "v3_lib \<Rightarrow> bytes \<Rightarrow> bytes \<Rightarrow> bytes option" where
  "derive_localized_key lib password eid =
     (if password = [] then None
      else let key = sha256 lib (stretch 16384 password 0) in Some (sha256 lib (key @ eid @ key)))"

definition hmac_sign :: "v3_lib \<Rightarrow> bytes \<Rightarrow> bytes \<Rightarrow> bytes" where
  "hmac_sign lib auth_key message = take AUTH_TRUNC_LEN (hmac_sha256 lib auth_key message)"

definition to_be_bytes :: "u32 \<Rightarrow> bytes" where
  "to_be_bytes x = map (\<lambda>k. ucast (drop_bit k x)) [24, 16, 8, 0]"

text \<open>\<open>priv_params[..8]\<close> panics on a shorter salt.\<close>

definition build_iv :: "u32 \<Rightarrow> u32 \<Rightarrow> bytes \<Rightarrow> bytes option" where
  "build_iv boots time salt =
     (if length salt < 8 then None else Some (to_be_bytes boots @ to_be_bytes time @ take 8 salt))"

definition aes_cfb_decrypt :: "v3_lib \<Rightarrow> bytes \<Rightarrow> bytes \<Rightarrow> u32 \<Rightarrow> u32 \<Rightarrow> bytes \<Rightarrow> bytes option" where
  "aes_cfb_decrypt lib ct key boots time salt =
     (case build_iv boots time salt of None \<Rightarrow> None
      | Some iv \<Rightarrow> if length key < PRIV_KEY_LEN then None
          else Some (cfb_decrypt lib (take PRIV_KEY_LEN key) iv ct))"

text \<open>The eight random bytes are the argument \<open>salt\<close>; the result carries them.\<close>

definition aes_cfb_encrypt :: "v3_lib \<Rightarrow> bytes \<Rightarrow> bytes \<Rightarrow> bytes \<Rightarrow> u32 \<Rightarrow> u32 \<Rightarrow> (bytes \<times> bytes) option" where
  "aes_cfb_encrypt lib salt pt key boots time =
     (case build_iv boots time salt of None \<Rightarrow> None
      | Some iv \<Rightarrow> if length key < PRIV_KEY_LEN then None
          else Some (cfb_encrypt lib (take PRIV_KEY_LEN key) iv pt, salt))"

subsection \<open>The agent (v3.rs)\<close>

record usm_user =
  auth_key :: bytes
  priv_key :: bytes

record agent_state =
  engine_id :: bytes
  engine_boots :: u32
  users :: "bytes \<rightharpoonup> usm_user"

definition agent_new :: "bytes \<Rightarrow> agent_state" where
  "agent_new eid = \<lparr>engine_id = eid, engine_boots = 1, users = Map.empty\<rparr>"

definition register_user ::
  "v3_lib \<Rightarrow> bytes \<Rightarrow> bytes \<Rightarrow> bytes \<Rightarrow> agent_state \<Rightarrow> agent_state option" where
  "register_user lib name auth_pass priv_pass s =
     (case (derive_localized_key lib auth_pass (engine_id s), derive_localized_key lib priv_pass (engine_id s)) of
        (Some a, Some p) \<Rightarrow>
          Some (s\<lparr>users := (users s)(name \<mapsto> \<lparr>auth_key = a, priv_key = take PRIV_KEY_LEN p\<rparr>)\<rparr>)
      | _ \<Rightarrow> None)"

definition engine_time :: "nat \<Rightarrow> u32" where
  "engine_time elapsed_secs = (if elapsed_secs < 2 ^ 32 then of_nat elapsed_secs else - 1)"

text \<open>\<open>str::from_utf8\<close> as a test: the well-formed byte sequences of UTF-8.\<close>

definition is_cont :: "u8 \<Rightarrow> bool" where
  "is_cont b \<longleftrightarrow> 0x80 \<le> b \<and> b \<le> 0xBF"

fun utf8_ok :: "bytes \<Rightarrow> bool" where
  "utf8_ok [] = True"
| "utf8_ok (a # r) =
     (if a < 0x80 then utf8_ok r
      else if 0xC2 \<le> a \<and> a \<le> 0xDF then (case r of b # r' \<Rightarrow> is_cont b \<and> utf8_ok r' | _ \<Rightarrow> False)
      else if 0xE0 \<le> a \<and> a \<le> 0xEF then
        (case r of b # c # r' \<Rightarrow> is_cont b \<and> (a = 0xE0 \<longrightarrow> 0xA0 \<le> b) \<and> (a = 0xED \<longrightarrow> b \<le> 0x9F)
           \<and> is_cont c \<and> utf8_ok r' | _ \<Rightarrow> False)
      else if 0xF0 \<le> a \<and> a \<le> 0xF4 then
        (case r of b # c # d # r' \<Rightarrow> is_cont b \<and> (a = 0xF0 \<longrightarrow> 0x90 \<le> b) \<and> (a = 0xF4 \<longrightarrow> b \<le> 0x8F)
           \<and> is_cont c \<and> is_cont d \<and> utf8_ok r' | _ \<Rightarrow> False)
      else False)"

text \<open>\<open>windows(needle.len()).position(|w| w == needle)\<close> for a needle that is not empty.\<close>

primrec find_sub :: "bytes \<Rightarrow> bytes \<Rightarrow> nat option" where
  "find_sub needle [] = None"
| "find_sub needle (x # xs) =
     (if take (length needle) (x # xs) = needle then Some 0 else map_option Suc (find_sub needle xs))"

definition splice_at :: "nat \<Rightarrow> bytes \<Rightarrow> bytes \<Rightarrow> bytes" where
  "splice_at pos new raw = take pos raw @ new @ drop (pos + length new) raw"

definition tag_needle :: "bytes \<Rightarrow> bytes" where
  "tag_needle tag = 4 # of_nat AUTH_TRUNC_LEN # tag"

definition verify_hmac :: "v3_lib \<Rightarrow> bytes \<Rightarrow> bytes \<Rightarrow> bytes \<Rightarrow> bool" where
  "verify_hmac lib raw auth_params key =
     (if length auth_params \<noteq> AUTH_TRUNC_LEN then False
      else case find_sub (tag_needle auth_params) raw of None \<Rightarrow> False
      | Some pos \<Rightarrow> hmac_sign lib key (splice_at (pos + 2) (replicate AUTH_TRUNC_LEN 0) raw) = auth_params)"

text \<open>The second half of \<open>build_authenticated_reply\<close>: the tag replaces the zero placeholder.\<close>

definition sign_message :: "v3_lib \<Rightarrow> bytes \<Rightarrow> bytes \<Rightarrow> bytes option" where
  "sign_message lib key raw =
     (case find_sub (tag_needle (replicate AUTH_TRUNC_LEN 0)) raw of None \<Rightarrow> None
      | Some pos \<Rightarrow> Some (splice_at (pos + 2) (hmac_sign lib key raw) raw))"

definition with_usm :: "v3_lib \<Rightarrow> usm_params \<Rightarrow> v3_message \<Rightarrow> bytes option" where
  "with_usm lib usm m =
     (case encode_usm lib usm of None \<Rightarrow> None
      | Some sp \<Rightarrow> encode_message lib (m\<lparr>security_parameters := sp\<rparr>))"

text \<open>The reply before it is signed: its security parameters, with a zero placeholder for the
  tag, and the message that carries them.\<close>

definition reply_message ::
  "v3_lib \<Rightarrow> bytes \<Rightarrow> nat \<Rightarrow> v3_message \<Rightarrow> usm_user \<Rightarrow> agent_state \<Rightarrow> scoped_pdu \<Rightarrow> bool
     \<Rightarrow> (usm_params \<times> v3_message) option" where
  "reply_message lib salt elapsed request user s response_scoped encrypt =
     (let boots = engine_boots s; time = engine_time elapsed in
      map_option (\<lambda>(data, priv_params).
          (\<lparr>authoritative_engine_id = engine_id s,
             authoritative_engine_boots = uint boots, authoritative_engine_time = uint time,
             user_name = (case decode_usm lib (security_parameters request) of
               None \<Rightarrow> [] | Some u \<Rightarrow> user_name u),
             authentication_parameters = replicate AUTH_TRUNC_LEN 0,
             privacy_parameters = priv_params\<rparr>,
           \<lparr>v3_version = v3_version request, message_id = message_id request,
             max_size = max_size request, flags = [if encrypt then 3 else 1], security_model = 3,
             security_parameters = [], scoped_data = data\<rparr>))
        (if encrypt
         then Option.bind (encode_scoped lib response_scoped) (\<lambda>pt.
           map_option (\<lambda>(ct, priv_params). (EncryptedPdu ct, priv_params))
             (aes_cfb_encrypt lib salt pt (priv_key user) boots time))
         else Some (CleartextPdu response_scoped, [])))"

definition build_authenticated_reply ::
  "v3_lib \<Rightarrow> bytes \<Rightarrow> nat \<Rightarrow> v3_message \<Rightarrow> usm_user \<Rightarrow> agent_state \<Rightarrow> scoped_pdu \<Rightarrow> bool \<Rightarrow> bytes option" where
  "build_authenticated_reply lib salt elapsed request user s response_scoped encrypt =
     Option.bind (reply_message lib salt elapsed request user s response_scoped encrypt)
       (\<lambda>(response_usm, response).
          Option.bind (with_usm lib response_usm response) (sign_message lib (auth_key user)))"

definition USM_STATS_UNKNOWN_ENGINE_IDS :: oid where
  "USM_STATS_UNKNOWN_ENGINE_IDS = [1, 3, 6, 1, 6, 3, 15, 1, 1, 4, 0]"

definition extract_request_id :: "v3_message \<Rightarrow> i32 option" where
  "extract_request_id message =
     (case scoped_data message of
        EncryptedPdu _ \<Rightarrow> None
      | CleartextPdu s \<Rightarrow>
          (case ctx_data s of
             GetRequest req \<Rightarrow> Some (request_id req)
           | GetNextRequest req \<Rightarrow> Some (request_id req)
           | GetBulkRequest req \<Rightarrow> Some (request_id req)
           | _ \<Rightarrow> None))"

definition build_discovery_report ::
  "v3_lib \<Rightarrow> nat \<Rightarrow> v3_message \<Rightarrow> usm_params \<Rightarrow> agent_state \<Rightarrow> bytes option" where
  "build_discovery_report lib elapsed request request_usm s =
     (if \<not> valid_oid lib USM_STATS_UNKNOWN_ENGINE_IDS then None
      else let report_pdu = \<lparr>request_id = (case extract_request_id request of None \<Rightarrow> 0 | Some i \<Rightarrow> i),
                 error_status = 0, error_index = 0,
                 variable_bindings = [(USM_STATS_UNKNOWN_ENGINE_IDS, IntegerValue 1)]\<rparr>;
               scoped = \<lparr>ctx_engine_id = engine_id s, ctx_name = [], ctx_data = Report report_pdu\<rparr>;
               response_usm = \<lparr>authoritative_engine_id = engine_id s,
                 authoritative_engine_boots = uint (engine_boots s),
                 authoritative_engine_time = uint (engine_time elapsed),
                 user_name = user_name request_usm,
                 authentication_parameters = [], privacy_parameters = []\<rparr>;
               response = \<lparr>v3_version = v3_version request, message_id = message_id request,
                 max_size = max_size request, flags = [4], security_model = 3,
                 security_parameters = [], scoped_data = CleartextPdu scoped\<rparr> in
           with_usm lib response_usm response)"

subsection \<open>One v3 datagram\<close>

datatype v3_outcome = Panicked | Dropped | Reply bytes

primrec reply_of :: "bytes option \<Rightarrow> v3_outcome" where
  "reply_of None = Panicked"
| "reply_of (Some bs) = Reply bs"

text \<open>\<open>u32::try_from(..).unwrap_or(0)\<close>.\<close>

definition to_u32 :: "int \<Rightarrow> u32" where
  "to_u32 i = (if 0 \<le> i \<and> i < 2 ^ 32 then of_int i else 0)"

text \<open>The scoped PDU of a request, decrypted when it has to be.\<close>

definition open_scoped ::
  "v3_lib \<Rightarrow> v3_message \<Rightarrow> usm_params \<Rightarrow> usm_user \<Rightarrow> bool \<Rightarrow> v3_outcome + scoped_pdu" where
  "open_scoped lib message usm user want_priv =
     (case scoped_data message of
        CleartextPdu p \<Rightarrow> Inr p
      | EncryptedPdu ct \<Rightarrow>
          (if \<not> want_priv then Inl Dropped
           else case aes_cfb_decrypt lib ct (priv_key user) (to_u32 (authoritative_engine_boots usm))
                  (to_u32 (authoritative_engine_time usm)) (privacy_parameters usm) of
             None \<Rightarrow> Inl Panicked
           | Some plaintext \<Rightarrow>
               (case decode_scoped lib plaintext of None \<Rightarrow> Inl Dropped | Some p \<Rightarrow> Inr p)))"

definition serve_scoped ::
  "v3_lib \<Rightarrow> bytes \<Rightarrow> nat \<Rightarrow> v3_message \<Rightarrow> usm_user \<Rightarrow> agent_state \<Rightarrow> oid_map \<Rightarrow> bool \<Rightarrow> scoped_pdu
     \<Rightarrow> v3_outcome" where
  "serve_scoped lib salt elapsed message user s values want_priv scoped =
     (let answered = (\<lambda>req nx.
        case build_response (valid_oid lib) req values nx of
          None \<Rightarrow> Panicked
        | Some response_pdu \<Rightarrow>
            reply_of (build_authenticated_reply lib salt elapsed message user s
              \<lparr>ctx_engine_id = engine_id s, ctx_name = ctx_name scoped, ctx_data = Response response_pdu\<rparr>
              want_priv)) in
      case ctx_data scoped of
        GetRequest req \<Rightarrow> answered req False
      | GetNextRequest req \<Rightarrow> answered req True
      | _ \<Rightarrow> Dropped)"

text \<open>The path of a message that names a registered user of this engine.\<close>

definition v3_authenticated ::
  "v3_lib \<Rightarrow> bytes \<Rightarrow> nat \<Rightarrow> bytes \<Rightarrow> agent_state \<Rightarrow> oid_map \<Rightarrow> v3_message \<Rightarrow> usm_params \<Rightarrow> usm_user
     \<Rightarrow> v3_outcome" where
  "v3_authenticated lib salt elapsed datagram s values message usm user =
     (let fl = (case flags message of [] \<Rightarrow> 0 | f # _ \<Rightarrow> f);
          want_auth = (fl AND 1 \<noteq> 0); want_priv = (fl AND 2 \<noteq> 0) in
      if want_auth \<and> \<not> verify_hmac lib datagram (authentication_parameters usm) (auth_key user)
      then Dropped
      else case open_scoped lib message usm user want_priv of
        Inl out \<Rightarrow> out
      | Inr scoped \<Rightarrow> serve_scoped lib salt elapsed message user s values want_priv scoped)"

definition handle_v3_datagram ::
  "v3_lib \<Rightarrow> bytes \<Rightarrow> nat \<Rightarrow> bytes \<Rightarrow> agent_state \<Rightarrow> oid_map \<Rightarrow> v3_outcome" where
  "handle_v3_datagram lib salt elapsed datagram s values =
     (case decode_message lib datagram of
        None \<Rightarrow> Dropped
      | Some message \<Rightarrow>
     (case decode_usm lib (security_parameters message) of
        None \<Rightarrow> Dropped
      | Some usm \<Rightarrow>
          if authoritative_engine_id usm = [] then
            reply_of (build_discovery_report lib elapsed message usm s)
          else if authoritative_engine_id usm \<noteq> engine_id s then Dropped
          else
     (case users s (if utf8_ok (user_name usm) then user_name usm else []) of
        None \<Rightarrow> Dropped
      | Some user \<Rightarrow> v3_authenticated lib salt elapsed datagram s values message usm user)))"

subsection \<open>Start-up and dispatch (main.rs)\<close>

definition to_bytes :: "string \<Rightarrow> bytes" where
  "to_bytes s = map of_char s"

definition ENGINE_ID :: bytes where
  "ENGINE_ID = [0x80, 0, 0x86, 0x9F, 5] @ to_bytes ''mock'' @ [0, 0, 0, 1]"

text \<open>No agent without \<open>SNMP_V3_AUTH_PASS\<close>; the outer \<open>None\<close> is a panic.\<close>

definition agent_from_env :: "v3_lib \<Rightarrow> env \<Rightarrow> agent_state option option" where
  "agent_from_env lib env =
     (case env ''SNMP_V3_AUTH_PASS'' of
        None \<Rightarrow> Some None
      | Some auth_pass \<Rightarrow>
          (case env ''SNMP_V3_PRIV_PASS'' of
             None \<Rightarrow> None
           | Some priv_pass \<Rightarrow>
               (let user = (case env ''SNMP_V3_USER'' of None \<Rightarrow> ''gateway'' | Some u \<Rightarrow> u) in
                map_option Some (register_user lib (to_bytes user) (to_bytes auth_pass)
                  (to_bytes priv_pass) (agent_new ENGINE_ID)))))"

record snmp_settings =
  snmp_port :: nat
  snmp_tick_ms :: nat
  snmp_control_port :: nat

definition snmp_settings_from_env :: "env \<Rightarrow> snmp_settings" where
  "snmp_settings_from_env env =
     \<lparr>snmp_port = env_uint env 16 ''PORT'' 161, snmp_tick_ms = env_uint env 64 ''TICK_MS'' 1000,
      snmp_control_port = env_uint env 16 ''CONTROL_PORT'' 8080\<rparr>"

text \<open>The load follower runs only when \<open>PDU_LOAD_URL\<close> is set.\<close>

definition spawn_load_from_env :: "env \<Rightarrow> startup_error + (string \<times> pdu_load) option" where
  "spawn_load_from_env env =
     (case env ''PDU_LOAD_URL'' of
        None \<Rightarrow> Inr None
      | Some url \<Rightarrow> (case pdu_load_from_env env of Inl e \<Rightarrow> Inl e | Inr l \<Rightarrow> Inr (Some (url, l))))"

text \<open>\<open>main\<close> up to its loops, given that the sockets can be bound.\<close>

definition snmp_main ::
  "v3_lib \<Rightarrow> env
     \<Rightarrow> (startup_error + snmp_settings \<times> snmp_state \<times> (string \<times> pdu_load) option \<times> agent_state option) option" where
  "snmp_main lib env =
     (case spawn_load_from_env env of
        Inl e \<Rightarrow> Some (Inl e)
      | Inr load \<Rightarrow>
          map_option (\<lambda>agent. Inr (snmp_settings_from_env env, snmp_init, load, agent))
            (agent_from_env lib env))"

definition serve_datagram ::
  "v3_lib \<Rightarrow> (bytes \<Rightarrow> v2c_message option) \<Rightarrow> (v2c_message \<Rightarrow> bytes option) \<Rightarrow> bytes \<Rightarrow> nat
     \<Rightarrow> agent_state option \<Rightarrow> oid_map \<Rightarrow> bytes \<Rightarrow> v3_outcome" where
  "serve_datagram lib decode encode salt elapsed agent values datagram =
     (if peek_snmp_version datagram = Some 3 then
        (case agent of None \<Rightarrow> Dropped
         | Some s \<Rightarrow> handle_v3_datagram lib salt elapsed datagram s values)
      else case handle_datagram (valid_oid lib) decode encode datagram values of
        None \<Rightarrow> Panicked
      | Some (Inl e) \<Rightarrow> Dropped
      | Some (Inr bs) \<Rightarrow> Reply bs)"

end
