(* ===== verification/SnmpV3Props.thy ===== *)
theory SnmpV3Props
  imports SnmpV3
begin

text \<open>
  The properties of the v3 side: key derivation, the authentication tag, privacy, and
  which datagrams are answered at all.  The witnesses run a toy codec and toy primitives
  that satisfy the laws the properties assume.
\<close>

subsection \<open>Key derivation\<close>

lemma fill_spec:
  "password \<noteq> [] \<Longrightarrow> fill n password (i mod length password) =
    (map (\<lambda>k. password ! ((i + k) mod length password)) [0..<n], (i + n) mod length password)"
proof (induction n arbitrary: i)
  case (Suc n)
  have "(i mod length password + 1) mod length password = (i + 1) mod length password"
    by (simp add: mod_Suc_eq)
  then have "fill (Suc n) password (i mod length password) =
      (password ! (i mod length password) # map (\<lambda>k. password ! ((i + 1 + k) mod length password)) [0..<n],
       (i + 1 + n) mod length password)"
    using Suc.IH [of "i + 1"] Suc.prems by simp
  moreover have "map (\<lambda>k. password ! ((i + k) mod length password)) [0..<Suc n] =
      password ! (i mod length password) # map (\<lambda>k. password ! ((i + 1 + k) mod length password)) [0..<n]"
    by (simp add: upt_conv_Cons map_Suc_upt [symmetric] del: upt_Suc)
  ultimately show ?case by simp
qed simp

lemma stretch_spec:
  "password \<noteq> [] \<Longrightarrow> stretch r password (i mod length password) =
    map (\<lambda>k. password ! ((i + k) mod length password)) [0..<64 * r]"
proof (induction r arbitrary: i)
  case (Suc r)
  have "stretch (Suc r) password (i mod length password) =
      map (\<lambda>k. password ! ((i + k) mod length password)) [0..<64] @
      map (\<lambda>k. password ! ((i + 64 + k) mod length password)) [0..<64 * r]"
    using Suc.IH [of "i + 64"] Suc.prems by (simp add: fill_spec)
  also have "map (\<lambda>k. password ! ((i + 64 + k) mod length password)) [0..<64 * r]
      = map (\<lambda>k. password ! ((i + k) mod length password)) [64..<64 + 64 * r]"
    by (rule nth_equalityI) (simp_all add: add.assoc)
  also have "map (\<lambda>k. password ! ((i + k) mod length password)) [0..<64] @ \<dots>
      = map (\<lambda>k. password ! ((i + k) mod length password)) [0..<64 * Suc r]"
    using upt_add_eq_append [of 0 64 "64 * r"] by (simp only: map_append [symmetric] mult_Suc_right)
  finally show ?case .
qed simp

text \<open>C23: The key derivation hashes exactly the first \<open>1048576\<close> bytes of the endlessly
  repeated password and localizes the digest with the engine id; only the empty
  password makes it panic.\<close>

theorem derive_localized_key_spec:
  "derive_localized_key lib password eid =
    (if password = [] then None
     else let key = sha256 lib (map (\<lambda>k. password ! (k mod length password)) [0..<1048576])
          in Some (sha256 lib (key @ eid @ key)))"
proof (cases "password = []")
  case False
  have "stretch 16384 password (0 mod length password)
      = map (\<lambda>k. password ! ((0 + k) mod length password)) [0..<64 * 16384]"
    using False by (rule stretch_spec)
  moreover have "64 * 16384 = (1048576 :: nat)" by simp
  ultimately have "stretch 16384 password 0 = map (\<lambda>k. password ! (k mod length password)) [0..<1048576]"
    by (simp only: mod_0 add_0)
  then show ?thesis using False by (simp only: derive_localized_key_def Let_def if_False)
qed (simp add: derive_localized_key_def)

subsection \<open>Authentication\<close>

lemma find_sub_Some:
  assumes "find_sub needle raw = Some pos" "needle \<noteq> []"
  shows "take (length needle) (drop pos raw) = needle" "pos + length needle \<le> length raw"
proof -
  have "take (length needle) (drop pos raw) = needle \<and> pos + length needle \<le> length raw"
    using assms
  proof (induction raw arbitrary: pos)
    case (Cons x xs)
    show ?case
    proof (cases "take (length needle) (x # xs) = needle")
      case True
      then have "length needle \<le> length (x # xs)" by (metis length_take min.cobounded1)
      then show ?thesis using True Cons.prems by simp
    next
      case False
      then obtain p where "find_sub needle xs = Some p" "pos = Suc p"
        using Cons.prems(1) by auto
      then show ?thesis using Cons.IH Cons.prems(2) by simp
    qed
  qed simp
  then show "take (length needle) (drop pos raw) = needle" "pos + length needle \<le> length raw" by auto
qed

lemma splice_split: "length a = pos \<Longrightarrow> length new = length old \<Longrightarrow> splice_at pos new (a @ old @ b) = a @ new @ b"
  by (simp add: splice_at_def)

lemma tag_needle_length [simp]: "length (tag_needle tag) = Suc (Suc (length tag))"
  by (simp add: tag_needle_def)

text \<open>Splicing the tag in and zeroing it again gives back the bytes that were signed.\<close>

lemma zero_of_signed:
  assumes "find_sub (tag_needle (replicate AUTH_TRUNC_LEN 0)) raw = Some pos" "length mac = AUTH_TRUNC_LEN"
  shows "splice_at (pos + 2) (replicate AUTH_TRUNC_LEN 0) (splice_at (pos + 2) mac raw) = raw"
proof -
  let ?z = "replicate AUTH_TRUNC_LEN (0 :: u8)"
  have t: "take (length (tag_needle ?z)) (drop pos raw) = tag_needle ?z"
    and l: "pos + length (tag_needle ?z) \<le> length raw"
    using find_sub_Some [OF assms(1)] by (simp_all add: tag_needle_def)
  let ?a = "take pos raw @ [4, of_nat AUTH_TRUNC_LEN]" and ?b = "drop (pos + length (tag_needle ?z)) raw"
  have "raw = take pos raw @ tag_needle ?z @ ?b"
    using t by (metis append_take_drop_id drop_drop add.commute)
  then have raw: "raw = ?a @ ?z @ ?b" by (simp add: tag_needle_def)
  have la: "length ?a = pos + 2" using l by simp
  have "splice_at (pos + 2) mac raw = ?a @ mac @ ?b"
    by (subst raw) (rule splice_split [OF la], simp add: assms(2))
  moreover have "splice_at (pos + 2) ?z (?a @ mac @ ?b) = ?a @ ?z @ ?b"
    by (rule splice_split [OF la]) (simp add: assms(2))
  ultimately show ?thesis using raw by simp
qed

text \<open>A toy codec and toy primitives for the witnesses.\<close>

definition toy_xor :: "bytes \<Rightarrow> bytes \<Rightarrow> bytes \<Rightarrow> bytes" where
  "toy_xor k iv xs = map (\<lambda>x. x XOR hd k XOR hd iv) xs"

definition toy_pdu :: scoped_pdu where
  "toy_pdu = \<lparr>ctx_engine_id = [1], ctx_name = [],
     ctx_data = GetRequest \<lparr>request_id = 5, error_status = 0, error_index = 0,
       variable_bindings = [([1, 3], Unspecified)]\<rparr>\<rparr>"

definition toy_message :: "bytes \<Rightarrow> v3_message" where
  "toy_message fl = \<lparr>v3_version = 3, message_id = 7, max_size = 65507, flags = fl, security_model = 3,
     security_parameters = [], scoped_data = CleartextPdu toy_pdu\<rparr>"

definition toy_usm :: "bytes \<Rightarrow> usm_params" where
  "toy_usm eid = \<lparr>authoritative_engine_id = eid, authoritative_engine_boots = 1,
     authoritative_engine_time = 0, user_name = [117], authentication_parameters = [],
     privacy_parameters = []\<rparr>"

definition toy_raw :: bytes where
  "toy_raw = 7 # tag_needle (replicate AUTH_TRUNC_LEN 0) @ [9]"

definition toy_lib :: "bytes \<Rightarrow> bytes \<Rightarrow> v3_lib" where
  "toy_lib eid fl = \<lparr>decode_message = (\<lambda>_. Some (toy_message fl)),
     encode_message = (\<lambda>_. Some toy_raw),
     decode_usm = (\<lambda>_. Some (toy_usm eid)), encode_usm = (\<lambda>_. Some []),
     decode_scoped = (\<lambda>_. Some toy_pdu), encode_scoped = (\<lambda>_. Some [1, 2, 3]),
     valid_oid = (\<lambda>_. True), sha256 = (\<lambda>_. replicate 32 1),
     hmac_sha256 = (\<lambda>_ _. replicate 32 6), cfb_encrypt = toy_xor, cfb_decrypt = toy_xor\<rparr>"

definition toy_state :: agent_state where
  "toy_state = \<lparr>engine_id = [1], engine_boots = 1,
     users = [[117] \<mapsto> \<lparr>auth_key = [2], priv_key = replicate 16 3\<rparr>]\<rparr>"

text \<open>A message the agent signs passes the agent's own verification under the same key:
  zeroing the tag in it gives back the bytes the tag was computed over.  HMAC-SHA-256
  yields 32 bytes; the tag must not by chance occur earlier in the message.\<close>

theorem signed_message_verifies:
  assumes "\<And>k m. length (hmac_sha256 lib k m) = 32"
    and "sign_message lib key raw = Some bs" "mac = hmac_sign lib key raw"
    and "find_sub (tag_needle mac) bs = find_sub (tag_needle (replicate AUTH_TRUNC_LEN 0)) raw"
  shows "verify_hmac lib bs mac key"
proof -
  obtain pos where pos: "find_sub (tag_needle (replicate AUTH_TRUNC_LEN 0)) raw = Some pos"
    and bs: "bs = splice_at (pos + 2) mac raw"
    using assms(2,3) by (auto simp: sign_message_def split: option.splits)
  have l: "length mac = AUTH_TRUNC_LEN"
    by (simp add: assms(1,3) hmac_sign_def AUTH_TRUNC_LEN_def)
  show ?thesis using zero_of_signed [OF pos l] assms(3,4) pos l by (simp add: verify_hmac_def bs)
qed

theorem signed_message_verifies_witness:
  "\<exists>bs. sign_message (toy_lib [1] [1]) [2] toy_raw = Some bs
     \<and> verify_hmac (toy_lib [1] [1]) bs (replicate 24 6) [2]"
proof -
  let ?lib = "toy_lib [1] [1]" and ?bs = "7 # tag_needle (replicate 24 6) @ [9 :: u8]"
  have z: "find_sub (tag_needle (replicate AUTH_TRUNC_LEN 0)) toy_raw = Some 1"
    by (simp add: toy_raw_def tag_needle_def AUTH_TRUNC_LEN_def)
  have m: "hmac_sign ?lib [2] toy_raw = replicate 24 6"
    by (simp add: hmac_sign_def toy_lib_def AUTH_TRUNC_LEN_def)
  have s: "sign_message ?lib [2] toy_raw = Some ?bs"
    by (simp add: sign_message_def z m splice_at_def) (simp add: toy_raw_def tag_needle_def AUTH_TRUNC_LEN_def)
  have "find_sub (tag_needle (replicate 24 6)) ?bs = Some 1"
    by (simp add: tag_needle_def AUTH_TRUNC_LEN_def)
  then have "verify_hmac ?lib ?bs (replicate 24 6) [2]"
    using signed_message_verifies [OF _ s m [symmetric]] z by (simp add: toy_lib_def)
  with s show ?thesis by blast
qed

subsection \<open>Privacy\<close>

lemma build_iv_length: "build_iv boots time salt = Some iv \<Longrightarrow> length iv = 16"
  by (auto simp: build_iv_def to_be_bytes_def split: if_splits)

text \<open>Decrypting with the boots, time and salt an encryption used gives back the plaintext,
  for every cipher whose decryption inverts its encryption under 16-byte keys and
  initialization vectors.\<close>

theorem aes_cfb_round_trip:
  assumes "\<And>k iv x. length k = 16 \<Longrightarrow> length iv = 16 \<Longrightarrow> cfb_decrypt lib k iv (cfb_encrypt lib k iv x) = x"
    and "aes_cfb_encrypt lib salt pt key boots time = Some (ct, salt')"
  shows "aes_cfb_decrypt lib ct key boots time salt' = Some pt"
  using assms build_iv_length [of boots time salt]
  by (auto simp: aes_cfb_encrypt_def aes_cfb_decrypt_def PRIV_KEY_LEN_def split: option.splits if_splits)

lemma toy_cipher: "toy_xor k iv (toy_xor k iv x) = x"
  by (simp add: toy_xor_def comp_def xor.assoc)

theorem aes_cfb_round_trip_witness:
  "\<exists>ct. aes_cfb_encrypt (toy_lib [1] [1]) (replicate 8 4) [1, 2, 3] (replicate 16 3) 1 0 = Some (ct, replicate 8 4)
     \<and> aes_cfb_decrypt (toy_lib [1] [1]) ct (replicate 16 3) 1 0 (replicate 8 4) = Some [1, 2, 3]"
proof -
  let ?l = "toy_lib [1] [1]"
  obtain ct where e: "aes_cfb_encrypt ?l (replicate 8 4) [1, 2, 3] (replicate 16 3) 1 0 = Some (ct, replicate 8 4)"
    by (simp add: aes_cfb_encrypt_def build_iv_def PRIV_KEY_LEN_def)
  have "cfb_decrypt ?l k iv (cfb_encrypt ?l k iv x) = x" for k iv x
    by (simp add: toy_lib_def toy_cipher)
  from aes_cfb_round_trip [OF this e] e show ?thesis by blast
qed

subsection \<open>Which datagrams are answered\<close>

lemma reply_of_Reply: "reply_of x = Reply bs \<longleftrightarrow> x = Some bs"
  by (cases x) auto

lemma serve_Reply:
  "serve_scoped lib salt t msg user s m wp scoped = Reply bs \<Longrightarrow>
   \<exists>req. ctx_data scoped = GetRequest req \<or> ctx_data scoped = GetNextRequest req"
  by (cases "ctx_data scoped") (auto simp: serve_scoped_def Let_def)

lemma open_not_Reply: "open_scoped lib msg usm user wp \<noteq> Inl (Reply bs)"
  by (auto simp: open_scoped_def split: scoped_pdu_data.splits option.splits)

lemma authenticated_Reply:
  assumes "v3_authenticated lib salt t datagram s m msg usm user = Reply bs"
  shows "\<exists>fl. fl = (case flags msg of [] \<Rightarrow> 0 | f # _ \<Rightarrow> f)
    \<and> (fl AND 1 \<noteq> 0 \<longrightarrow> verify_hmac lib datagram (authentication_parameters usm) (auth_key user))
    \<and> (\<exists>scoped. open_scoped lib msg usm user (fl AND 2 \<noteq> 0) = Inr scoped
         \<and> (\<exists>req. ctx_data scoped = GetRequest req \<or> ctx_data scoped = GetNextRequest req))"
proof -
  define fl where "fl = (case flags msg of [] \<Rightarrow> 0 | f # _ \<Rightarrow> f)"
  have h: "v3_authenticated lib salt t datagram s m msg usm user =
      (if fl AND 1 \<noteq> 0 \<and> \<not> verify_hmac lib datagram (authentication_parameters usm) (auth_key user)
       then Dropped
       else case open_scoped lib msg usm user (fl AND 2 \<noteq> 0) of Inl out \<Rightarrow> out
         | Inr scoped \<Rightarrow> serve_scoped lib salt t msg user s m (fl AND 2 \<noteq> 0) scoped)"
    by (simp only: v3_authenticated_def fl_def Let_def)
  have v: "fl AND 1 \<noteq> 0 \<longrightarrow> verify_hmac lib datagram (authentication_parameters usm) (auth_key user)"
    using assms unfolding h by (metis v3_outcome.distinct(5))
  have "(case open_scoped lib msg usm user (fl AND 2 \<noteq> 0) of Inl out \<Rightarrow> out
       | Inr scoped \<Rightarrow> serve_scoped lib salt t msg user s m (fl AND 2 \<noteq> 0) scoped) = Reply bs"
    using assms v unfolding h by metis
  then obtain scoped where sc: "open_scoped lib msg usm user (fl AND 2 \<noteq> 0) = Inr scoped"
    and sv: "serve_scoped lib salt t msg user s m (fl AND 2 \<noteq> 0) scoped = Reply bs"
    using open_not_Reply by (cases "open_scoped lib msg usm user (fl AND 2 \<noteq> 0)") auto
  show ?thesis
    by (rule exI [of _ fl], intro conjI, rule fl_def, rule v, rule exI [of _ scoped], intro conjI,
        rule sc, rule serve_Reply [OF sv])
qed

text \<open>C8: A v3 datagram is answered only when it decodes and either asks for the engine id, or
  names this engine and a registered user, carries a valid tag when its authentication
  flag is set, and holds a Get or GetNext request in clear or under the privacy flag.\<close>

theorem v3_reply_conditions:
  assumes "handle_v3_datagram lib salt t datagram s m = Reply bs"
  shows "\<exists>msg usm. decode_message lib datagram = Some msg \<and> decode_usm lib (security_parameters msg) = Some usm
    \<and> (authoritative_engine_id usm = [] \<and> build_discovery_report lib t msg usm s = Some bs
       \<or> authoritative_engine_id usm = engine_id s
         \<and> (\<exists>user fl. users s (if utf8_ok (user_name usm) then user_name usm else []) = Some user
            \<and> fl = (case flags msg of [] \<Rightarrow> 0 | f # _ \<Rightarrow> f)
            \<and> (fl AND 1 \<noteq> 0 \<longrightarrow> verify_hmac lib datagram (authentication_parameters usm) (auth_key user))
            \<and> (\<exists>scoped. open_scoped lib msg usm user (fl AND 2 \<noteq> 0) = Inr scoped
                 \<and> (\<exists>req. ctx_data scoped = GetRequest req \<or> ctx_data scoped = GetNextRequest req))))"
proof -
  from assms obtain msg usm where d: "decode_message lib datagram = Some msg"
    "decode_usm lib (security_parameters msg) = Some usm"
    by (auto simp: handle_v3_datagram_def split: option.splits)
  show ?thesis
  proof (cases "authoritative_engine_id usm = []")
    case True
    then have "build_discovery_report lib t msg usm s = Some bs"
      using assms reply_of_Reply by (simp add: handle_v3_datagram_def d)
    then show ?thesis using d True by blast
  next
    case False
    then have e: "authoritative_engine_id usm = engine_id s"
      using assms by (simp add: handle_v3_datagram_def d split: if_splits)
    from False e obtain user where u: "users s (if utf8_ok (user_name usm) then user_name usm else []) = Some user"
      "v3_authenticated lib salt t datagram s m msg usm user = Reply bs"
      using assms by (simp add: handle_v3_datagram_def d split: option.splits)
    from authenticated_Reply [OF u(2)] d e u(1) show ?thesis by blast
  qed
qed

theorem v3_reply_conditions_witness:
  "\<exists>bs. handle_v3_datagram (toy_lib [] [4]) [] 0 [0] toy_state [] = Reply bs
     \<and> build_discovery_report (toy_lib [] [4]) 0 (toy_message [4]) (toy_usm []) toy_state = Some bs"
proof -
  let ?l = "toy_lib [] [4]"
  have "\<exists>bs. handle_v3_datagram ?l [] 0 [0] toy_state [] = Reply bs"
    by (simp add: handle_v3_datagram_def toy_lib_def toy_usm_def build_discovery_report_def with_usm_def Let_def)
  then obtain bs where h: "handle_v3_datagram ?l [] 0 [0] toy_state [] = Reply bs" ..
  have "decode_message ?l [0] = Some (toy_message [4])" "decode_usm ?l x = Some (toy_usm [])" for x
    by (simp_all add: toy_lib_def)
  with v3_reply_conditions [OF h] have
    "build_discovery_report ?l 0 (toy_message [4]) (toy_usm []) toy_state = Some bs"
    by (auto simp: toy_usm_def toy_state_def)
  with h show ?thesis by blast
qed

lemma low_bits:
  assumes "(x :: u8) AND 3 = 0" shows "x AND 1 = 0" "x AND 2 = 0"
proof -
  have "x AND 1 = (x AND 3) AND 1" "x AND 2 = (x AND 3) AND 2" by (simp_all add: and.assoc)
  then show "x AND 1 = 0" "x AND 2 = 0" unfolding assms by simp_all
qed

text \<open>Without the two security flags no tag is looked at and nothing is decrypted: the request
  goes straight to the values.\<close>

lemma unflagged_request:
  assumes "decode_message lib datagram = Some msg" "decode_usm lib (security_parameters msg) = Some usm"
    and "authoritative_engine_id usm = engine_id s" "engine_id s \<noteq> []"
    and "users s (if utf8_ok (user_name usm) then user_name usm else []) = Some user"
    and "flags msg = [] \<or> hd (flags msg) AND 3 = 0" "scoped_data msg = CleartextPdu scoped"
  shows "handle_v3_datagram lib salt t datagram s m = serve_scoped lib salt t msg user s m False scoped"
proof -
  let ?fl = "case flags msg of [] \<Rightarrow> 0 | f # _ \<Rightarrow> f"
  have "?fl AND 3 = 0" using assms(6) by (auto split: list.split)
  then have "?fl AND 1 = 0" "?fl AND 2 = 0" by (rule low_bits)+
  then show ?thesis
    using assms by (simp add: handle_v3_datagram_def v3_authenticated_def open_scoped_def Let_def)
qed

end
