(* ===== verification/SnmpSession.thy ===== *)
theory SnmpSession
  imports SnmpV3Props
begin

text \<open>
  A whole SNMPv3 session between the agent and a client.  The client is the one of the
  tests in \<open>v3.rs\<close>: it discovers the engine, derives both keys from the passphrases, sends
  an encrypted and tagged request, and checks and decrypts the reply.  The codec and the
  primitives are any that satisfy the laws below.
\<close>

subsection \<open>The laws of the codec and the primitives\<close>

text \<open>
  Encoding never fails and decodes back.  The last law is how BER writes an octet string of
  24 bytes: the tag stands after its two header bytes, at a place that does not depend
  on the tag, and nothing else changes with it.  The laws are stated for every value of the
  model's types; of rasn they are used on the messages of an exchange, whose OIDs it accepts.
\<close>

definition codec_laws :: "v3_lib \<Rightarrow> bool" where
  "codec_laws lib \<longleftrightarrow>
     (\<forall>m. \<exists>bs. encode_message lib m = Some bs \<and> decode_message lib bs = Some m)
   \<and> (\<forall>u. \<exists>bs. encode_usm lib u = Some bs \<and> decode_usm lib bs = Some u)
   \<and> (\<forall>p. \<exists>bs. encode_scoped lib p = Some bs \<and> decode_scoped lib bs = Some p)
   \<and> (\<forall>u m. \<exists>pre post. \<forall>tag. length tag = AUTH_TRUNC_LEN \<longrightarrow>
        with_usm lib (u\<lparr>authentication_parameters := tag\<rparr>) m = Some (pre @ tag_needle tag @ post))"

definition crypto_laws :: "v3_lib \<Rightarrow> bool" where
  "crypto_laws lib \<longleftrightarrow>
     (\<forall>k iv x. length k = 16 \<longrightarrow> length iv = 16 \<longrightarrow> cfb_decrypt lib k iv (cfb_encrypt lib k iv x) = x)
   \<and> (\<forall>k m. length (hmac_sha256 lib k m) = 32) \<and> (\<forall>m. length (sha256 lib m) = 32)"

subsection \<open>The client (the tests of v3.rs)\<close>

definition make_discovery_request :: "v3_lib \<Rightarrow> bytes option" where
  "make_discovery_request lib = with_usm lib
     \<lparr>authoritative_engine_id = [], authoritative_engine_boots = 0, authoritative_engine_time = 0,
      user_name = [], authentication_parameters = [], privacy_parameters = []\<rparr>
     \<lparr>v3_version = 3, message_id = 12345, max_size = 65507, flags = [4], security_model = 3,
      security_parameters = [],
      scoped_data = CleartextPdu \<lparr>ctx_engine_id = [], ctx_name = [],
        ctx_data = GetRequest \<lparr>request_id = 12345, error_status = 0, error_index = 0, variable_bindings = []\<rparr>\<rparr>\<rparr>"

text \<open>The engine id, boots and time a reply announces.\<close>

definition read_engine :: "v3_lib \<Rightarrow> bytes \<Rightarrow> (bytes \<times> u32 \<times> u32) option" where
  "read_engine lib bs =
     Option.bind (decode_message lib bs) (\<lambda>m.
     map_option (\<lambda>u. (authoritative_engine_id u, to_u32 (authoritative_engine_boots u),
         to_u32 (authoritative_engine_time u)))
       (decode_usm lib (security_parameters m)))"

text \<open>An encrypted request with a zero placeholder for the tag.\<close>

definition request_message ::
  "v3_lib \<Rightarrow> bytes \<Rightarrow> bytes \<Rightarrow> u32 \<Rightarrow> u32 \<Rightarrow> bytes \<Rightarrow> bytes \<Rightarrow> int \<Rightarrow> scoped_pdu
     \<Rightarrow> (usm_params \<times> v3_message) option" where
  "request_message lib salt eid boots time name privk mid scoped =
     Option.bind (encode_scoped lib scoped) (\<lambda>pt.
     map_option (\<lambda>(ct, priv_params).
         (\<lparr>authoritative_engine_id = eid, authoritative_engine_boots = uint boots,
            authoritative_engine_time = uint time, user_name = name,
            authentication_parameters = replicate AUTH_TRUNC_LEN 0, privacy_parameters = priv_params\<rparr>,
          \<lparr>v3_version = 3, message_id = mid, max_size = 65507, flags = [3], security_model = 3,
            security_parameters = [], scoped_data = EncryptedPdu ct\<rparr>))
       (aes_cfb_encrypt lib salt pt privk boots time))"

text \<open>The client tags by encoding the message a second time, with the tag in place.\<close>

definition tagged :: "v3_lib \<Rightarrow> bytes \<Rightarrow> usm_params \<times> v3_message \<Rightarrow> bytes option" where
  "tagged lib authk um =
     (case um of (usm, msg) \<Rightarrow> Option.bind (with_usm lib usm msg) (\<lambda>with_zero_auth.
        with_usm lib (usm\<lparr>authentication_parameters := hmac_sign lib authk with_zero_auth\<rparr>) msg))"

definition make_authpriv_request :: "v3_lib \<Rightarrow> bytes \<Rightarrow> bytes \<Rightarrow> bytes \<Rightarrow> bytes \<Rightarrow> oid \<Rightarrow> bytes option" where
  "make_authpriv_request lib salt eid authk privk target_oid =
     (if \<not> valid_oid lib target_oid then None
      else Option.bind (request_message lib salt eid 1 0 (to_bytes ''gateway'') privk 7777
        \<lparr>ctx_engine_id = eid, ctx_name = [],
         ctx_data = GetRequest \<lparr>request_id = 7777, error_status = 0, error_index = 0,
           variable_bindings = [(target_oid, Unspecified)]\<rparr>\<rparr>) (tagged lib authk))"

text \<open>Decoding and decrypting a reply.\<close>

definition open_reply :: "v3_lib \<Rightarrow> bytes \<Rightarrow> bytes \<Rightarrow> scoped_pdu option" where
  "open_reply lib privk reply =
     Option.bind (decode_message lib reply) (\<lambda>msg.
     Option.bind (decode_usm lib (security_parameters msg)) (\<lambda>usm.
       case scoped_data msg of
         CleartextPdu _ \<Rightarrow> None
       | EncryptedPdu ct \<Rightarrow>
           Option.bind (aes_cfb_decrypt lib ct privk (to_u32 (authoritative_engine_boots usm))
               (to_u32 (authoritative_engine_time usm)) (privacy_parameters usm))
             (decode_scoped lib)))"

text \<open>The tag of a reply, checked as the agent checks the tag of a request.\<close>

definition reply_tag_ok :: "v3_lib \<Rightarrow> bytes \<Rightarrow> bytes \<Rightarrow> bool" where
  "reply_tag_ok lib authk reply =
     (case Option.bind (decode_message lib reply) (\<lambda>msg. decode_usm lib (security_parameters msg)) of
        None \<Rightarrow> False
      | Some usm \<Rightarrow> verify_hmac lib reply (authentication_parameters usm) authk)"

subsection \<open>Where a tag stands\<close>

definition occurs_once :: "bytes \<Rightarrow> bytes \<Rightarrow> bool" where
  "occurs_once needle raw \<longleftrightarrow>
     length (filter (\<lambda>i. take (length needle) (drop i raw) = needle) [0..<length raw]) = 1"

text \<open>Neither the placeholder nor the tag occurs a second time in the message.\<close>

definition tag_unique :: "v3_lib \<Rightarrow> bytes \<Rightarrow> usm_params \<times> v3_message \<Rightarrow> bool" where
  "tag_unique lib authk um =
     (case um of (usm, msg) \<Rightarrow>
        (case with_usm lib usm msg of None \<Rightarrow> False
         | Some raw \<Rightarrow> occurs_once (tag_needle (replicate AUTH_TRUNC_LEN 0)) raw
             \<and> (case tagged lib authk um of None \<Rightarrow> False
                | Some bs \<Rightarrow> occurs_once (tag_needle (hmac_sign lib authk raw)) bs)))"

lemma occurs_onceD:
  assumes "occurs_once needle raw" "needle \<noteq> []"
    and "take (length needle) (drop i raw) = needle" "take (length needle) (drop j raw) = needle"
  shows "i = j"
proof -
  let ?P = "\<lambda>i. take (length needle) (drop i raw) = needle"
  have lt: "k < length raw" if "?P k" for k
    using that assms(2) by (metis drop_all not_le_imp_less take_Nil)
  obtain k where "filter ?P [0..<length raw] = [k]"
    using assms(1) by (auto simp: occurs_once_def length_Suc_conv)
  then have "set (filter ?P [0..<length raw]) = {k}" by simp
  then have "i = k" "j = k" using assms(3,4) lt [OF assms(3)] lt [OF assms(4)] by auto
  then show ?thesis by simp
qed

text \<open>The same by recursion, for evaluation.\<close>

primrec count_sub :: "bytes \<Rightarrow> bytes \<Rightarrow> nat" where
  "count_sub needle [] = 0"
| "count_sub needle (x # xs) = (if take (length needle) (x # xs) = needle then 1 else 0) + count_sub needle xs"

lemma count_sub_skip: "x \<noteq> n \<Longrightarrow> count_sub (n # ns) (replicate k x @ r) = count_sub (n # ns) r"
  by (induction k) simp_all

lemma occurs_once_count: "occurs_once needle raw \<longleftrightarrow> count_sub needle raw = 1"
proof -
  have "length (filter (\<lambda>i. take (length needle) (drop i raw) = needle) [0..<length raw]) = count_sub needle raw"
  proof (induction raw)
    case (Cons x xs)
    have "[0..<length (x # xs)] = 0 # map Suc [0..<length xs]"
      by (simp add: upt_conv_Cons map_Suc_upt del: upt_Suc)
    with Cons show ?case by (simp add: filter_map comp_def del: upt_Suc)
  qed simp
  then show ?thesis by (simp add: occurs_once_def)
qed

lemma find_sub_finds: "take (length needle) (drop i raw) = needle \<Longrightarrow> needle \<noteq> [] \<Longrightarrow> \<exists>k. find_sub needle raw = Some k"
proof (induction raw arbitrary: i)
  case (Cons x xs)
  then show ?case by (cases i) auto
qed simp

lemma find_sub_once:
  assumes "occurs_once needle (pre @ needle @ post)" "needle \<noteq> []"
  shows "find_sub needle (pre @ needle @ post) = Some (length pre)"
proof -
  have at: "take (length needle) (drop (length pre) (pre @ needle @ post)) = needle" by simp
  then obtain k where k: "find_sub needle (pre @ needle @ post) = Some k"
    using find_sub_finds assms(2) by blast
  have "k = length pre"
    using occurs_onceD [OF assms find_sub_Some(1) [OF k assms(2)] at] .
  with k show ?thesis by simp
qed

subsection \<open>Tagging and checking\<close>

lemma codec_lawsE:
  assumes "codec_laws lib"
  obtains pre post where
    "\<And>tag. length tag = AUTH_TRUNC_LEN \<Longrightarrow>
       with_usm lib (u\<lparr>authentication_parameters := tag\<rparr>) m = Some (pre @ tag_needle tag @ post)"
  using assms unfolding codec_laws_def by blast

lemma codec_lawsD:
  assumes "codec_laws lib"
  shows "\<exists>bs. encode_scoped lib p = Some bs \<and> decode_scoped lib bs = Some p"
    and "\<exists>sp bs. with_usm lib u m = Some bs \<and> decode_message lib bs = Some (m\<lparr>security_parameters := sp\<rparr>)
      \<and> decode_usm lib sp = Some u"
proof -
  show "\<exists>bs. encode_scoped lib p = Some bs \<and> decode_scoped lib bs = Some p"
    using assms by (simp add: codec_laws_def)
  obtain sp where sp: "encode_usm lib u = Some sp" "decode_usm lib sp = Some u"
    using assms unfolding codec_laws_def by blast
  obtain bs where "encode_message lib (m\<lparr>security_parameters := sp\<rparr>) = Some bs"
    "decode_message lib bs = Some (m\<lparr>security_parameters := sp\<rparr>)"
    using assms unfolding codec_laws_def by blast
  with sp show "\<exists>sp bs. with_usm lib u m = Some bs \<and> decode_message lib bs = Some (m\<lparr>security_parameters := sp\<rparr>)
      \<and> decode_usm lib sp = Some u" by (auto simp: with_usm_def)
qed

lemma hmac_sign_length: "crypto_laws lib \<Longrightarrow> length (hmac_sign lib k m) = AUTH_TRUNC_LEN"
  by (simp add: crypto_laws_def hmac_sign_def AUTH_TRUNC_LEN_def)

lemma splice_needle:
  assumes "length old = length new"
  shows "splice_at (length pre + 2) new (pre @ tag_needle old @ post) = pre @ tag_needle new @ post"
  using splice_split [of "pre @ [4, of_nat AUTH_TRUNC_LEN]" "length pre + 2" new old post] assms
  by (simp add: tag_needle_def)

text \<open>What a tagged message is: the bytes with the placeholder, and the same bytes with the tag.\<close>

lemma tagged_form:
  assumes laws: "codec_laws lib" "crypto_laws lib" and unique: "tag_unique lib k (u, m)"
    and zero: "authentication_parameters u = replicate AUTH_TRUNC_LEN 0"
  obtains pre post tag where "length tag = AUTH_TRUNC_LEN"
    "with_usm lib u m = Some (pre @ tag_needle (replicate AUTH_TRUNC_LEN 0) @ post)"
    "tag = hmac_sign lib k (pre @ tag_needle (replicate AUTH_TRUNC_LEN 0) @ post)"
    "tagged lib k (u, m) = Some (pre @ tag_needle tag @ post)"
    "find_sub (tag_needle (replicate AUTH_TRUNC_LEN 0)) (pre @ tag_needle (replicate AUTH_TRUNC_LEN 0) @ post) = Some (length pre)"
    "find_sub (tag_needle tag) (pre @ tag_needle tag @ post) = Some (length pre)"
proof -
  obtain pre post where w: "\<And>tag. length tag = AUTH_TRUNC_LEN \<Longrightarrow>
      with_usm lib (u\<lparr>authentication_parameters := tag\<rparr>) m = Some (pre @ tag_needle tag @ post)"
    using codec_lawsE [OF laws(1)] by blast
  let ?z = "replicate AUTH_TRUNC_LEN (0 :: u8)"
  let ?raw = "pre @ tag_needle ?z @ post"
  let ?tag = "hmac_sign lib k ?raw"
  have "u\<lparr>authentication_parameters := ?z\<rparr> = u" using zero by simp
  then have u: "with_usm lib u m = Some ?raw" using w [of ?z] by simp
  have l: "length ?tag = AUTH_TRUNC_LEN" by (rule hmac_sign_length [OF laws(2)])
  have t: "tagged lib k (u, m) = Some (pre @ tag_needle ?tag @ post)"
    by (simp add: tagged_def u w [OF l])
  have "occurs_once (tag_needle ?z) ?raw" "occurs_once (tag_needle ?tag) (pre @ tag_needle ?tag @ post)"
    using unique by (simp_all add: tag_unique_def u t)
  from that [OF l u refl t find_sub_once [OF this(1)] find_sub_once [OF this(2)]] show ?thesis
    by (simp add: tag_needle_def)
qed

text \<open>The agent splices the tag in; that gives the bytes the client's second encoding gives.\<close>

lemma sign_is_tagged:
  assumes "codec_laws lib" "crypto_laws lib" "tag_unique lib k (u, m)"
    "authentication_parameters u = replicate AUTH_TRUNC_LEN 0"
  shows "Option.bind (with_usm lib u m) (sign_message lib k) = tagged lib k (u, m)"
proof -
  let ?z = "replicate AUTH_TRUNC_LEN (0 :: u8)"
  obtain pre post tag where l: "length tag = AUTH_TRUNC_LEN"
    and u: "with_usm lib u m = Some (pre @ tag_needle ?z @ post)"
    and tag: "tag = hmac_sign lib k (pre @ tag_needle ?z @ post)"
    and t: "tagged lib k (u, m) = Some (pre @ tag_needle tag @ post)"
    and f: "find_sub (tag_needle ?z) (pre @ tag_needle ?z @ post) = Some (length pre)"
    using tagged_form [OF assms] by metis
  show ?thesis
    using splice_needle [of ?z tag pre post] l by (simp add: u t sign_message_def f tag [symmetric])
qed

text \<open>Such a message decodes to what was encoded, and its tag verifies.\<close>

lemma tagged_opens:
  assumes laws: "codec_laws lib" "crypto_laws lib" and unique: "tag_unique lib k (u, m)"
    and zero: "authentication_parameters u = replicate AUTH_TRUNC_LEN 0"
  shows "\<exists>bs sp tag. tagged lib k (u, m) = Some bs \<and> decode_message lib bs = Some (m\<lparr>security_parameters := sp\<rparr>)
    \<and> decode_usm lib sp = Some (u\<lparr>authentication_parameters := tag\<rparr>) \<and> verify_hmac lib bs tag k"
proof -
  let ?z = "replicate AUTH_TRUNC_LEN (0 :: u8)"
  obtain pre post tag where l: "length tag = AUTH_TRUNC_LEN"
    and u: "with_usm lib u m = Some (pre @ tag_needle ?z @ post)"
    and tag: "tag = hmac_sign lib k (pre @ tag_needle ?z @ post)"
    and t: "tagged lib k (u, m) = Some (pre @ tag_needle tag @ post)"
    and f: "find_sub (tag_needle tag) (pre @ tag_needle tag @ post) = Some (length pre)"
    using tagged_form [OF assms] by metis
  have v: "verify_hmac lib (pre @ tag_needle tag @ post) tag k"
    using splice_needle [of tag ?z pre post] by (simp add: verify_hmac_def l f tag [symmetric])
  have "with_usm lib (u\<lparr>authentication_parameters := tag\<rparr>) m = Some (pre @ tag_needle tag @ post)"
    using t u by (simp add: tagged_def tag)
  with codec_lawsD(2) [OF laws(1), of "u\<lparr>authentication_parameters := tag\<rparr>" m] t v show ?thesis by auto
qed

subsection \<open>A session\<close>

primrec reply_bytes :: "v3_outcome \<Rightarrow> bytes option" where
  "reply_bytes Panicked = None"
| "reply_bytes Dropped = None"
| "reply_bytes (Reply bs) = Some bs"

text \<open>
  Discovery, key derivation, one encrypted and tagged request, and the reply, checked and
  decrypted.  The agent draws the salt \<open>salta\<close> and answers \<open>t0\<close> and \<open>t1\<close> seconds after boot.
\<close>

definition v3_session ::
  "v3_lib \<Rightarrow> bytes \<Rightarrow> bytes \<Rightarrow> nat \<Rightarrow> nat \<Rightarrow> bytes \<Rightarrow> bytes \<Rightarrow> bytes \<Rightarrow> int \<Rightarrow> pdus \<Rightarrow> agent_state \<Rightarrow> oid_map
     \<Rightarrow> scoped_pdu option" where
  "v3_session lib saltc salta t0 t1 name auth_pass priv_pass mid data s values =
     Option.bind (make_discovery_request lib) (\<lambda>d.
     Option.bind (reply_bytes (handle_v3_datagram lib salta t0 d s values)) (\<lambda>r0.
     Option.bind (read_engine lib r0) (\<lambda>(eid, boots, time).
     Option.bind (derive_localized_key lib auth_pass eid) (\<lambda>authk.
     Option.bind (derive_localized_key lib priv_pass eid) (\<lambda>p.
     Option.bind (request_message lib saltc eid boots time name (take PRIV_KEY_LEN p) mid
         \<lparr>ctx_engine_id = eid, ctx_name = [], ctx_data = data\<rparr>) (\<lambda>um.
     Option.bind (tagged lib authk um) (\<lambda>raw.
     Option.bind (reply_bytes (handle_v3_datagram lib salta t1 raw s values)) (\<lambda>bs.
       if reply_tag_ok lib authk bs then open_reply lib (take PRIV_KEY_LEN p) bs else None))))))))"

lemma to_u32_uint [simp]: "to_u32 (uint x) = x"
  using uint_bounded [of x] by (simp add: to_u32_def)

lemma aes_round_trip:
  assumes "crypto_laws lib" "8 \<le> length salt" "PRIV_KEY_LEN \<le> length k"
  shows "\<exists>ct. aes_cfb_encrypt lib salt pt k boots time = Some (ct, salt)
    \<and> aes_cfb_decrypt lib ct k boots time salt = Some pt"
proof -
  obtain iv where iv: "build_iv boots time salt = Some iv" using assms(2) by (simp add: build_iv_def)
  then show ?thesis
    using assms(1,3) build_iv_length [OF iv] by (simp add: aes_cfb_encrypt_def aes_cfb_decrypt_def PRIV_KEY_LEN_def crypto_laws_def)
qed

lemma derived_key_length:
  "crypto_laws lib \<Longrightarrow> derive_localized_key lib pass eid = Some k \<Longrightarrow> length k = 32"
  by (auto simp: derive_localized_key_def crypto_laws_def Let_def split: if_splits)

text \<open>The first exchange: the report announces the engine.\<close>

lemma discovery_announces:
  assumes "codec_laws lib" "valid_oid lib USM_STATS_UNKNOWN_ENGINE_IDS"
  shows "\<exists>d r0. make_discovery_request lib = Some d \<and> handle_v3_datagram lib salt t d s values = Reply r0
    \<and> read_engine lib r0 = Some (engine_id s, engine_boots s, engine_time t)"
proof -
  let ?u = "\<lparr>authoritative_engine_id = [], authoritative_engine_boots = 0, authoritative_engine_time = 0,
      user_name = [], authentication_parameters = [], privacy_parameters = []\<rparr>"
  let ?m = "\<lparr>v3_version = 3, message_id = 12345, max_size = 65507, flags = [4], security_model = 3,
      security_parameters = [], scoped_data = CleartextPdu \<lparr>ctx_engine_id = [], ctx_name = [],
        ctx_data = GetRequest \<lparr>request_id = 12345, error_status = 0, error_index = 0, variable_bindings = []\<rparr>\<rparr>\<rparr>"
  obtain sp d where d: "with_usm lib ?u ?m = Some d" "decode_message lib d = Some (?m\<lparr>security_parameters := sp\<rparr>)"
    "decode_usm lib sp = Some ?u" using codec_lawsD(2) [OF assms(1)] by blast
  obtain u m where b: "build_discovery_report lib t (?m\<lparr>security_parameters := sp\<rparr>) ?u s = with_usm lib u m"
    "authoritative_engine_id u = engine_id s" "authoritative_engine_boots u = uint (engine_boots s)"
    "authoritative_engine_time u = uint (engine_time t)"
    using assms(2) by (simp add: build_discovery_report_def Let_def)
  obtain sp' r0 where r0: "with_usm lib u m = Some r0" "decode_message lib r0 = Some (m\<lparr>security_parameters := sp'\<rparr>)"
    "decode_usm lib sp' = Some u" using codec_lawsD(2) [OF assms(1)] by blast
  have "handle_v3_datagram lib salt t d s values = Reply r0"
    using b(1) r0(1) d(2,3) by (simp add: handle_v3_datagram_def)
  moreover have "read_engine lib r0 = Some (engine_id s, engine_boots s, engine_time t)"
    using r0(2,3) b(2-4) by (simp add: read_engine_def)
  ultimately show ?thesis using d(1) by (simp add: make_discovery_request_def)
qed

text \<open>The second exchange: a request made with the user's keys reaches the values.\<close>

lemma request_messageE:
  assumes "codec_laws lib" "crypto_laws lib" "8 \<le> length salt" "length k = PRIV_KEY_LEN"
    and "request_message lib salt eid boots time name k mid scoped = Some (u, m)"
  obtains ct where "authentication_parameters u = replicate AUTH_TRUNC_LEN 0" "flags m = [3]"
    "authoritative_engine_id u = eid" "user_name u = name" "scoped_data m = EncryptedPdu ct"
    "\<And>(user :: usm_user) (usm :: usm_params). authoritative_engine_boots usm = uint boots \<Longrightarrow> authoritative_engine_time usm = uint time
       \<Longrightarrow> privacy_parameters usm = salt \<Longrightarrow> priv_key user = k
       \<Longrightarrow> open_scoped lib (m\<lparr>security_parameters := sp\<rparr>) usm user True = Inr scoped"
    "authoritative_engine_boots u = uint boots" "authoritative_engine_time u = uint time" "privacy_parameters u = salt"
proof -
  obtain pt where pt: "encode_scoped lib scoped = Some pt" "decode_scoped lib pt = Some scoped"
    using codec_lawsD(1) [OF assms(1)] by blast
  obtain ct where ct: "aes_cfb_encrypt lib salt pt k boots time = Some (ct, salt)"
    "aes_cfb_decrypt lib ct k boots time salt = Some pt"
    using aes_round_trip [OF assms(2,3), of k pt boots time] assms(4) by auto
  show ?thesis
  proof (rule that)
    fix user :: usm_user and usm :: usm_params
    assume "authoritative_engine_boots usm = uint boots" "authoritative_engine_time usm = uint time"
      "privacy_parameters usm = salt" "priv_key user = k"
    then show "open_scoped lib (m\<lparr>security_parameters := sp\<rparr>) usm user True = Inr scoped"
      using assms(5) pt ct by (auto simp: request_message_def open_scoped_def)
  qed (use assms(5) pt(1) ct(1) in \<open>auto simp: request_message_def\<close>)
qed

lemma request_is_served:
  assumes laws: "codec_laws lib" "crypto_laws lib" and salt: "8 \<le> length salt" "length k = PRIV_KEY_LEN"
    and um: "request_message lib salt eid boots time name k mid scoped = Some (u, m)" "tag_unique lib a (u, m)"
    and s: "engine_id s = eid" "eid \<noteq> []" "utf8_ok name" "users s name = Some \<lparr>auth_key = a, priv_key = k\<rparr>"
  shows "\<exists>raw sp. tagged lib a (u, m) = Some raw \<and> decode_message lib raw = Some (m\<lparr>security_parameters := sp\<rparr>)
    \<and> handle_v3_datagram lib salta t raw s values
        = serve_scoped lib salta t (m\<lparr>security_parameters := sp\<rparr>) \<lparr>auth_key = a, priv_key = k\<rparr> s values True scoped"
proof -
  obtain ct where c: "authentication_parameters u = replicate AUTH_TRUNC_LEN 0" "flags m = [3]"
    "authoritative_engine_id u = eid" "user_name u = name" "scoped_data m = EncryptedPdu ct"
    using request_messageE [OF laws salt um(1)] by metis
  obtain raw sp tag where t: "tagged lib a (u, m) = Some raw" "decode_message lib raw = Some (m\<lparr>security_parameters := sp\<rparr>)"
    "decode_usm lib sp = Some (u\<lparr>authentication_parameters := tag\<rparr>)" "verify_hmac lib raw tag a"
    using tagged_opens [OF laws um(2) c(1)] by blast
  have o: "open_scoped lib (m\<lparr>security_parameters := sp\<rparr>) (u\<lparr>authentication_parameters := tag\<rparr>)
      \<lparr>auth_key = a, priv_key = k\<rparr> True = Inr scoped"
    by (rule request_messageE [OF laws salt um(1), where sp = sp]) simp
  have "handle_v3_datagram lib salta t raw s values
      = v3_authenticated lib salta t raw s values (m\<lparr>security_parameters := sp\<rparr>)
          (u\<lparr>authentication_parameters := tag\<rparr>) \<lparr>auth_key = a, priv_key = k\<rparr>"
    using t c s by (simp add: handle_v3_datagram_def)
  also have "\<dots> = serve_scoped lib salta t (m\<lparr>security_parameters := sp\<rparr>) \<lparr>auth_key = a, priv_key = k\<rparr> s values True scoped"
    using c(2) t(4) o by (simp add: v3_authenticated_def)
  finally show ?thesis using t(1,2) by blast
qed

text \<open>The reply opens under the same keys.\<close>

lemma reply_opens:
  assumes laws: "codec_laws lib" "crypto_laws lib" and salt: "8 \<le> length salt" "length k = PRIV_KEY_LEN"
    and um: "reply_message lib salt t req \<lparr>auth_key = a, priv_key = k\<rparr> s scoped True = Some (u, m)" "tag_unique lib a (u, m)"
  shows "\<exists>bs. build_authenticated_reply lib salt t req \<lparr>auth_key = a, priv_key = k\<rparr> s scoped True = Some bs
    \<and> reply_tag_ok lib a bs \<and> open_reply lib k bs = Some scoped"
proof -
  obtain pt where pt: "encode_scoped lib scoped = Some pt" "decode_scoped lib pt = Some scoped"
    using codec_lawsD(1) [OF laws(1)] by blast
  obtain ct where ct: "aes_cfb_encrypt lib salt pt k (engine_boots s) (engine_time t) = Some (ct, salt)"
    "aes_cfb_decrypt lib ct k (engine_boots s) (engine_time t) salt = Some pt"
    using aes_round_trip [OF laws(2) salt(1), of k pt "engine_boots s" "engine_time t"] salt(2) by auto
  have z: "authentication_parameters u = replicate AUTH_TRUNC_LEN 0" "scoped_data m = EncryptedPdu ct"
    "authoritative_engine_boots u = uint (engine_boots s)" "authoritative_engine_time u = uint (engine_time t)"
    "privacy_parameters u = salt"
    using um(1) pt(1) ct(1) by (auto simp: reply_message_def Let_def)
  obtain bs sp tag where b: "tagged lib a (u, m) = Some bs" "decode_message lib bs = Some (m\<lparr>security_parameters := sp\<rparr>)"
    "decode_usm lib sp = Some (u\<lparr>authentication_parameters := tag\<rparr>)" "verify_hmac lib bs tag a"
    using tagged_opens [OF laws um(2) z(1)] by blast
  have "build_authenticated_reply lib salt t req \<lparr>auth_key = a, priv_key = k\<rparr> s scoped True = Some bs"
    using sign_is_tagged [OF laws um(2) z(1)] b(1) um(1) by (simp add: build_authenticated_reply_def)
  moreover have "reply_tag_ok lib a bs" using b by (simp add: reply_tag_ok_def)
  moreover have "open_reply lib k bs = Some scoped" using b z ct(2) pt(2) by (simp add: open_reply_def)
  ultimately show ?thesis by blast
qed

text \<open>Request and reply together.\<close>

lemma v3_exchange:
  assumes laws: "codec_laws lib" "crypto_laws lib" and salts: "8 \<le> length saltc" "8 \<le> length salta" "length k = PRIV_KEY_LEN"
    and s: "engine_id s = eid" "eid \<noteq> []" "utf8_ok name" "users s name = Some \<lparr>auth_key = a, priv_key = k\<rparr>"
    and resp: "build_response (valid_oid lib) req values nx = Some resp"
    and um: "request_message lib saltc eid boots time name k mid
      \<lparr>ctx_engine_id = eid, ctx_name = [], ctx_data = (if nx then GetNextRequest req else GetRequest req)\<rparr> = Some um"
      "tag_unique lib a um" "tagged lib a um = Some raw" "decode_message lib raw = Some msg"
    and um': "reply_message lib salta t msg \<lparr>auth_key = a, priv_key = k\<rparr> s
      \<lparr>ctx_engine_id = eid, ctx_name = [], ctx_data = Response resp\<rparr> True = Some um'" "tag_unique lib a um'"
  shows "\<exists>bs. handle_v3_datagram lib salta t raw s values = Reply bs \<and> reply_tag_ok lib a bs
    \<and> open_reply lib k bs = Some \<lparr>ctx_engine_id = eid, ctx_name = [], ctx_data = Response resp\<rparr>"
proof -
  let ?user = "\<lparr>auth_key = a, priv_key = k\<rparr>" and ?data = "if nx then GetNextRequest req else GetRequest req"
  obtain u m u' m' where p: "um = (u, m)" "um' = (u', m')" by (cases um, cases um')
  obtain raw' sp where r: "tagged lib a um = Some raw'" "decode_message lib raw' = Some (m\<lparr>security_parameters := sp\<rparr>)"
    "handle_v3_datagram lib salta t raw' s values = serve_scoped lib salta t (m\<lparr>security_parameters := sp\<rparr>) ?user s values True
       \<lparr>ctx_engine_id = eid, ctx_name = [], ctx_data = ?data\<rparr>"
    using request_is_served [OF laws salts(1,3) um(1,2) [unfolded p(1)] s] unfolding p by blast
  have raw: "raw' = raw" "m\<lparr>security_parameters := sp\<rparr> = msg" using r(1,2) um(3,4) by simp_all
  obtain bs where bs: "build_authenticated_reply lib salta t msg ?user s
      \<lparr>ctx_engine_id = eid, ctx_name = [], ctx_data = Response resp\<rparr> True = Some bs"
    "reply_tag_ok lib a bs" "open_reply lib k bs = Some \<lparr>ctx_engine_id = eid, ctx_name = [], ctx_data = Response resp\<rparr>"
    using reply_opens [OF laws salts(2,3) um' [unfolded p(2)]] by blast
  have "handle_v3_datagram lib salta t raw s values = Reply bs"
    using r(3) bs(1) resp s(1) by (cases nx) (simp_all add: raw serve_scoped_def)
  with bs(2,3) show ?thesis by blast
qed

end
