(* ===== verification/TlvCodec.thy ===== *)
theory TlvCodec
  imports SnmpSession
begin

text \<open>
  A small codec for SNMPv3 messages, used where a property of the v3 side needs a concrete
  one: fields in their order, octet strings as BER writes them (04, the length, the bytes),
  numbers in base 128.  It is proved to satisfy \<open>codec_laws\<close>, part by part: a writer and a
  reader match when reading what was written, with anything after it, gives the value back
  and leaves the rest.
\<close>

subsection \<open>Writers and readers\<close>

definition matches :: "('a \<Rightarrow> bytes) \<Rightarrow> (bytes \<Rightarrow> ('a \<times> bytes) option) \<Rightarrow> bool" where
  "matches wr rd \<longleftrightarrow> (\<forall>x r. rd (wr x @ r) = Some (x, r))"

lemma matchesI: "(\<And>x r. rd (wr x @ r) = Some (x, r)) \<Longrightarrow> matches wr rd"
  by (simp add: matches_def)

lemma matchesD [simp]: "matches wr rd \<Longrightarrow> rd (wr x @ r) = Some (x, r)"
  by (simp add: matches_def)

definition exactly :: "(bytes \<Rightarrow> ('a \<times> bytes) option) \<Rightarrow> bytes \<Rightarrow> 'a option" where
  "exactly rd bs = (case rd bs of Some (x, []) \<Rightarrow> Some x | _ \<Rightarrow> None)"

lemma exactly_written: "matches wr rd \<Longrightarrow> exactly rd (wr x) = Some x"
  using matchesD [of wr rd x "[]"] by (simp add: exactly_def)

text \<open>A value seen as another one: the writer sees through \<open>g\<close>, the reader goes back with \<open>f\<close>.\<close>

definition wr_via :: "('b \<Rightarrow> 'a) \<Rightarrow> ('a \<Rightarrow> bytes) \<Rightarrow> 'b \<Rightarrow> bytes" where
  "wr_via g wr = wr \<circ> g"

definition rd_via :: "('a \<Rightarrow> 'b) \<Rightarrow> (bytes \<Rightarrow> ('a \<times> bytes) option) \<Rightarrow> bytes \<Rightarrow> ('b \<times> bytes) option" where
  "rd_via f rd bs = map_option (map_prod f id) (rd bs)"

lemma matches_via: "matches wr rd \<Longrightarrow> (\<And>x. f (g x) = x) \<Longrightarrow> matches (wr_via g wr) (rd_via f rd)"
  by (simp add: matches_def wr_via_def rd_via_def)

definition wr_pair :: "('a \<Rightarrow> bytes) \<Rightarrow> ('b \<Rightarrow> bytes) \<Rightarrow> 'a \<times> 'b \<Rightarrow> bytes" where
  "wr_pair wa wb = (\<lambda>(a, b). wa a @ wb b)"

definition rd_pair ::
  "(bytes \<Rightarrow> ('a \<times> bytes) option) \<Rightarrow> (bytes \<Rightarrow> ('b \<times> bytes) option) \<Rightarrow> bytes \<Rightarrow> (('a \<times> 'b) \<times> bytes) option" where
  "rd_pair ra rb bs = Option.bind (ra bs) (\<lambda>(a, r). map_option (map_prod (Pair a) id) (rb r))"

lemma matches_pair: "matches wa ra \<Longrightarrow> matches wb rb \<Longrightarrow> matches (wr_pair wa wb) (rd_pair ra rb)"
  by (auto intro!: matchesI simp: wr_pair_def rd_pair_def)

text \<open>Numbers: seven bits at a time, the high bit for more to come.\<close>

fun wr_nat :: "nat \<Rightarrow> bytes" where
  "wr_nat n = (if n < 128 then [of_nat n] else of_nat (128 + n mod 128) # wr_nat (n div 128))"

declare wr_nat.simps [simp del]

primrec rd_nat :: "bytes \<Rightarrow> (nat \<times> bytes) option" where
  "rd_nat [] = None"
| "rd_nat (b # bs) =
     (if unat b < 128 then Some (unat b, bs)
      else map_option (map_prod (\<lambda>n. unat b - 128 + 128 * n) id) (rd_nat bs))"

lemma unat_u8: "n < 256 \<Longrightarrow> unat (of_nat n :: u8) = n"
  by (simp add: unat_of_nat)

lemma matches_nat: "matches wr_nat rd_nat"
proof (rule matchesI)
  fix n r
  show "rd_nat (wr_nat n @ r) = Some (n, r)"
  proof (induction n rule: wr_nat.induct)
    case (1 n)
    show ?case
    proof (cases "n < 128")
      case True
      then show ?thesis by (subst wr_nat.simps) (simp add: unat_u8)
    next
      case False
      have "n mod 128 < 128" by simp
      then have "128 + n mod 128 < 256" by simp
      from unat_u8 [OF this] False 1 show ?thesis
        by (subst wr_nat.simps) (simp del: of_nat_add)
    qed
  qed
qed

definition wr_word :: "'a::len word \<Rightarrow> bytes" where "wr_word = wr_via unat wr_nat"
definition rd_word :: "bytes \<Rightarrow> ('a::len word \<times> bytes) option" where "rd_word = rd_via of_nat rd_nat"

lemma matches_word: "matches wr_word rd_word"
  unfolding wr_word_def rd_word_def by (intro matches_via matches_nat) simp

definition wr_int :: "int \<Rightarrow> bytes" where
  "wr_int = wr_via (\<lambda>i. if 0 \<le> i then 2 * nat i else 2 * nat (- i) + 1) wr_nat"

definition rd_int :: "bytes \<Rightarrow> (int \<times> bytes) option" where
  "rd_int = rd_via (\<lambda>n. if even n then int (n div 2) else - int (n div 2)) rd_nat"

lemma matches_int: "matches wr_int rd_int"
  unfolding wr_int_def rd_int_def by (intro matches_via matches_nat) auto

text \<open>Octet strings.\<close>

definition wr_octets :: "bytes \<Rightarrow> bytes" where
  "wr_octets bs = (if length bs < 256 then 4 # of_nat (length bs) # bs else 5 # wr_nat (length bs) @ bs)"

definition rd_octets :: "bytes \<Rightarrow> (bytes \<times> bytes) option" where
  "rd_octets bs = (case bs of
       t # r \<Rightarrow>
         (if t = 4 then (case r of n # r' \<Rightarrow> Some (take (unat n) r', drop (unat n) r') | [] \<Rightarrow> None)
          else map_option (\<lambda>(n, r'). (take n r', drop n r')) (rd_nat r))
     | [] \<Rightarrow> None)"

lemma matches_octets: "matches wr_octets rd_octets"
  by (rule matchesI) (simp add: wr_octets_def rd_octets_def unat_u8 matchesD [OF matches_nat])

text \<open>Lists: a one before each element, a zero at the end.\<close>

primrec wr_list :: "('a \<Rightarrow> bytes) \<Rightarrow> 'a list \<Rightarrow> bytes" where
  "wr_list wr [] = [0]"
| "wr_list wr (x # xs) = 1 # wr x @ wr_list wr xs"

text \<open>The reader is given a bound on the number of elements; the length of the input is one.\<close>

primrec rd_items :: "nat \<Rightarrow> (bytes \<Rightarrow> ('a \<times> bytes) option) \<Rightarrow> bytes \<Rightarrow> ('a list \<times> bytes) option" where
  "rd_items 0 rd bs = None"
| "rd_items (Suc k) rd bs = (case bs of [] \<Rightarrow> None
     | t # r \<Rightarrow> if t = 0 then Some ([], r)
         else Option.bind (rd r) (\<lambda>(x, r'). map_option (map_prod (Cons x) id) (rd_items k rd r')))"

definition rd_list :: "(bytes \<Rightarrow> ('a \<times> bytes) option) \<Rightarrow> bytes \<Rightarrow> ('a list \<times> bytes) option" where
  "rd_list rd bs = rd_items (length bs) rd bs"

lemma rd_items_written:
  "matches wr rd \<Longrightarrow> length xs < k \<Longrightarrow> rd_items k rd (wr_list wr xs @ r) = Some (xs, r)"
  by (induction xs arbitrary: k) (case_tac [!] k, auto)

lemma matches_list: "matches wr rd \<Longrightarrow> matches (wr_list wr) (rd_list rd)"
proof (rule matchesI)
  fix xs r assume m: "matches wr rd"
  have "length xs < length (wr_list wr xs)" by (induction xs) auto
  then have "length xs < length (wr_list wr xs @ r)" by simp
  from rd_items_written [OF m this] show "rd_list rd (wr_list wr xs @ r) = Some (xs, r)" by (simp add: rd_list_def)
qed

lemmas matches_parts = matches_pair matches_list matches_octets matches_int matches_word matches_nat

subsection \<open>The types of a message\<close>

text \<open>Each constructor is a number and fields for all of them, the unused ones empty.\<close>

primrec value_fields :: "var_value \<Rightarrow> nat \<times> i32 \<times> bytes" where
  "value_fields (IntegerValue i) = (0, i, [])"
| "value_fields (OtherValue bs) = (1, 0, bs)"
| "value_fields Unspecified = (2, 0, [])"
| "value_fields NoSuchInstance = (3, 0, [])"
| "value_fields EndOfMibView = (4, 0, [])"

definition of_value_fields :: "nat \<times> i32 \<times> bytes \<Rightarrow> var_value" where
  "of_value_fields = (\<lambda>(t, i, bs). if t = 0 then IntegerValue i else if t = 1 then OtherValue bs
     else if t = 2 then Unspecified else if t = 3 then NoSuchInstance else EndOfMibView)"

definition wr_value :: "var_value \<Rightarrow> bytes" where
  "wr_value = wr_via value_fields (wr_pair wr_nat (wr_pair wr_word wr_octets))"

definition rd_value :: "bytes \<Rightarrow> (var_value \<times> bytes) option" where
  "rd_value = rd_via of_value_fields (rd_pair rd_nat (rd_pair rd_word rd_octets))"

lemma matches_value: "matches wr_value rd_value"
  unfolding wr_value_def rd_value_def
  by (intro matches_via matches_parts, case_tac x) (simp_all add: of_value_fields_def)

definition wr_pdu :: "pdu \<Rightarrow> bytes" where
  "wr_pdu = wr_via (\<lambda>p. (request_id p, error_status p, error_index p, variable_bindings p))
     (wr_pair wr_word (wr_pair wr_word (wr_pair wr_word (wr_list (wr_pair (wr_list wr_word) wr_value)))))"

definition rd_pdu :: "bytes \<Rightarrow> (pdu \<times> bytes) option" where
  "rd_pdu = rd_via (\<lambda>(i, s, x, vs). \<lparr>request_id = i, error_status = s, error_index = x, variable_bindings = vs\<rparr>)
     (rd_pair rd_word (rd_pair rd_word (rd_pair rd_word (rd_list (rd_pair (rd_list rd_word) rd_value)))))"

lemma matches_pdu: "matches wr_pdu rd_pdu"
  unfolding wr_pdu_def rd_pdu_def by (intro matches_via matches_parts matches_value) simp

definition no_pdu :: pdu where
  "no_pdu = \<lparr>request_id = 0, error_status = 0, error_index = 0, variable_bindings = []\<rparr>"

primrec pdus_fields :: "pdus \<Rightarrow> nat \<times> pdu \<times> bytes" where
  "pdus_fields (GetRequest p) = (0, p, [])"
| "pdus_fields (GetNextRequest p) = (1, p, [])"
| "pdus_fields (GetBulkRequest p) = (2, p, [])"
| "pdus_fields (Response p) = (3, p, [])"
| "pdus_fields (Report p) = (4, p, [])"
| "pdus_fields (OtherPdus bs) = (5, no_pdu, bs)"

definition of_pdus_fields :: "nat \<times> pdu \<times> bytes \<Rightarrow> pdus" where
  "of_pdus_fields = (\<lambda>(t, p, bs). if t = 0 then GetRequest p else if t = 1 then GetNextRequest p
     else if t = 2 then GetBulkRequest p else if t = 3 then Response p else if t = 4 then Report p else OtherPdus bs)"

definition wr_pdus :: "pdus \<Rightarrow> bytes" where
  "wr_pdus = wr_via pdus_fields (wr_pair wr_nat (wr_pair wr_pdu wr_octets))"

definition rd_pdus :: "bytes \<Rightarrow> (pdus \<times> bytes) option" where
  "rd_pdus = rd_via of_pdus_fields (rd_pair rd_nat (rd_pair rd_pdu rd_octets))"

lemma matches_pdus: "matches wr_pdus rd_pdus"
  unfolding wr_pdus_def rd_pdus_def
  by (intro matches_via matches_parts matches_pdu, case_tac x) (simp_all add: of_pdus_fields_def)

definition wr_scoped :: "scoped_pdu \<Rightarrow> bytes" where
  "wr_scoped = wr_via (\<lambda>p. (ctx_engine_id p, ctx_name p, ctx_data p)) (wr_pair wr_octets (wr_pair wr_octets wr_pdus))"

definition rd_scoped :: "bytes \<Rightarrow> (scoped_pdu \<times> bytes) option" where
  "rd_scoped = rd_via (\<lambda>(e, n, d). \<lparr>ctx_engine_id = e, ctx_name = n, ctx_data = d\<rparr>)
     (rd_pair rd_octets (rd_pair rd_octets rd_pdus))"

lemma matches_scoped: "matches wr_scoped rd_scoped"
  unfolding wr_scoped_def rd_scoped_def by (intro matches_via matches_parts matches_pdus) simp

primrec data_fields :: "scoped_pdu_data \<Rightarrow> nat \<times> scoped_pdu \<times> bytes" where
  "data_fields (CleartextPdu p) = (0, p, [])"
| "data_fields (EncryptedPdu ct) = (1, \<lparr>ctx_engine_id = [], ctx_name = [], ctx_data = OtherPdus []\<rparr>, ct)"

definition of_data_fields :: "nat \<times> scoped_pdu \<times> bytes \<Rightarrow> scoped_pdu_data" where
  "of_data_fields = (\<lambda>(t, p, ct). if t = 0 then CleartextPdu p else EncryptedPdu ct)"

definition wr_data :: "scoped_pdu_data \<Rightarrow> bytes" where
  "wr_data = wr_via data_fields (wr_pair wr_nat (wr_pair wr_scoped wr_octets))"

definition rd_data :: "bytes \<Rightarrow> (scoped_pdu_data \<times> bytes) option" where
  "rd_data = rd_via of_data_fields (rd_pair rd_nat (rd_pair rd_scoped rd_octets))"

lemma matches_data: "matches wr_data rd_data"
  unfolding wr_data_def rd_data_def
  by (intro matches_via matches_parts matches_scoped, case_tac x) (simp_all add: of_data_fields_def)

definition wr_message :: "v3_message \<Rightarrow> bytes" where
  "wr_message = wr_via (\<lambda>m. (v3_version m, message_id m, max_size m, flags m, security_model m,
       security_parameters m, scoped_data m))
     (wr_pair wr_int (wr_pair wr_int (wr_pair wr_int (wr_pair wr_octets (wr_pair wr_int (wr_pair wr_octets wr_data))))))"

definition rd_message :: "bytes \<Rightarrow> (v3_message \<times> bytes) option" where
  "rd_message = rd_via (\<lambda>(v, i, x, f, sm, sp, d). \<lparr>v3_version = v, message_id = i, max_size = x, flags = f,
       security_model = sm, security_parameters = sp, scoped_data = d\<rparr>)
     (rd_pair rd_int (rd_pair rd_int (rd_pair rd_int (rd_pair rd_octets (rd_pair rd_int (rd_pair rd_octets rd_data))))))"

lemma matches_message: "matches wr_message rd_message"
  unfolding wr_message_def rd_message_def by (intro matches_via matches_parts matches_data) simp

definition wr_usm :: "usm_params \<Rightarrow> bytes" where
  "wr_usm = wr_via (\<lambda>u. (authoritative_engine_id u, authoritative_engine_boots u, authoritative_engine_time u,
       user_name u, authentication_parameters u, privacy_parameters u))
     (wr_pair wr_octets (wr_pair wr_int (wr_pair wr_int (wr_pair wr_octets (wr_pair wr_octets wr_octets)))))"

definition rd_usm :: "bytes \<Rightarrow> (usm_params \<times> bytes) option" where
  "rd_usm = rd_via (\<lambda>(e, b, t, n, a, p). \<lparr>authoritative_engine_id = e, authoritative_engine_boots = b,
       authoritative_engine_time = t, user_name = n, authentication_parameters = a, privacy_parameters = p\<rparr>)
     (rd_pair rd_octets (rd_pair rd_int (rd_pair rd_int (rd_pair rd_octets (rd_pair rd_octets rd_octets)))))"

lemma matches_usm: "matches wr_usm rd_usm"
  unfolding wr_usm_def rd_usm_def by (intro matches_via matches_parts) simp

subsection \<open>The laws\<close>

definition tlv_lib :: "(bytes \<Rightarrow> bytes) \<Rightarrow> (bytes \<Rightarrow> bytes \<Rightarrow> bytes) \<Rightarrow> v3_lib" where
  "tlv_lib sha hmac = \<lparr>decode_message = exactly rd_message, encode_message = Some \<circ> wr_message,
     decode_usm = exactly rd_usm, encode_usm = Some \<circ> wr_usm,
     decode_scoped = exactly rd_scoped, encode_scoped = Some \<circ> wr_scoped,
     valid_oid = (\<lambda>oid. 2 \<le> length oid), sha256 = sha, hmac_sha256 = hmac,
     cfb_encrypt = toy_xor, cfb_decrypt = toy_xor\<rparr>"

text \<open>A tag is written as BER writes it, and the octet strings around it keep their length.\<close>

lemma wr_usm_tag:
  assumes "length tag = AUTH_TRUNC_LEN"
  shows "wr_usm (u\<lparr>authentication_parameters := tag\<rparr>) =
    (wr_octets (authoritative_engine_id u) @ wr_int (authoritative_engine_boots u)
      @ wr_int (authoritative_engine_time u) @ wr_octets (user_name u))
    @ tag_needle tag @ wr_octets (privacy_parameters u)"
proof -
  have "wr_octets tag = tag_needle tag" using assms by (simp add: wr_octets_def tag_needle_def AUTH_TRUNC_LEN_def)
  then show ?thesis by (simp add: wr_usm_def wr_via_def wr_pair_def)
qed

lemma wr_octets_prefix: "\<exists>hd. \<forall>bs. length bs = n \<longrightarrow> wr_octets bs = hd @ bs"
  by (rule exI [of _ "if n < 256 then [4, of_nat n] else 5 # wr_nat n"]) (simp add: wr_octets_def)

lemma tlv_tag_law:
  "\<exists>pre post. \<forall>tag. length tag = AUTH_TRUNC_LEN \<longrightarrow>
     with_usm (tlv_lib sha hmac) (u\<lparr>authentication_parameters := tag\<rparr>) m = Some (pre @ tag_needle tag @ post)"
proof -
  let ?a = "wr_octets (authoritative_engine_id u) @ wr_int (authoritative_engine_boots u)
      @ wr_int (authoritative_engine_time u) @ wr_octets (user_name u)"
  let ?b = "wr_octets (privacy_parameters u)"
  obtain h where h: "\<And>bs. length bs = length ?a + (AUTH_TRUNC_LEN + 2) + length ?b \<Longrightarrow> wr_octets bs = h @ bs"
    using wr_octets_prefix by blast
  let ?pre = "wr_int (v3_version m) @ wr_int (message_id m) @ wr_int (max_size m) @ wr_octets (flags m)
      @ wr_int (security_model m) @ h @ ?a"
  have "with_usm (tlv_lib sha hmac) (u\<lparr>authentication_parameters := tag\<rparr>) m
      = Some (?pre @ tag_needle tag @ ?b @ wr_data (scoped_data m))" if "length tag = AUTH_TRUNC_LEN" for tag
  proof -
    let ?sp = "wr_usm (u\<lparr>authentication_parameters := tag\<rparr>)"
    have "wr_octets ?sp = h @ ?sp"
      by (rule h) (simp add: wr_usm_tag [OF that] that del: append_assoc)
    then show ?thesis
      by (simp add: with_usm_def tlv_lib_def wr_message_def wr_via_def wr_pair_def wr_usm_tag [OF that])
  qed
  then show ?thesis by blast
qed

lemma tlv_codec_laws: "codec_laws (tlv_lib sha hmac)"
  unfolding codec_laws_def using tlv_tag_law
  by (simp add: tlv_lib_def exactly_written matches_message matches_usm matches_scoped)

end
