(* ===== verification/SnmpSessionProps.thy ===== *)
theory SnmpSessionProps
  imports TlvCodec
begin

text \<open>
  The property of a whole SNMPv3 session, with a witness over the codec of \<open>TlvCodec\<close>.
\<close>

text \<open>C2: A whole session succeeds: a client that knows the passphrases discovers the engine,
  derives the user's keys, sends one encrypted and tagged Get or GetNext request, and gets a
  reply whose tag verifies under its key and which decrypts to exactly the response the
  agent's values give.  The codec decodes what it encodes and keeps the place of the tag,
  and neither a tag nor its placeholder occurs a second time in its message.\<close>

theorem v3_session_returns_response:
  assumes "codec_laws lib" "crypto_laws lib" "valid_oid lib USM_STATS_UNKNOWN_ENGINE_IDS"
    and "register_user lib name auth_pass priv_pass (agent_new eid) = Some s" "eid \<noteq> []" "utf8_ok name"
    and "derive_localized_key lib auth_pass eid = Some a" "derive_localized_key lib priv_pass eid = Some p"
    and "8 \<le> length saltc" "8 \<le> length salta"
    and "build_response (valid_oid lib) req values nx = Some resp"
    and "request_message lib saltc eid 1 (engine_time t0) name (take PRIV_KEY_LEN p) mid
      \<lparr>ctx_engine_id = eid, ctx_name = [], ctx_data = (if nx then GetNextRequest req else GetRequest req)\<rparr> = Some um"
    and "tag_unique lib a um" "tagged lib a um = Some raw" "decode_message lib raw = Some msg"
    and "reply_message lib salta t1 msg \<lparr>auth_key = a, priv_key = take PRIV_KEY_LEN p\<rparr> s
      \<lparr>ctx_engine_id = eid, ctx_name = [], ctx_data = Response resp\<rparr> True = Some um'"
    and "tag_unique lib a um'"
  shows "v3_session lib saltc salta t0 t1 name auth_pass priv_pass mid
      (if nx then GetNextRequest req else GetRequest req) s values
    = Some \<lparr>ctx_engine_id = eid, ctx_name = [], ctx_data = Response resp\<rparr>"
proof -
  let ?k = "take PRIV_KEY_LEN p"
  have s: "engine_id s = eid" "engine_boots s = 1" "users s name = Some \<lparr>auth_key = a, priv_key = ?k\<rparr>"
    using assms(4,7,8) by (auto simp: register_user_def agent_new_def)
  have k: "length ?k = PRIV_KEY_LEN"
    using derived_key_length [OF assms(2,8)] by (simp add: PRIV_KEY_LEN_def)
  obtain d r0 where d: "make_discovery_request lib = Some d"
    "handle_v3_datagram lib salta t0 d s values = Reply r0" "read_engine lib r0 = Some (eid, 1, engine_time t0)"
    using discovery_announces [OF assms(1,3), of salta t0 s "values"] s by auto
  obtain bs where "handle_v3_datagram lib salta t1 raw s values = Reply bs" "reply_tag_ok lib a bs"
    "open_reply lib ?k bs = Some \<lparr>ctx_engine_id = eid, ctx_name = [], ctx_data = Response resp\<rparr>"
    using v3_exchange [OF assms(1,2,9,10) k s(1) assms(5,6) s(3) assms(11-17)] by blast
  then show ?thesis using d assms(7,8,12,14) by (simp add: v3_session_def)
qed

text \<open>A user \<open>u\<close> with one-byte passphrases reads the one value the agent has.\<close>

definition demo_v3 :: v3_lib where
  "demo_v3 = tlv_lib (\<lambda>_. replicate 32 1) (\<lambda>_ _. replicate 32 6)"

definition demo_pdu :: pdu where
  "demo_pdu = \<lparr>request_id = 7, error_status = 0, error_index = 0, variable_bindings = [([1, 3], Unspecified)]\<rparr>"

lemma demo_crypto_laws: "crypto_laws demo_v3"
  by (simp add: crypto_laws_def demo_v3_def tlv_lib_def toy_cipher)

lemma wr_nat_step: "wr_nat (numeral k) = (if (numeral k :: nat) < 128 then [numeral k]
    else of_nat (128 + numeral k mod 128) # wr_nat (numeral k div 128))" "wr_nat 0 = [0]" "wr_nat (Suc 0) = [1]"
  by (subst wr_nat.simps, simp)+

lemmas wr_defs = wr_scoped_def wr_pdus_def wr_pdu_def wr_value_def wr_usm_def wr_message_def wr_data_def wr_int_def
  wr_word_def wr_via_def wr_pair_def wr_octets_def wr_nat_step no_pdu_def

definition demo_usm :: usm_params where
  "demo_usm = \<lparr>authoritative_engine_id = [1, 2], authoritative_engine_boots = 1, authoritative_engine_time = 0,
     user_name = [117], authentication_parameters = replicate AUTH_TRUNC_LEN 0, privacy_parameters = replicate 8 9\<rparr>"

definition demo_message :: "bytes \<Rightarrow> v3_message" where
  "demo_message ct = \<lparr>v3_version = 3, message_id = 7, max_size = 65507, flags = [3], security_model = 3,
     security_parameters = [], scoped_data = EncryptedPdu ct\<rparr>"

abbreviation demo_scoped :: "pdus \<Rightarrow> scoped_pdu" where
  "demo_scoped data \<equiv> \<lparr>ctx_engine_id = [1, 2], ctx_name = [], ctx_data = data\<rparr>"

definition demo_request_ct :: bytes where
  "demo_request_ct = [5, 3, 0, 3, 5, 1, 1, 6, 1, 1, 0, 0, 0, 0, 2, 1, 3, 1, 5, 1, 1, 5, 1]"

definition demo_reply_ct :: bytes where
  "demo_reply_ct = [5, 3, 0, 3, 5, 1, 2, 6, 1, 1, 0, 0, 0, 0, 2, 1, 1, 4, 5, 1, 1, 5, 1]"

lemmas demo_evals = demo_v3_def tlv_lib_def wr_defs demo_pdu_def aes_cfb_encrypt_def build_iv_def PRIV_KEY_LEN_def
  to_be_bytes_def engine_time_def toy_xor_def demo_usm_def demo_message_def

lemma demo_request_form:
  "request_message demo_v3 (replicate 8 9) [1, 2] 1 (engine_time 0) [117] (replicate 16 1) 7
     (demo_scoped (GetRequest demo_pdu)) = Some (demo_usm, demo_message demo_request_ct)"
  by (simp add: request_message_def demo_evals demo_request_ct_def)

definition demo_response :: pdu where
  "demo_response = demo_pdu\<lparr>variable_bindings := [([1, 3], IntegerValue 5)]\<rparr>"

lemma demo_reply_form:
  assumes "decode_usm demo_v3 sp = Some (demo_usm\<lparr>authentication_parameters := tag\<rparr>)"
    and "engine_id s = [1, 2]" "engine_boots s = 1"
  shows "reply_message demo_v3 (replicate 8 9) 0 ((demo_message demo_request_ct)\<lparr>security_parameters := sp\<rparr>)
      \<lparr>auth_key = a, priv_key = replicate 16 1\<rparr> s (demo_scoped (Response demo_response)) True
    = Some (demo_usm, demo_message demo_reply_ct)"
proof -
  have "Option.bind (encode_scoped demo_v3 (demo_scoped (Response demo_response)))
     (\<lambda>pt. aes_cfb_encrypt demo_v3 (replicate 8 9) pt (replicate 16 1) 1 (engine_time 0)) = Some (demo_reply_ct, replicate 8 9)"
    by (simp add: demo_evals demo_reply_ct_def demo_response_def)
  then obtain pt where "encode_scoped demo_v3 (demo_scoped (Response demo_response)) = Some pt"
    "aes_cfb_encrypt demo_v3 (replicate 8 9) pt (replicate 16 1) 1 (engine_time 0) = Some (demo_reply_ct, replicate 8 9)"
    by (auto simp: bind_eq_Some_conv)
  then show ?thesis
    using assms by (simp add: reply_message_def demo_usm_def demo_message_def engine_time_def)
qed

lemma demo_tags_unique:
  "tag_unique demo_v3 (replicate 32 1) (demo_usm, demo_message demo_request_ct)"
  "tag_unique demo_v3 (replicate 32 1) (demo_usm, demo_message demo_reply_ct)"
  by (simp_all add: tag_unique_def tagged_def with_usm_def demo_evals demo_request_ct_def demo_reply_ct_def
      AUTH_TRUNC_LEN_def hmac_sign_def occurs_once_count count_sub_skip tag_needle_def)

theorem v3_session_returns_response_witness:
  "\<exists>s. register_user demo_v3 [117] [1] [2] (agent_new [1, 2]) = Some s
     \<and> v3_session demo_v3 (replicate 8 9) (replicate 8 9) 0 0 [117] [1] [2] 7 (GetRequest demo_pdu) s [([1, 3], 5)]
       = Some (demo_scoped (Response demo_response))"
proof -
  let ?a = "replicate 32 1 :: bytes" and ?um = "(demo_usm, demo_message demo_request_ct)"
  have laws: "codec_laws demo_v3" "crypto_laws demo_v3"
    by (simp_all add: demo_v3_def tlv_codec_laws demo_crypto_laws [unfolded demo_v3_def])
  have keys: "derive_localized_key demo_v3 [1] [1, 2] = Some ?a" "derive_localized_key demo_v3 [2] [1, 2] = Some ?a"
    by (simp_all add: derive_localized_key_def demo_v3_def tlv_lib_def Let_def)
  obtain s where s: "register_user demo_v3 [117] [1] [2] (agent_new [1, 2]) = Some s" "engine_id s = [1, 2]" "engine_boots s = 1"
    using keys by (simp add: register_user_def agent_new_def)
  obtain raw sp tag where raw: "tagged demo_v3 ?a ?um = Some raw"
    "decode_message demo_v3 raw = Some ((demo_message demo_request_ct)\<lparr>security_parameters := sp\<rparr>)"
    "decode_usm demo_v3 sp = Some (demo_usm\<lparr>authentication_parameters := tag\<rparr>)"
    using tagged_opens [OF laws demo_tags_unique(1)] by (auto simp: demo_usm_def)
  have r: "build_response (valid_oid demo_v3) demo_pdu [([1, 3], 5)] False = Some demo_response"
    by (simp add: build_response_def respond_def answer_def var_value_of_def demo_pdu_def demo_response_def demo_v3_def tlv_lib_def)
  have k: "take PRIV_KEY_LEN ?a = replicate 16 1" by (simp add: PRIV_KEY_LEN_def)
  have "valid_oid demo_v3 USM_STATS_UNKNOWN_ENGINE_IDS" "utf8_ok [117]"
    by (simp_all add: demo_v3_def tlv_lib_def USM_STATS_UNKNOWN_ENGINE_IDS_def)
  note p = this
  have "v3_session demo_v3 (replicate 8 9) (replicate 8 9) 0 0 [117] [1] [2] 7
      (if False then GetNextRequest demo_pdu else GetRequest demo_pdu) s [([1, 3], 5)]
    = Some (demo_scoped (Response demo_response))"
    by (rule v3_session_returns_response [OF laws p(1) s(1) _ p(2) keys _ _ r _ _ raw(1,2),
          where um' = "(demo_usm, demo_message demo_reply_ct)"])
      (simp_all only: k if_False demo_request_form demo_tags_unique demo_reply_form [OF raw(3) s(2,3)], simp_all)
  then show ?thesis using s(1) by simp
qed

subsection \<open>A request without the flags\<close>

text \<open>The reply to it: in clear, under the user's key.\<close>

definition clear_reply :: "agent_state \<Rightarrow> nat \<Rightarrow> v3_message \<Rightarrow> usm_params \<Rightarrow> scoped_pdu \<Rightarrow> usm_params \<times> v3_message" where
  "clear_reply s t msg usm scoped =
     (\<lparr>authoritative_engine_id = engine_id s, authoritative_engine_boots = uint (engine_boots s),
       authoritative_engine_time = uint (engine_time t), user_name = user_name usm,
       authentication_parameters = replicate AUTH_TRUNC_LEN 0, privacy_parameters = []\<rparr>,
      \<lparr>v3_version = v3_version msg, message_id = message_id msg, max_size = max_size msg, flags = [1],
       security_model = 3, security_parameters = [], scoped_data = CleartextPdu scoped\<rparr>)"

lemma reply_message_clear:
  assumes "decode_usm lib (security_parameters msg) = Some usm"
  shows "reply_message lib salt t msg user s scoped False = Some (clear_reply s t msg usm scoped)"
  using assms by (simp add: reply_message_def clear_reply_def Let_def)

lemma clear_reply_opens:
  assumes "codec_laws lib" "crypto_laws lib" "decode_usm lib (security_parameters msg) = Some usm"
    and "tag_unique lib (auth_key user) (clear_reply s t msg usm scoped)"
  shows "\<exists>bs r. build_authenticated_reply lib salt t msg user s scoped False = Some bs
    \<and> decode_message lib bs = Some r \<and> message_id r = message_id msg \<and> scoped_data r = CleartextPdu scoped"
proof -
  obtain u m where um: "clear_reply s t msg usm scoped = (u, m)" by (cases "clear_reply s t msg usm scoped")
  then have z: "authentication_parameters u = replicate AUTH_TRUNC_LEN 0" "message_id m = message_id msg"
    "scoped_data m = CleartextPdu scoped" by (auto simp: clear_reply_def)
  obtain bs sp where "tagged lib (auth_key user) (u, m) = Some bs"
    "decode_message lib bs = Some (m\<lparr>security_parameters := sp\<rparr>)"
    using tagged_opens [OF assms(1,2) assms(4) [unfolded um] z(1)] by blast
  moreover have "build_authenticated_reply lib salt t msg user s scoped False = tagged lib (auth_key user) (u, m)"
    using sign_is_tagged [OF assms(1,2) assms(4) [unfolded um] z(1)]
    by (simp add: build_authenticated_reply_def reply_message_clear [OF assms(3)] um)
  ultimately show ?thesis using z(2,3) by simp
qed

text \<open>C35: A request with neither the authentication nor the privacy flag set is answered with the
  values, in clear: whoever names the engine and a registered user in a cleartext Get or
  GetNext request, whatever its authentication and privacy parameters and with no knowledge of a key,
  receives a message under the request's message id that carries in clear exactly the
  response the agent's values give.  The codec decodes what it encodes and keeps the place
  of the tag, and neither a tag nor its placeholder occurs a second time in the reply.\<close>

theorem unauthenticated_request_is_served:
  assumes "codec_laws lib" "crypto_laws lib"
    and "decode_message lib datagram = Some msg" "decode_usm lib (security_parameters msg) = Some usm"
    and "authoritative_engine_id usm = engine_id s" "engine_id s \<noteq> []"
    and "users s (if utf8_ok (user_name usm) then user_name usm else []) = Some user"
    and "flags msg = [] \<or> hd (flags msg) AND 3 = 0" "scoped_data msg = CleartextPdu scoped"
    and "ctx_data scoped = (if nx then GetNextRequest req else GetRequest req)"
    and "build_response (valid_oid lib) req values nx = Some resp"
    and "tag_unique lib (auth_key user) (clear_reply s t msg usm
      \<lparr>ctx_engine_id = engine_id s, ctx_name = ctx_name scoped, ctx_data = Response resp\<rparr>)"
  shows "\<exists>bs r. handle_v3_datagram lib salt t datagram s values = Reply bs
    \<and> decode_message lib bs = Some r \<and> message_id r = message_id msg
    \<and> scoped_data r = CleartextPdu
        \<lparr>ctx_engine_id = engine_id s, ctx_name = ctx_name scoped, ctx_data = Response resp\<rparr>"
proof -
  obtain bs r where b: "build_authenticated_reply lib salt t msg user s
      \<lparr>ctx_engine_id = engine_id s, ctx_name = ctx_name scoped, ctx_data = Response resp\<rparr> False = Some bs"
    and r: "decode_message lib bs = Some r" "message_id r = message_id msg"
      "scoped_data r = CleartextPdu \<lparr>ctx_engine_id = engine_id s, ctx_name = ctx_name scoped, ctx_data = Response resp\<rparr>"
    using clear_reply_opens [OF assms(1,2,4,12)] by blast
  have "handle_v3_datagram lib salt t datagram s values = Reply bs"
    using unflagged_request [OF assms(3-9)] assms(10,11) b by (cases nx) (simp_all add: serve_scoped_def)
  with r show ?thesis by blast
qed

text \<open>A stranger reads the value of the demonstration agent: no flags, no tag, no key.\<close>

definition demo_clear_usm :: usm_params where
  "demo_clear_usm = demo_usm\<lparr>authentication_parameters := [], privacy_parameters := []\<rparr>"

definition demo_clear_message :: v3_message where
  "demo_clear_message = (demo_message [])\<lparr>flags := [0], scoped_data := CleartextPdu (demo_scoped (GetRequest demo_pdu))\<rparr>"

lemma demo_clear_reply:
  assumes "engine_id s = [1, 2]" "engine_boots s = 1"
  shows "tag_unique demo_v3 k (clear_reply s 0 (demo_clear_message\<lparr>security_parameters := sp\<rparr>) demo_clear_usm
      (demo_scoped (Response demo_response)))"
  by (simp add: clear_reply_def assms demo_clear_usm_def demo_clear_message_def demo_response_def
      tag_unique_def tagged_def with_usm_def demo_evals AUTH_TRUNC_LEN_def hmac_sign_def occurs_once_count
      count_sub_skip tag_needle_def)

theorem unauthenticated_request_is_served_witness:
  "\<exists>s datagram bs r. register_user demo_v3 [117] [1] [2] (agent_new [1, 2]) = Some s
     \<and> with_usm demo_v3 demo_clear_usm demo_clear_message = Some datagram
     \<and> handle_v3_datagram demo_v3 (replicate 8 9) 0 datagram s [([1, 3], 5)] = Reply bs
     \<and> decode_message demo_v3 bs = Some r \<and> scoped_data r = CleartextPdu (demo_scoped (Response demo_response))"
proof -
  have laws: "codec_laws demo_v3" "crypto_laws demo_v3"
    by (simp_all add: demo_v3_def tlv_codec_laws demo_crypto_laws [unfolded demo_v3_def])
  obtain s u where s: "register_user demo_v3 [117] [1] [2] (agent_new [1, 2]) = Some s" "engine_id s = [1, 2]"
    "engine_boots s = 1" "users s [117] = Some u"
    by (simp add: register_user_def agent_new_def derive_localized_key_def demo_v3_def tlv_lib_def Let_def)
  obtain sp d where d: "with_usm demo_v3 demo_clear_usm demo_clear_message = Some d"
    "decode_message demo_v3 d = Some (demo_clear_message\<lparr>security_parameters := sp\<rparr>)"
    "decode_usm demo_v3 sp = Some demo_clear_usm"
    using codec_lawsD(2) [OF laws(1)] by blast
  have r: "build_response (valid_oid demo_v3) demo_pdu [([1, 3], 5)] False = Some demo_response"
    by (simp add: build_response_def respond_def answer_def var_value_of_def demo_pdu_def demo_response_def demo_v3_def tlv_lib_def)
  have "\<exists>bs r. handle_v3_datagram demo_v3 (replicate 8 9) 0 d s [([1, 3], 5)] = Reply bs
    \<and> decode_message demo_v3 bs = Some r \<and> message_id r = message_id (demo_clear_message\<lparr>security_parameters := sp\<rparr>)
    \<and> scoped_data r = CleartextPdu \<lparr>ctx_engine_id = engine_id s,
        ctx_name = ctx_name (demo_scoped (GetRequest demo_pdu)), ctx_data = Response demo_response\<rparr>"
    by (rule unauthenticated_request_is_served [OF laws d(2), where nx = False and req = demo_pdu and usm = demo_clear_usm and user = u])
      (simp_all add: d(3) s r demo_clear_reply, simp_all add: demo_clear_usm_def demo_clear_message_def demo_usm_def demo_message_def s)
  then show ?thesis using s(1,2) d(1) by auto
qed

end
