(* ===== verification/SnmpTests.thy ===== *)
theory SnmpTests
  imports SnmpSessionProps SnmpProps SnmpLocks
begin

text \<open>
  The unit tests that stand in the source files of mock-snmp-agent, translated to
  predicates over the model, with the proof that what they assert holds of it.
\<close>

subsection \<open>oids.rs\<close>

text \<open>The value of an OID as \<open>f64\<close> times a scale; indexing a missing key is a panic.\<close>

definition scaled :: "oid \<Rightarrow> rat \<Rightarrow> fp option" where
  "scaled k scale = map_option (\<lambda>v. fmul F64 (f64_of_int (sint v)) (f64_lit scale)) (map_of initial_values k)"

definition every_pdu_binding_reads_a_plausible_value :: bool where
  "every_pdu_binding_reads_a_plausible_value =
     (let near = (\<lambda>x v. case x of None \<Rightarrow> False | Some y \<Rightarrow> close_to y (f64_lit v) (f64_lit (1 / 10 ^ 9)));
          amps = (\<lambda>p. scaled (sentry4 4 [p]) (1 / 100)); volts = (\<lambda>p. scaled (sentry4 5 [p]) (1 / 10)) in
      near (amps 1) 15 \<and> near (amps 2) (152 / 10) \<and> near (amps 3) (148 / 10)
      \<and> near (volts 1) 240 \<and> near (volts 2) (2395 / 10) \<and> near (volts 3) (2405 / 10)
      \<and> OID_INPUT_CURRENT = sentry4 4 [1])"

lemma sentry4_not_mib2 [simp]: "sentry4 t x \<noteq> [1, 3, 6, 1, 2, 1] @ r" "[1, 3, 6, 1, 2, 1] @ r \<noteq> sentry4 t x"
  by (simp_all add: sentry4_def)

lemma mib2_not_raritan [simp]: "\<not> is_raritan ([1, 3, 6, 1, 2, 1] @ r)"
  by (simp add: is_raritan_def)

text \<open>The canned map, its MIB-2 keys by their tails.\<close>

lemma canned:
  "sentry4_and_switch = map_extend []
     [(sentry4 4 [1], 1500), (sentry4 4 [2], 1520), (sentry4 4 [3], 1480),
      (sentry4 5 [1], 2400), (sentry4 5 [2], 2395), (sentry4 5 [3], 2405), (sentry4 3 [], 10800),
      ([1, 3, 6, 1, 2, 1] @ [2, 2, 1, 8, 1], 1), ([1, 3, 6, 1, 2, 1] @ [99, 1, 1, 1, 4, 1], 27),
      ([1, 3, 6, 1, 2, 1] @ [99, 1, 1, 1, 4, 2], 58)]"
  by (simp add: sentry4_and_switch_def)

lemma initial_readings:
  "map (map_of initial_values) [sentry4 4 [1], sentry4 4 [2], sentry4 4 [3], sentry4 5 [1], sentry4 5 [2], sentry4 5 [3],
     sentry4 3 []] = map Some [1500, 1520, 1480, 2400, 2395, 2405, 10800]"
  by (simp add: initial_lookup canned map_extend_lookup del: append_Cons append_Nil)

lemma pdu_binding: every_pdu_binding_reads_a_plausible_value
  unfolding every_pdu_binding_reads_a_plausible_value_def scaled_def Let_def
  using initial_readings by (simp add: close_to_def fabs_def fp_eval flt_def input_current)

text \<open>The volt-amperes the phases carry, summed as the test sums them.\<close>

definition phase_va :: "u32 \<Rightarrow> fp option" where
  "phase_va p = (case (map_of initial_values (sentry4 4 [p]), map_of initial_values (sentry4 5 [p])) of
       (Some c, Some d) \<Rightarrow> Some (fmul F64 (fmul F64 (fmul F64 (f64_of_int (sint c)) (f64_lit (1 / 100)))
          (f64_of_int (sint d))) (f64_lit (1 / 10)))
     | _ \<Rightarrow> None)"

definition input_power_is_the_cords_three_phases :: bool where
  "input_power_is_the_cords_three_phases =
     (case map phase_va [1, 2, 3] of
        [Some a, Some b, Some c] \<Rightarrow>
          map_of initial_values (sentry4 3 []) = Some (as_i64 (fround (foldl (fadd F64) NegZero [a, b, c])))
      | _ \<Rightarrow> False)"

lemma input_power_three_phases: input_power_is_the_cords_three_phases
  using initial_readings
  by (simp add: input_power_is_the_cords_three_phases_def phase_va_def fp_eval)

definition every_network_switch_binding_reads_a_plausible_value :: bool where
  "every_network_switch_binding_reads_a_plausible_value =
     (let mib2 = (\<lambda>tail. map_of initial_values ([1, 3, 6, 1, 2, 1] @ tail)) in
      mib2 [2, 2, 1, 8, 1] = Some 1 \<and> mib2 [99, 1, 1, 1, 4, 1] = Some 27 \<and> mib2 [99, 1, 1, 1, 4, 2] = Some 58)"

lemma network_switch_binding: every_network_switch_binding_reads_a_plausible_value
  by (simp add: every_network_switch_binding_reads_a_plausible_value_def initial_lookup canned map_extend_lookup
      del: append_Cons append_Nil)

subsection \<open>simulator.rs\<close>

definition tick_advances_undriven_oid :: bool where
  "tick_advances_undriven_oid =
     (map_of (snmp_tick snmp_simulator [(OID_INPUT_CURRENT, 1500)] {}) OID_INPUT_CURRENT = Some 1505)"

lemma tick_advances_oid: tick_advances_undriven_oid
  by (simp add: tick_advances_undriven_oid_def snmp_tick_def snmp_simulator_def tick_oid_lookup next_int_def)

definition tick_skips_control_driven_oid :: bool where
  "tick_skips_control_driven_oid =
     (map_of (snmp_tick snmp_simulator [(OID_INPUT_CURRENT, 42)] {OID_INPUT_CURRENT}) OID_INPUT_CURRENT = Some 42)"

lemma tick_skips_oid: tick_skips_control_driven_oid
  by (simp add: tick_skips_control_driven_oid_def snmp_tick_driven)

subsection \<open>control.rs\<close>

text \<open>While the simulator holds the driven set, a PUT waits for it without having taken the values.\<close>

definition put_never_holds_values_while_waiting_on_driven :: "task list \<Rightarrow> bool" where
  "put_never_holds_values_while_waiting_on_driven ts \<longleftrightarrow> (\<forall>t\<in>set ts. ValuesLock \<notin> snd t)"

lemma put_waits_without_values:
  assumes "lock_step\<^sup>*\<^sup>* [([], {DrivenLock}), (put_oids_locks, {})] ts"
  shows "put_never_holds_values_while_waiting_on_driven ts"
  using assms
proof (cases rule: converse_rtranclpE)
  case base
  then show ?thesis by (auto simp: put_never_holds_values_while_waiting_on_driven_def)
next
  case (step ts')
  from step(1) have False by (cases rule: lock_step.cases) (auto simp: put_oids_locks_def less_Suc_eq)
  then show ?thesis ..
qed

subsection \<open>usm.rs\<close>

definition derive_key_is_deterministic_and_engine_id_localized :: "v3_lib \<Rightarrow> bool" where
  "derive_key_is_deterministic_and_engine_id_localized lib =
     (let pw = to_bytes ''mypassphrase1234'';
          eid_a = [0x80, 0x00, 0x86, 0x05, 5, 1, 2, 3, 4, 5, 6, 7, 8];
          eid_b = [0x80, 0x00, 0x86, 0x05, 5, 9, 9, 9, 9, 9, 9, 9, 9] in
      derive_localized_key lib pw eid_a = derive_localized_key lib pw eid_a
      \<and> derive_localized_key lib pw eid_a \<noteq> derive_localized_key lib pw eid_b
      \<and> map_option length (derive_localized_key lib pw eid_a) = Some 32)"

text \<open>Given that SHA-256 does not collide on the two localizations.\<close>

lemma derive_key_localized:
  assumes "crypto_laws lib" and "\<And>k. sha256 lib (k @ [0x80, 0x00, 0x86, 0x05, 5, 1, 2, 3, 4, 5, 6, 7, 8] @ k)
    \<noteq> sha256 lib (k @ [0x80, 0x00, 0x86, 0x05, 5, 9, 9, 9, 9, 9, 9, 9, 9] @ k)"
  shows "derive_key_is_deterministic_and_engine_id_localized lib"
proof -
  have "to_bytes ''mypassphrase1234'' \<noteq> []" by (simp add: to_bytes_def)
  then show ?thesis
    using assms by (simp add: derive_key_is_deterministic_and_engine_id_localized_def derive_localized_key_def Let_def
        crypto_laws_def del: append_Cons)
qed

definition aes_cfb_round_trip_test :: "v3_lib \<Rightarrow> bytes \<Rightarrow> bool" where
  "aes_cfb_round_trip_test lib random =
     (let key = replicate 16 0xAA; pt = to_bytes ''the scoped pdu would go here, 32B'' in
      case aes_cfb_encrypt lib random pt key 1 12345 of
        None \<Rightarrow> False
      | Some (ct, salt) \<Rightarrow> aes_cfb_decrypt lib ct key 1 12345 salt = Some pt)"

lemma aes_cfb_test: "crypto_laws lib \<Longrightarrow> length random = 8 \<Longrightarrow> aes_cfb_round_trip_test lib random"
  using aes_round_trip [of lib random "replicate 16 0xAA" "to_bytes ''the scoped pdu would go here, 32B''" 1 12345]
  by (auto simp: aes_cfb_round_trip_test_def Let_def PRIV_KEY_LEN_def)

subsection \<open>v3.rs\<close>

text \<open>The first variable binding of a report sent in clear, with the engine id that comes with it.\<close>

definition report_binding :: "v3_lib \<Rightarrow> bytes \<Rightarrow> (bytes \<times> oid) option" where
  "report_binding lib reply =
     Option.bind (decode_message lib reply) (\<lambda>msg.
     Option.bind (decode_usm lib (security_parameters msg)) (\<lambda>usm.
       case scoped_data msg of
         EncryptedPdu _ \<Rightarrow> None
       | CleartextPdu scoped \<Rightarrow>
           (case ctx_data scoped of
              Report r \<Rightarrow> (case variable_bindings r of [] \<Rightarrow> None | (oid, _) # _ \<Rightarrow> Some (authoritative_engine_id usm, oid))
            | _ \<Rightarrow> None)))"

definition discovery_returns_report_with_engine_id :: "v3_lib \<Rightarrow> bytes \<Rightarrow> nat \<Rightarrow> bool" where
  "discovery_returns_report_with_engine_id lib salt elapsed =
     (let our_eid = [0x80, 0x00, 0x86, 0x9F, 5, 0xDE, 0xAD, 0xBE, 0xEF, 1, 2, 3, 4] in
      Option.bind (Option.bind (make_discovery_request lib)
          (\<lambda>request. reply_bytes (handle_v3_datagram lib salt elapsed request (agent_new our_eid) [])))
        (report_binding lib) = Some (our_eid, USM_STATS_UNKNOWN_ENGINE_IDS))"

lemma discovery_report_opens:
  assumes "codec_laws lib" "valid_oid lib USM_STATS_UNKNOWN_ENGINE_IDS"
  shows "\<exists>bs. build_discovery_report lib t msg usm s = Some bs
    \<and> report_binding lib bs = Some (engine_id s, USM_STATS_UNKNOWN_ENGINE_IDS)"
proof -
  obtain u m where b: "build_discovery_report lib t msg usm s = with_usm lib u m" "authoritative_engine_id u = engine_id s"
    "\<exists>eid nm i. scoped_data m = CleartextPdu \<lparr>ctx_engine_id = eid, ctx_name = nm, ctx_data = Report
       \<lparr>request_id = i, error_status = 0, error_index = 0, variable_bindings = [(USM_STATS_UNKNOWN_ENGINE_IDS, IntegerValue 1)]\<rparr>\<rparr>"
    using assms(2) by (simp add: build_discovery_report_def Let_def)
  obtain sp bs where "with_usm lib u m = Some bs" "decode_message lib bs = Some (m\<lparr>security_parameters := sp\<rparr>)"
    "decode_usm lib sp = Some u" using codec_lawsD(2) [OF assms(1)] by blast
  with b show ?thesis by (auto simp: report_binding_def)
qed

lemma discovery_test:
  assumes "codec_laws lib" "valid_oid lib USM_STATS_UNKNOWN_ENGINE_IDS"
  shows "discovery_returns_report_with_engine_id lib salt elapsed"
proof -
  let ?s = "agent_new [0x80, 0x00, 0x86, 0x9F, 5, 0xDE, 0xAD, 0xBE, 0xEF, 1, 2, 3, 4]"
  obtain d msg usm where d: "make_discovery_request lib = Some d" "decode_message lib d = Some msg"
    "decode_usm lib (security_parameters msg) = Some usm" "authoritative_engine_id usm = []"
    using codec_lawsD(2) [OF assms(1)] unfolding make_discovery_request_def
    by (metis usm_params.select_convs(1) v3_message.select_convs(6) v3_message.update_convs(6))
  obtain bs where "build_discovery_report lib elapsed msg usm ?s = Some bs"
    "report_binding lib bs = Some (engine_id ?s, USM_STATS_UNKNOWN_ENGINE_IDS)"
    using discovery_report_opens [OF assms] by blast
  with d show ?thesis
    by (simp add: discovery_returns_report_with_engine_id_def handle_v3_datagram_def agent_new_def)
qed

definition authpriv_round_trip_decodes_to_simulator_value :: "v3_lib \<Rightarrow> bytes \<Rightarrow> bytes \<Rightarrow> nat \<Rightarrow> bool" where
  "authpriv_round_trip_decodes_to_simulator_value lib saltc salta elapsed =
     (let our_eid = [0x80, 0x00, 0x86, 0x9F, 5, 0x42, 0x42, 0x42, 0x42, 1, 2, 3, 4];
          target_oid = [1, 3, 6, 1, 4, 1, 41999, 42, 1, 0] in
      Option.bind (register_user lib (to_bytes ''gateway'') (to_bytes ''authpass1234'') (to_bytes ''privpass5678'')
        (agent_new our_eid)) (\<lambda>s.
      Option.bind (derive_localized_key lib (to_bytes ''authpass1234'') our_eid) (\<lambda>authk.
      Option.bind (derive_localized_key lib (to_bytes ''privpass5678'') our_eid) (\<lambda>privk.
      Option.bind (make_authpriv_request lib saltc our_eid authk (take PRIV_KEY_LEN privk) target_oid) (\<lambda>request.
      Option.bind (reply_bytes (handle_v3_datagram lib salta elapsed request s [(target_oid, 9876)])) (\<lambda>reply.
      Option.bind (open_reply lib (take PRIV_KEY_LEN privk) reply) (\<lambda>scoped.
        case ctx_data scoped of
          Response r \<Rightarrow> (case variable_bindings r of [] \<Rightarrow> None | vb # _ \<Rightarrow> Some vb)
        | _ \<Rightarrow> None))))))
      = Some (target_oid, IntegerValue 9876))"

lemma authpriv_test:
  fixes lib :: v3_lib and eid target_oid
  defines "eid \<equiv> [0x80, 0x00, 0x86, 0x9F, 5, 0x42, 0x42, 0x42, 0x42, 1, 2, 3, 4]"
    and "target_oid \<equiv> [1, 3, 6, 1, 4, 1, 41999, 42, 1, 0]"
  defines "req \<equiv> \<lparr>request_id = 7777, error_status = 0, error_index = 0, variable_bindings = [(target_oid, Unspecified)]\<rparr>"
    and "resp \<equiv> \<lparr>request_id = 7777, error_status = 0, error_index = 0, variable_bindings = [(target_oid, IntegerValue 9876)]\<rparr>"
  assumes laws: "codec_laws lib" "crypto_laws lib" "valid_oid lib target_oid" and salts: "8 \<le> length saltc" "8 \<le> length salta"
    and keys: "derive_localized_key lib (to_bytes ''authpass1234'') eid = Some a"
      "derive_localized_key lib (to_bytes ''privpass5678'') eid = Some p"
    and s: "register_user lib (to_bytes ''gateway'') (to_bytes ''authpass1234'') (to_bytes ''privpass5678'') (agent_new eid) = Some s"
    and um: "request_message lib saltc eid 1 0 (to_bytes ''gateway'') (take PRIV_KEY_LEN p) 7777
        \<lparr>ctx_engine_id = eid, ctx_name = [], ctx_data = GetRequest req\<rparr> = Some um"
      "tag_unique lib a um" "tagged lib a um = Some raw" "decode_message lib raw = Some msg"
    and um': "reply_message lib salta elapsed msg \<lparr>auth_key = a, priv_key = take PRIV_KEY_LEN p\<rparr> s
        \<lparr>ctx_engine_id = eid, ctx_name = [], ctx_data = Response resp\<rparr> True = Some um'" "tag_unique lib a um'"
  shows "authpriv_round_trip_decodes_to_simulator_value lib saltc salta elapsed"
proof -
  let ?k = "take PRIV_KEY_LEN p"
  have st: "engine_id s = eid" "users s (to_bytes ''gateway'') = Some \<lparr>auth_key = a, priv_key = ?k\<rparr>"
    using s keys by (auto simp: register_user_def agent_new_def)
  have k: "length ?k = PRIV_KEY_LEN"
    using derived_key_length [OF laws(2) keys(2)] by (simp add: PRIV_KEY_LEN_def)
  have ne: "eid \<noteq> []" "utf8_ok (to_bytes ''gateway'')" by (simp_all add: eid_def to_bytes_def)
  have r: "build_response (valid_oid lib) req [(target_oid, 9876)] False = Some resp"
    using laws(3) by (simp add: build_response_def respond_def answer_def var_value_of_def req_def resp_def)
  have um0: "request_message lib saltc eid 1 0 (to_bytes ''gateway'') ?k 7777
      \<lparr>ctx_engine_id = eid, ctx_name = [], ctx_data = (if False then GetNextRequest req else GetRequest req)\<rparr> = Some um"
    using um(1) by simp
  obtain bs where bs: "handle_v3_datagram lib salta elapsed raw s [(target_oid, 9876)] = Reply bs"
    "open_reply lib ?k bs = Some \<lparr>ctx_engine_id = eid, ctx_name = [], ctx_data = Response resp\<rparr>"
    using v3_exchange [OF laws(1,2) salts k st(1) ne st(2) r um0 um(2-4) um'] by blast
  have "make_authpriv_request lib saltc eid a ?k target_oid = Some raw"
    using um(1,3) laws(3) by (simp add: make_authpriv_request_def req_def)
  then show ?thesis
    using s keys bs by (simp add: authpriv_round_trip_decodes_to_simulator_value_def resp_def eid_def target_oid_def)
qed

end
