(* ===== verification/Bacnet.thy ===== *)
theory Bacnet
  imports Prelude Casts
begin

text \<open>
  mock-bacnet-device: the sawtooth over the analog inputs (\<open>simulator.rs\<close>) and the
  responder (\<open>main.rs\<close>).  The NPDU, APDU and service codecs belong to the bacnet_rs crate
  and are the fields of one parameter.
\<close>

subsection \<open>The simulator (simulator.rs)\<close>

record saw_strategy =
  strat_min :: fp
  strat_max :: fp
  strat_step :: fp

type_synonym strategies = "(u32 \<times> saw_strategy) list"
type_synonym present_values = "u32 \<rightharpoonup> fp"

definition bac_strategies :: strategies where
  "bac_strategies = [(1, \<lparr>strat_min = f32_lit 7, strat_max = f32_lit 15, strat_step = f32_lit (1 / 2)\<rparr>)]"

definition bac_seed :: "strategies \<Rightarrow> present_values" where
  "bac_seed ss = insert_all (map (\<lambda>(i, s). (i, strat_min s)) ss) Map.empty"

definition bac_next :: "saw_strategy \<Rightarrow> fp \<Rightarrow> fp" where
  "bac_next s cur = (if flt (strat_max s) (fadd F32 cur (strat_step s)) then strat_min s
     else fadd F32 cur (strat_step s))"

definition bac_tick_one :: "u32 \<times> saw_strategy \<Rightarrow> present_values \<Rightarrow> present_values" where
  "bac_tick_one is v =
     (let cur = (case v (fst is) of None \<Rightarrow> strat_min (snd is) | Some x \<Rightarrow> x)
      in v(fst is \<mapsto> bac_next (snd is) cur))"

text \<open>The strategies in the order the hash map is visited.\<close>

definition bac_tick :: "strategies \<Rightarrow> present_values \<Rightarrow> present_values" where
  "bac_tick ss v = fold bac_tick_one ss v"

subsection \<open>The codec (bacnet_rs)\<close>

datatype object_type = AnalogInput | DeviceObject | OtherObject nat
datatype property_id = PresentValue | OtherProperty nat

record read_property =
  rp_type :: object_type
  rp_instance :: u32
  rp_property :: property_id

datatype apdu =
    WhoIsApdu bytes
  | IAmApdu bytes
  | ReadPropertyApdu u8 bytes
  | ReadPropertyAck u8 bytes
  | OtherApdu bytes

record bac_lib =
  npdu_decode :: "bytes \<Rightarrow> nat option"
  npdu_encode :: bytes
  apdu_decode :: "bytes \<Rightarrow> apdu option"
  apdu_encode :: "apdu \<Rightarrow> bytes"
  who_is_decode :: "bytes \<Rightarrow> (u32 \<Rightarrow> bool) option"
  iam_encode :: "u32 \<Rightarrow> nat \<Rightarrow> nat \<Rightarrow> bytes option"
  rp_decode :: "bytes \<Rightarrow> read_property option"
  rp_ack_encode :: "read_property \<Rightarrow> fp \<Rightarrow> bytes option"

subsection \<open>The responder (main.rs)\<close>

definition DEFAULT_PORT :: nat where "DEFAULT_PORT = 47808"
definition DEFAULT_DEVICE_INSTANCE :: u32 where "DEFAULT_DEVICE_INSTANCE = 11001"

text \<open>\<open>npdu_encode\<close> is a fresh NPDU with \<open>expecting_reply\<close> cleared.\<close>

definition wrap_bvlc :: "bac_lib \<Rightarrow> bytes \<Rightarrow> u8 \<Rightarrow> bytes" where
  "wrap_bvlc lib apdu_bytes fn_code =
     (let payload = npdu_encode lib @ apdu_bytes;
          out = [0x81, fn_code, 0, 0] @ payload;
          total = (of_nat (length out) :: u16) in
      (out[2 := ucast (drop_bit 8 total)])[3 := ucast (total AND 0xFF)])"

datatype bac_error = NpduDecode | ApduDecode | WhoIsDecode | RpDecode | IamEncode | RpEncode

definition iam_frame :: "bac_lib \<Rightarrow> bac_error + bytes" where
  "iam_frame lib =
     (case iam_encode lib DEFAULT_DEVICE_INSTANCE 1476 260 of
        None \<Rightarrow> Inl IamEncode
      | Some svc \<Rightarrow> Inr (wrap_bvlc lib (apdu_encode lib (IAmApdu svc)) 0x0B))"

definition answer_read_property ::
  "bac_lib \<Rightarrow> u8 \<Rightarrow> read_property \<Rightarrow> present_values \<Rightarrow> bac_error + bytes option" where
  "answer_read_property lib invoke_id req v =
     (if rp_type req \<noteq> AnalogInput \<or> rp_property req \<noteq> PresentValue then Inr None
      else case v (rp_instance req) of
        None \<Rightarrow> Inr None
      | Some x \<Rightarrow>
          (case rp_ack_encode lib req x of
             None \<Rightarrow> Inl RpEncode
           | Some svc \<Rightarrow> Inr (Some (wrap_bvlc lib (apdu_encode lib (ReadPropertyAck invoke_id svc)) 0x0A))))"

definition bac_dispatch :: "bac_lib \<Rightarrow> present_values \<Rightarrow> apdu \<Rightarrow> bac_error + bytes option" where
  "bac_dispatch lib v a =
     (case a of
        WhoIsApdu svc \<Rightarrow>
          (case who_is_decode lib svc of
             None \<Rightarrow> Inl WhoIsDecode
           | Some matches \<Rightarrow>
               if \<not> matches DEFAULT_DEVICE_INSTANCE then Inr None
               else map_sum id Some (iam_frame lib))
      | ReadPropertyApdu invoke_id svc \<Rightarrow>
          (case rp_decode lib svc of
             None \<Rightarrow> Inl RpDecode
           | Some req \<Rightarrow> answer_read_property lib invoke_id req v)
      | _ \<Rightarrow> Inr None)"

text \<open>A reply, silence or an error; \<open>None\<close> when slicing past the decoded NPDU panics.\<close>

definition bac_handle :: "bac_lib \<Rightarrow> bytes \<Rightarrow> present_values \<Rightarrow> (bac_error + bytes option) option" where
  "bac_handle lib frame v =
     (if length frame < 4 \<or> frame ! 0 \<noteq> 0x81 then Some (Inr None)
      else if frame ! 1 \<noteq> 0x0A \<and> frame ! 1 \<noteq> 0x0B then Some (Inr None)
      else case npdu_decode lib (drop 4 frame) of
        None \<Rightarrow> Some (Inl NpduDecode)
      | Some npdu_len \<Rightarrow>
          if length frame < 4 + npdu_len then None
          else (case apdu_decode lib (drop (4 + npdu_len) frame) of
             None \<Rightarrow> Some (Inl ApduDecode)
           | Some a \<Rightarrow> Some (bac_dispatch lib v a)))"

text \<open>
  The process: the ticking task and the receive loop share the values, one at a time.  A
  datagram is read into 1500 bytes; an error is logged; a panic ends the loop.
\<close>

datatype bac_event = BacTick | BacFrame bytes

definition bac_step ::
  "bac_lib \<Rightarrow> strategies \<Rightarrow> bac_event \<Rightarrow> present_values \<Rightarrow> (present_values \<times> bytes option) option" where
  "bac_step lib ss ev v =
     (case ev of
        BacTick \<Rightarrow> Some (bac_tick ss v, None)
      | BacFrame datagram \<Rightarrow>
          (case bac_handle lib (take 1500 datagram) v of
             None \<Rightarrow> None
           | Some (Inl e) \<Rightarrow> Some (v, None)
           | Some (Inr reply) \<Rightarrow> Some (v, reply)))"

primrec bac_run ::
  "bac_lib \<Rightarrow> strategies \<Rightarrow> bac_event list \<Rightarrow> present_values \<Rightarrow> present_values option" where
  "bac_run lib ss [] v = Some v"
| "bac_run lib ss (ev # evs) v = Option.bind (bac_step lib ss ev v) (\<lambda>(w, _). bac_run lib ss evs w)"

definition bac_main :: "bac_lib \<Rightarrow> bac_event list \<Rightarrow> present_values option" where
  "bac_main lib evs = bac_run lib bac_strategies evs (bac_seed bac_strategies)"

subsection \<open>The sawtooth of analog input 1\<close>

definition bac_saw :: saw_strategy where
  "bac_saw = \<lparr>strat_min = Num 7, strat_max = Num 15, strat_step = Num (1 / 2)\<rparr>"

lemma f32_lits: "f32_lit 7 = Num 7" "f32_lit 15 = Num 15" "f32_lit (1 / 2) = Num (1 / 2)"
  by (simp_all add: fp_eval)

lemma bac_strategies_eq: "bac_strategies = [(1, bac_saw)]"
  by (simp add: bac_strategies_def bac_saw_def f32_lits)

text \<open>Quarters up to 2 to the 22 are floats, so rounding keeps more than half of the step.\<close>

lemma quarter_grid: "\<bar>m\<bar> < 2 ^ 22 \<Longrightarrow> bound_ok F32 (of_int m / 4)"
proof -
  assume m: "\<bar>m\<bar> < 2 ^ 22"
  have "frnd F32 (of_int m * 2 powi (- 2)) = of_int m * 2 powi (- 2)"
    using m by (intro rnd_exact) (simp_all add: emin.simps)
  moreover have "of_int m * 2 powi (- 2) = (of_int m / 4 :: rat)" by (simp add: power_int_minus)
  moreover have "\<bar>of_int m / 4 :: rat\<bar> < huge F32"
  proof -
    have "\<bar>of_int m :: rat\<bar> < of_int (2 ^ 22)" using m by (simp only: of_int_less_iff flip: of_int_abs)
    also have "\<dots> \<le> huge F32" by (simp add: huge.simps)
    finally show ?thesis using abs_ge_zero [of "of_int m :: rat"] by (simp add: abs_divide)
  qed
  ultimately show ?thesis by (simp add: bound_ok_def on_grid_def)
qed

lemma floor_obtain:
  obtains m :: int where "of_int m \<le> (x :: rat)" "x < of_int m + 1" "\<lfloor>x\<rfloor> = m"
proof
  show "of_int \<lfloor>x\<rfloor> \<le> x" "x < of_int \<lfloor>x\<rfloor> + 1" using floor_correct [of x] by simp_all
qed simp

lemma bac_step_bounds:
  assumes "7 \<le> x" "x \<le> 15"
  shows "is_finite (fadd F32 (Num x) (Num (1 / 2)))"
    and "fval (fadd F32 (Num x) (Num (1 / 2))) = frnd F32 (x + 1 / 2)"
    and "x + 1 / 4 < frnd F32 (x + 1 / 2)"
proof -
  obtain m where m: "of_int m \<le> 4 * (x + 1 / 2)" "4 * (x + 1 / 2) < of_int m + 1"
    by (rule floor_obtain)
  have "of_int 29 < (of_int m :: rat)" "of_int m < (of_int 63 :: rat)"
    using m assms by simp_all
  then have "29 < m" "m < 63" by (simp_all only: of_int_less_iff)
  then have g: "bound_ok F32 (of_int m / 4)" by (intro quarter_grid) simp
  have h: "bound_ok F32 16" by simp
  have l: "of_int m / 4 \<le> x + 1 / 2" using m(1) by simp
  have u: "x + 1 / 2 \<le> 16" using assms(2) by simp
  note b = frnd_between [OF l u g h]
  show "x + 1 / 4 < frnd F32 (x + 1 / 2)" using b(1) m(2) by simp
  show "is_finite (fadd F32 (Num x) (Num (1 / 2)))"
    "fval (fadd F32 (Num x) (Num (1 / 2))) = frnd F32 (x + 1 / 2)"
    using fadd_finite [of "Num x" "Num (1 / 2)" F32] b(3) by simp_all
qed

lemma rank_drops:
  assumes "y \<le> 15" "x + 1 / 4 < (y :: rat)"
  shows "nat \<lfloor>4 * (15 - y)\<rfloor> < nat \<lfloor>4 * (15 - x)\<rfloor>"
proof -
  obtain m where m: "of_int m \<le> 4 * (15 - y)" "4 * (15 - y) < of_int m + 1" "\<lfloor>4 * (15 - y)\<rfloor> = m"
    by (rule floor_obtain)
  have "of_int (m + 1) \<le> 4 * (15 - x)" using m(1) assms(2) by simp
  then have "m + 1 \<le> \<lfloor>4 * (15 - x)\<rfloor>" by (simp only: le_floor_iff)
  moreover have "0 \<le> m" using assms(1) unfolding m(3) [symmetric] by simp
  ultimately show ?thesis unfolding m(3) by (simp only: nat_less_eq_zless)
qed

interpretation bac: sawtooth "\<lambda>x. fval (bac_next bac_saw (Num x))" 7 15 "\<lambda>x. nat \<lfloor>4 * (15 - x)\<rfloor>"
proof
  show "(7 :: rat) \<le> 15" by simp
next
  fix x :: rat
  assume x: "7 \<le> x" "x \<le> 15"
  note s = bac_step_bounds [OF x]
  let ?y = "frnd F32 (x + 1 / 2)"
  show "fval (bac_next bac_saw (Num x)) = 7 \<or> x < fval (bac_next bac_saw (Num x))
      \<and> fval (bac_next bac_saw (Num x)) \<le> 15
      \<and> nat \<lfloor>4 * (15 - fval (bac_next bac_saw (Num x)))\<rfloor> < nat \<lfloor>4 * (15 - x)\<rfloor>"
  proof (cases "15 < ?y")
    case True
    then show ?thesis using s(1,2) by (simp add: bac_next_def bac_saw_def)
  next
    case False
    have n: "fval (bac_next bac_saw (Num x)) = ?y"
      using False s(1,2) by (simp add: bac_next_def bac_saw_def)
    show ?thesis using rank_drops [of ?y x] False s(3) unfolding n by simp
  qed
qed

text \<open>Halves up to 15.5 add exactly.\<close>

lemma bac_next_half:
  assumes "0 \<le> k" "k \<le> 16"
  shows "bac_next bac_saw (Num (7 + of_int k / 2)) = Num (if k = 16 then 7 else 7 + of_int (k + 1) / 2)"
proof -
  let ?x = "7 + of_int k / 2 :: rat"
  have "bound_ok F32 (of_int (2 * k + 30) / 4)" using assms by (intro quarter_grid) simp
  moreover have q: "of_int (2 * k + 30) / 4 = ?x + 1 / 2" by simp
  ultimately have "bound_ok F32 (?x + 1 / 2)" by (simp only: q)
  then have f: "frnd F32 (?x + 1 / 2) = ?x + 1 / 2" "\<bar>?x + 1 / 2\<bar> < huge F32"
    by (simp_all add: bound_ok_def on_grid_def)
  have p: "(0::rat) \<le> of_int k" "of_int k \<le> (16::rat)" using assms by simp_all
  have a: "fadd F32 (Num ?x) (Num (1 / 2)) = Num (?x + 1 / 2)"
    using f p by (auto simp: fadd_def pack_def Let_def abs_less_iff)
  have e: "15 < ?x + 1 / 2 \<longleftrightarrow> k = 16"
  proof -
    have "15 < ?x + 1 / 2 \<longleftrightarrow> (of_int 15 :: rat) < of_int k" unfolding of_int_numeral by linarith
    also have "\<dots> \<longleftrightarrow> 15 < k" by (simp only: of_int_less_iff)
    finally show ?thesis using assms(2) by auto
  qed
  have "bac_next bac_saw (Num ?x) = (if 15 < ?x + 1 / 2 then Num 7 else Num (?x + 1 / 2))"
    by (simp only: bac_next_def bac_saw_def saw_strategy.simps a flt_finite is_finite_simps fval.simps)
  then show ?thesis unfolding e by (simp add: add_divide_distrib)
qed

lemma bac_wave: "(bac_next bac_saw ^^ n) (Num 7) = Num (7 + of_nat (n mod 17) / 2)"
proof (induction n)
  case 0 then show ?case by simp
next
  case (Suc n)
  have "bac_next bac_saw (Num (7 + of_int (int (n mod 17)) / 2))
      = Num (if int (n mod 17) = 16 then 7 else 7 + of_int (int (n mod 17) + 1) / 2)"
  proof (rule bac_next_half)
    show "int (n mod 17) \<le> 16" using mod_less_divisor [of 17 n] by linarith
  qed simp
  also have "\<dots> = Num (7 + of_nat (Suc n mod 17) / 2)" by (auto simp: mod_Suc)
  finally show ?case using Suc by simp
qed

text \<open>So a tick moves the whole map one step along the wave.\<close>

lemma bac_tick_wave:
  "bac_tick bac_strategies [1 \<mapsto> Num (7 + of_nat (n mod 17) / 2)] = [1 \<mapsto> Num (7 + of_nat (Suc n mod 17) / 2)]"
proof -
  have "bac_next bac_saw (Num (7 + of_nat (n mod 17) / 2)) = Num (7 + of_nat (Suc n mod 17) / 2)"
    using bac_wave [of "Suc n"] by (simp only: funpow.simps o_apply bac_wave)
  then show ?thesis by (simp add: bac_tick_def bac_strategies_eq bac_tick_one_def Let_def)
qed

lemma bac_run_frame: "bac_run lib ss (BacFrame f # evs) w = Some v \<Longrightarrow> bac_run lib ss evs w = Some v"
  by (auto simp: bac_step_def split: option.splits sum.splits)

lemma bac_run_values:
  "bac_run lib bac_strategies evs [1 \<mapsto> Num (7 + of_nat (n mod 17) / 2)] = Some v \<Longrightarrow>
   v = [1 \<mapsto> Num (7 + of_nat ((n + count_list evs BacTick) mod 17) / 2)]"
proof (induction evs arbitrary: n)
  case (Cons ev evs)
  show ?case
  proof (cases ev)
    case BacTick
    then have "bac_run lib bac_strategies evs [1 \<mapsto> Num (7 + of_nat (Suc n mod 17) / 2)] = Some v"
      using Cons.prems by (simp only: bac_run.simps bac_step_def bac_event.case bind.bind_lunit bac_tick_wave prod.case)
    from Cons.IH [OF this] show ?thesis using BacTick by simp
  next
    case (BacFrame f)
    have "bac_run lib bac_strategies evs [1 \<mapsto> Num (7 + of_nat (n mod 17) / 2)] = Some v"
      using Cons.prems unfolding BacFrame by (rule bac_run_frame)
    from Cons.IH [OF this] show ?thesis using BacFrame by simp
  qed
qed simp

lemma bac_main_values:
  "bac_main lib evs = Some v \<Longrightarrow> v = [1 \<mapsto> Num (7 + of_nat (count_list evs BacTick mod 17) / 2)]"
  using bac_run_values [of lib evs 0 v] by (simp add: bac_main_def bac_seed_def bac_strategies_eq bac_saw_def)

lemma bac_tick_lookup:
  assumes "distinct (map fst ss)"
  shows "bac_tick ss v k = (case map_of ss k of None \<Rightarrow> v k
    | Some s \<Rightarrow> Some (bac_next s (case v k of None \<Rightarrow> strat_min s | Some x \<Rightarrow> x)))"
  using assms unfolding bac_tick_def
proof (induction ss arbitrary: v)
  case (Cons a ss)
  then show ?case
    by (cases "k = fst a")
      (auto simp: bac_tick_one_def Let_def split: option.splits dest: map_of_SomeD intro: rev_image_eqI)
qed simp

lemma wrap_bvlc_bytes:
  "wrap_bvlc lib a f = [0x81, f, ucast (drop_bit 8 (of_nat (4 + length (npdu_encode lib @ a)) :: u16)),
     ucast ((of_nat (4 + length (npdu_encode lib @ a)) :: u16) AND 0xFF)] @ npdu_encode lib @ a"
  by (simp add: wrap_bvlc_def Let_def numeral_2_eq_2 numeral_3_eq_3)

end
