(* ===== verification/BacnetProps.thy ===== *)
theory BacnetProps
  imports Bacnet
begin

text \<open>
  What mock-bacnet-device does: the wave its analog input runs through, what a reply frame
  looks like, and what a client gets for its requests.
\<close>

subsection \<open>The wave\<close>

text \<open>C38: Whatever value the present value of a sawtooth object is overwritten with inside
  its band, the object stays inside the band and is back at its lower end within
  33 ticks: rounding to single precision never stalls the ramp.\<close>

theorem supply_temperature_recovers:
  assumes "7 \<le> x" "x \<le> 15"
  shows "7 \<le> ((\<lambda>t. fval (bac_next bac_saw (Num t))) ^^ n) x \<and> ((\<lambda>t. fval (bac_next bac_saw (Num t))) ^^ n) x \<le> 15
    \<and> (\<exists>k. 0 < k \<and> k \<le> 33 \<and> ((\<lambda>t. fval (bac_next bac_saw (Num t))) ^^ k) x = 7)"
proof -
  from bac.returns_to_lo [OF assms] obtain k where
    k: "0 < k" "k \<le> Suc (nat \<lfloor>4 * (15 - x)\<rfloor>)" "((\<lambda>t. fval (bac_next bac_saw (Num t))) ^^ k) x = 7" by blast
  have "\<lfloor>4 * (15 - x)\<rfloor> \<le> 32" using assms(1) by (intro floor_le_iff [THEN iffD2]) simp
  then have "nat \<lfloor>4 * (15 - x)\<rfloor> \<le> 32" by (simp only: nat_le_iff)
  with k(2) have "k \<le> 33" by linarith
  with k bac.iterate_in_band [OF assms, of n] show ?thesis by blast
qed

theorem supply_temperature_recovers_witness:
  "\<exists>k. 0 < k \<and> k \<le> 33 \<and> ((\<lambda>t. fval (bac_next bac_saw (Num t))) ^^ k) (148 / 10) = 7"
  using supply_temperature_recovers [of "148 / 10"] by simp

subsection \<open>Reply frames\<close>

text \<open>What the reader of a frame takes its length from.\<close>

definition bvlc_length :: "bytes \<Rightarrow> nat" where
  "bvlc_length f = 256 * unat (f ! 2) + unat (f ! 3)"

lemma split_u16: "256 * unat (ucast (drop_bit 8 (w :: u16)) :: u8) + unat (ucast (w AND 0xFF) :: u8) = unat w"
proof -
  have "unat (ucast (drop_bit 8 w) :: u8) = unat w div 256"
  proof -
    have l: "unat w div 256 < 256" using unsigned_less [of w, where ?'a = nat] by simp
    have "unat (drop_bit 8 w) = unat w div 256" unfolding unat_drop_bit_eq by (simp add: drop_bit_eq_div)
    then show ?thesis using l by (simp add: unsigned_ucast_eq take_bit_eq_mod)
  qed
  moreover have "unat (ucast (w AND 0xFF) :: u8) = unat w mod 256"
  proof -
    have "w AND 0xFF = take_bit 8 w" using take_bit_eq_mask [of 8 w] by (simp add: mask_eq_exp_minus_1)
    then have "unat (w AND 0xFF) = unat w mod 256" by (simp only: unsigned_take_bit_eq) (simp add: take_bit_eq_mod)
    then show ?thesis by (simp add: unsigned_ucast_eq take_bit_eq_mod)
  qed
  ultimately show ?thesis by simp
qed

lemma wrap_bvlc_frame:
  "\<exists>h l. wrap_bvlc lib a f = [0x81, f, h, l] @ npdu_encode lib @ a
    \<and> bvlc_length (wrap_bvlc lib a f) = (4 + length (npdu_encode lib) + length a) mod 2 ^ 16"
proof -
  have "wrap_bvlc lib a f ! 2 = ucast (drop_bit 8 (of_nat (4 + length (npdu_encode lib @ a)) :: u16))"
    "wrap_bvlc lib a f ! 3 = ucast ((of_nat (4 + length (npdu_encode lib @ a)) :: u16) AND 0xFF)"
    unfolding wrap_bvlc_bytes by (simp_all only: append_Cons numeral_2_eq_2 numeral_3_eq_3 nth_Cons_Suc nth_Cons_0)
  then have "bvlc_length (wrap_bvlc lib a f) = unat (of_nat (4 + length (npdu_encode lib @ a)) :: u16)"
    by (simp only: bvlc_length_def split_u16)
  also have "\<dots> = (4 + length (npdu_encode lib) + length a) mod 2 ^ 16"
    by (simp only: unsigned_of_nat take_bit_eq_mod length_append add.assoc) simp
  finally show ?thesis unfolding wrap_bvlc_bytes by blast
qed

definition ip_frame :: "bytes \<Rightarrow> bool" where
  "ip_frame f \<longleftrightarrow> 4 \<le> length f \<and> f ! 0 = 0x81 \<and> (f ! 1 = 0x0A \<or> f ! 1 = 0x0B)"

text \<open>The service a frame carries.\<close>

definition carries :: "bac_lib \<Rightarrow> bytes \<Rightarrow> apdu \<Rightarrow> bool" where
  "carries lib f a \<longleftrightarrow> (\<exists>k. npdu_decode lib (drop 4 f) = Some k \<and> 4 + k \<le> length f
     \<and> apdu_decode lib (drop (4 + k) f) = Some a)"

text \<open>The answer a request deserves: the present value of the analog input it names, or
  the device's identity.\<close>

definition deserves :: "bac_lib \<Rightarrow> present_values \<Rightarrow> apdu \<Rightarrow> u8 \<times> apdu \<Rightarrow> bool" where
  "deserves lib v a r \<longleftrightarrow>
     (\<exists>svc m data. a = WhoIsApdu svc \<and> who_is_decode lib svc = Some m \<and> m DEFAULT_DEVICE_INSTANCE
        \<and> iam_encode lib DEFAULT_DEVICE_INSTANCE 1476 260 = Some data \<and> r = (0x0B, IAmApdu data))
   \<or> (\<exists>i svc q x data. a = ReadPropertyApdu i svc \<and> rp_decode lib svc = Some q
        \<and> rp_type q = AnalogInput \<and> rp_property q = PresentValue \<and> v (rp_instance q) = Some x
        \<and> rp_ack_encode lib q x = Some data \<and> r = (0x0A, ReadPropertyAck i data))"

lemma dispatch_reply_iff:
  "bac_dispatch lib v a = Inr (Some r) \<longleftrightarrow>
   (\<exists>f s. deserves lib v a (f, s) \<and> r = wrap_bvlc lib (apdu_encode lib s) f)"
  by (cases a)
    (auto simp: bac_dispatch_def deserves_def iam_frame_def answer_read_property_def
      split: option.splits if_splits)

lemma handle_reply_iff:
  "bac_handle lib f v = Some (Inr (Some r)) \<longleftrightarrow>
   ip_frame f \<and> (\<exists>a. carries lib f a \<and> bac_dispatch lib v a = Inr (Some r))"
  by (auto simp: bac_handle_def ip_frame_def carries_def not_less split: option.splits if_splits)

text \<open>C19: The responder sends a frame exactly when a BACnet/IP unicast or broadcast frame
  carries a Who-Is that matches the device or a ReadProperty of the present value of a
  tracked analog input; the frame is the device's I-Am, broadcast, or the value, unicast,
  behind a header whose length field is the length of the frame.  It never panics when
  the NPDU decoder stays inside its input.\<close>

theorem bacnet_replies_exactly_when_deserved:
  assumes "\<And>bs k. npdu_decode lib bs = Some k \<Longrightarrow> k \<le> length bs"
  shows "bac_handle lib f v \<noteq> None
    \<and> (bac_handle lib f v = Some (Inr (Some r)) \<longleftrightarrow> ip_frame f
        \<and> (\<exists>a fn s. carries lib f a \<and> deserves lib v a (fn, s) \<and> r = wrap_bvlc lib (apdu_encode lib s) fn))
    \<and> (bac_handle lib f v = Some (Inr (Some r)) \<longrightarrow>
        r ! 0 = 0x81 \<and> (length r < 2 ^ 16 \<longrightarrow> bvlc_length r = length r))"
proof -
  have "bac_handle lib f v \<noteq> None"
    using assms [of "drop 4 f"] by (fastforce simp: bac_handle_def split: option.split)
  moreover have "r ! 0 = 0x81 \<and> (length r < 2 ^ 16 \<longrightarrow> bvlc_length r = length r)"
    if r: "r = wrap_bvlc lib a fn" for a fn
  proof -
    obtain h l where "r = [0x81, fn, h, l] @ npdu_encode lib @ a"
      "bvlc_length r = (4 + length (npdu_encode lib) + length a) mod 2 ^ 16"
      unfolding r using wrap_bvlc_frame [of lib a fn] by blast
    then show ?thesis by simp
  qed
  ultimately show ?thesis unfolding handle_reply_iff dispatch_reply_iff by blast
qed

subsection \<open>What the client gets\<close>

text \<open>Bacnet-rs decodes what it has encoded.\<close>

definition bac_laws :: "bac_lib \<Rightarrow> bool" where
  "bac_laws lib \<longleftrightarrow> (\<forall>rest. npdu_decode lib (npdu_encode lib @ rest) = Some (length (npdu_encode lib)))
     \<and> (\<forall>svc. apdu_decode lib (apdu_encode lib (IAmApdu svc)) = Some (IAmApdu svc))
     \<and> (\<forall>i svc. apdu_decode lib (apdu_encode lib (ReadPropertyAck i svc)) = Some (ReadPropertyAck i svc))"

lemma carries_wrap:
  assumes "npdu_decode lib (npdu_encode lib @ apdu_encode lib a) = Some (length (npdu_encode lib))"
    and "apdu_decode lib (apdu_encode lib a) = Some a"
  shows "carries lib (wrap_bvlc lib (apdu_encode lib a) fn) a"
proof -
  obtain h l where w: "wrap_bvlc lib (apdu_encode lib a) fn = [0x81, fn, h, l] @ npdu_encode lib @ apdu_encode lib a"
    using wrap_bvlc_frame by blast
  have d: "drop (4 + k) ([0x81, fn, h, l] @ xs) = drop k xs" for k and xs :: bytes
    by (simp add: numeral_eq_Suc)
  show ?thesis unfolding w carries_def d using assms by simp
qed

text \<open>C25: After any mix of ticks and datagrams, a client that reads the present value of analog
  input 1 gets one BACnet/IP frame back that decodes to the acknowledgement of its own
  invocation with the point of the wave that the number of ticks selects: 7 degrees plus
  half a degree per tick, over a period of 17 ticks.\<close>

theorem read_property_returns_the_wave:
  assumes "bac_main lib evs = Some v" "n = count_list evs BacTick"
    and "bac_laws lib" "ip_frame f" "length f \<le> 1500" "carries lib f (ReadPropertyApdu i svc)"
    and "rp_decode lib svc = Some q" "rp_type q = AnalogInput" "rp_property q = PresentValue" "rp_instance q = 1"
    and "rp_ack_encode lib q (Num (7 + of_nat (n mod 17) / 2)) = Some data"
  shows "\<exists>r. bac_step lib bac_strategies (BacFrame f) v = Some (v, Some r)
    \<and> ip_frame r \<and> carries lib r (ReadPropertyAck i data)"
proof -
  let ?v = "[1 \<mapsto> Num (7 + of_nat (n mod 17) / 2)] :: present_values"
  let ?r = "wrap_bvlc lib (apdu_encode lib (ReadPropertyAck i data)) 0x0A"
  have "deserves lib ?v (ReadPropertyApdu i svc) (0x0A, ReadPropertyAck i data)"
    using assms(7-11) by (simp add: deserves_def)
  then have "bac_handle lib f ?v = Some (Inr (Some ?r))"
    unfolding handle_reply_iff dispatch_reply_iff using assms(4,6) by blast
  then have "bac_step lib bac_strategies (BacFrame f) ?v = Some (?v, Some ?r)"
    using assms(5) by (simp add: bac_step_def)
  moreover have "v = ?v" using bac_main_values [OF assms(1)] assms(2) by simp
  moreover have "ip_frame ?r" by (simp add: ip_frame_def wrap_bvlc_bytes)
  moreover have "carries lib ?r (ReadPropertyAck i data)"
    using assms(3) by (auto simp: bac_laws_def intro: carries_wrap)
  ultimately show ?thesis by blast
qed

text \<open>A codec for the witnesses: a tag byte in front of the service.\<close>

definition toy_bacnet :: bac_lib where
  "toy_bacnet = \<lparr>npdu_decode = (\<lambda>bs. if length bs < 2 then None else Some 2), npdu_encode = [1, 0],
     apdu_decode = (\<lambda>bs. case bs of [] \<Rightarrow> None
       | t # r \<Rightarrow> if t = 0 then Some (WhoIsApdu r) else if t = 1 then Some (IAmApdu r)
          else (case r of [] \<Rightarrow> None | i # svc \<Rightarrow>
            if t = 2 then Some (ReadPropertyApdu i svc) else if t = 3 then Some (ReadPropertyAck i svc)
            else Some (OtherApdu svc))),
     apdu_encode = (\<lambda>a. case a of WhoIsApdu s \<Rightarrow> 0 # s | IAmApdu s \<Rightarrow> 1 # s | ReadPropertyApdu i s \<Rightarrow> 2 # i # s
       | ReadPropertyAck i s \<Rightarrow> 3 # i # s | OtherApdu s \<Rightarrow> 4 # 0 # s),
     who_is_decode = (\<lambda>bs. Some (\<lambda>i. True)), iam_encode = (\<lambda>i a b. Some [7]),
     rp_decode = (\<lambda>bs. case bs of [j] \<Rightarrow> Some \<lparr>rp_type = AnalogInput, rp_instance = ucast j, rp_property = PresentValue\<rparr>
       | _ \<Rightarrow> None),
     rp_ack_encode = (\<lambda>q x. Some [of_int \<lfloor>2 * fval x\<rfloor>])\<rparr>"

theorem bacnet_replies_exactly_when_deserved_witness:
  "bac_handle toy_bacnet [0x81, 0x0B, 0, 7, 1, 0, 0] Map.empty = Some (Inr (Some [0x81, 0x0B, 0, 8, 1, 0, 1, 7]))"
proof -
  let ?f = "[0x81, 0x0B, 0, 7, 1, 0, 0] :: bytes" and ?r = "[0x81, 0x0B, 0, 8, 1, 0, 1, 7] :: bytes"
  have "carries toy_bacnet ?f (WhoIsApdu [])" by (simp add: carries_def toy_bacnet_def)
  moreover have "deserves toy_bacnet Map.empty (WhoIsApdu []) (0x0B, IAmApdu [7])"
    by (simp add: deserves_def toy_bacnet_def)
  moreover have "?r = wrap_bvlc toy_bacnet (apdu_encode toy_bacnet (IAmApdu [7])) 0x0B"
    by (simp add: wrap_bvlc_bytes toy_bacnet_def)
  moreover have "ip_frame ?f" by (simp add: ip_frame_def)
  moreover have "k \<le> length bs" if "npdu_decode toy_bacnet bs = Some k" for bs k
    using that by (auto simp: toy_bacnet_def split: if_splits)
  then have "bac_handle toy_bacnet ?f Map.empty = Some (Inr (Some ?r)) \<longleftrightarrow> ip_frame ?f
    \<and> (\<exists>a fn s. carries toy_bacnet ?f a \<and> deserves toy_bacnet Map.empty a (fn, s)
        \<and> ?r = wrap_bvlc toy_bacnet (apdu_encode toy_bacnet s) fn)"
    by (intro bacnet_replies_exactly_when_deserved [THEN conjunct2, THEN conjunct1])
  ultimately show ?thesis by blast
qed

theorem read_property_returns_the_wave_witness:
  "\<exists>v r. bac_main toy_bacnet [BacTick, BacFrame [0x81], BacTick] = Some v
     \<and> bac_step toy_bacnet bac_strategies (BacFrame [0x81, 0x0A, 0, 9, 1, 0, 2, 5, 1]) v = Some (v, Some r)
     \<and> carries toy_bacnet r (ReadPropertyAck 5 [16])"
proof -
  let ?f = "[0x81, 0x0A, 0, 9, 1, 0, 2, 5, 1] :: bytes"
  let ?q = "\<lparr>rp_type = AnalogInput, rp_instance = 1, rp_property = PresentValue\<rparr>"
  obtain v where v: "bac_main toy_bacnet [BacTick, BacFrame [0x81], BacTick] = Some v"
    by (simp add: bac_main_def bac_step_def bac_handle_def)
  have "bac_laws toy_bacnet" by (simp add: bac_laws_def toy_bacnet_def)
  moreover have "ip_frame ?f" "length ?f \<le> 1500" by (simp_all add: ip_frame_def)
  moreover have "carries toy_bacnet ?f (ReadPropertyApdu 5 [1])"
    by (simp add: carries_def toy_bacnet_def)
  moreover have "rp_decode toy_bacnet [1] = Some ?q" "rp_ack_encode toy_bacnet ?q (Num (7 + of_nat (2 mod 17) / 2)) = Some [16]"
    by (simp_all add: toy_bacnet_def)
  ultimately have "\<exists>r. bac_step toy_bacnet bac_strategies (BacFrame ?f) v = Some (v, Some r)
    \<and> ip_frame r \<and> carries toy_bacnet r (ReadPropertyAck 5 [16])"
    by (intro read_property_returns_the_wave [OF v, of 2]) simp_all
  then show ?thesis using v by blast
qed

end
