(* ===== verification/Dnp3.thy ===== *)
theory Dnp3
  imports RustStd
begin

text \<open>
  mock-dnp3-outstation: the SEL-351 point table (\<open>sel351.rs\<close>), the control surface
  (\<open>control.rs\<close>), the rejecting control handler and the configuration (\<open>outstation.rs\<close>),
  the settings (\<open>main.rs\<close>).  The point database belongs to the dnp3 crate and is a
  parameter with its documented laws.
\<close>

subsection \<open>The database (dnp3)\<close>

datatype event_class = Class1 | Class2 | Class3
datatype static_analog = Group30Var1 | Group30Var2 | Group30Var3 | Group30Var4 | Group30Var5 | Group30Var6
datatype event_analog = Group32Var1 | Group32Var2 | Group32Var3 | Group32Var4 | Group32Var5 | Group32Var6
  | Group32Var7 | Group32Var8
datatype static_binary = Group1Var1 | Group1Var2
datatype event_binary = Group2Var1 | Group2Var2 | Group2Var3

record analog_config =
  analog_s_var :: static_analog
  analog_e_var :: event_analog
  deadband :: fp

record binary_config =
  binary_s_var :: static_binary
  binary_e_var :: event_binary

datatype flags = ONLINE | OtherFlags u8
datatype time_stamp = Synchronized u64 | Unsynchronized u64
datatype update_options = DetectEvent | DefaultOptions

record 'v sample =
  sample_value :: 'v
  sample_flags :: flags
  sample_time :: time_stamp

type_synonym analogs = "u16 \<rightharpoonup> event_class option \<times> analog_config \<times> fp sample"
type_synonym binaries = "u16 \<rightharpoonup> event_class option \<times> binary_config \<times> bool sample"

text \<open>\<open>add\<close> and \<open>update\<close> return whether they did anything; the views are the current points.\<close>

record 'db db_lib =
  add_analog :: "u16 \<Rightarrow> event_class option \<Rightarrow> analog_config \<Rightarrow> 'db \<Rightarrow> bool \<times> 'db"
  update_analog :: "u16 \<Rightarrow> fp sample \<Rightarrow> update_options \<Rightarrow> 'db \<Rightarrow> bool \<times> 'db"
  add_binary :: "u16 \<Rightarrow> event_class option \<Rightarrow> binary_config \<Rightarrow> 'db \<Rightarrow> bool \<times> 'db"
  update_binary :: "u16 \<Rightarrow> bool sample \<Rightarrow> update_options \<Rightarrow> 'db \<Rightarrow> bool \<times> 'db"
  analogs_of :: "'db \<Rightarrow> analogs"
  binaries_of :: "'db \<Rightarrow> binaries"

text \<open>A point of one kind is created once, with some initial sample, and updated only when it exists.\<close>

definition added :: "(u16 \<rightharpoonup> 'e \<times> 'c \<times> 's) \<Rightarrow> u16 \<Rightarrow> 'e \<Rightarrow> 'c \<Rightarrow> bool \<Rightarrow> (u16 \<rightharpoonup> 'e \<times> 'c \<times> 's) \<Rightarrow> bool" where
  "added m i e c r m' \<longleftrightarrow> r = (m i = None) \<and>
     (if m i = None then \<exists>s. m' = m(i \<mapsto> (e, c, s)) else m' = m)"

definition updated :: "(u16 \<rightharpoonup> 'e \<times> 'c \<times> 's) \<Rightarrow> u16 \<Rightarrow> 's \<Rightarrow> bool \<Rightarrow> (u16 \<rightharpoonup> 'e \<times> 'c \<times> 's) \<Rightarrow> bool" where
  "updated m i s r m' \<longleftrightarrow> r = (m i \<noteq> None) \<and>
     m' = (case m i of None \<Rightarrow> m | Some (e, c, _) \<Rightarrow> m(i \<mapsto> (e, c, s)))"

definition db_laws :: "'db db_lib \<Rightarrow> bool" where
  "db_laws lib \<longleftrightarrow> (\<forall>i e c db.
       added (analogs_of lib db) i e c (fst (add_analog lib i e c db)) (analogs_of lib (snd (add_analog lib i e c db)))
     \<and> binaries_of lib (snd (add_analog lib i e c db)) = binaries_of lib db)
   \<and> (\<forall>i s u db.
       updated (analogs_of lib db) i s (fst (update_analog lib i s u db)) (analogs_of lib (snd (update_analog lib i s u db)))
     \<and> binaries_of lib (snd (update_analog lib i s u db)) = binaries_of lib db)
   \<and> (\<forall>i e c db.
       added (binaries_of lib db) i e c (fst (add_binary lib i e c db)) (binaries_of lib (snd (add_binary lib i e c db)))
     \<and> analogs_of lib (snd (add_binary lib i e c db)) = analogs_of lib db)
   \<and> (\<forall>i s u db.
       updated (binaries_of lib db) i s (fst (update_binary lib i s u db)) (binaries_of lib (snd (update_binary lib i s u db)))
     \<and> analogs_of lib (snd (update_binary lib i s u db)) = analogs_of lib db)"

subsection \<open>The SEL-351 points (sel351.rs)\<close>

definition ANALOGS :: "(u16 \<times> fp) list" where
  "ANALOGS = [(0, f64_lit (85 / 10)), (2, f64_lit (87 / 10)), (4, f64_lit (84 / 10)),
     (8, f64_lit (797 / 100)), (10, f64_lit (795 / 100)), (12, f64_lit (799 / 100))]"

definition BINARIES :: "(u16 \<times> bool) list" where
  "BINARIES = [(0, True), (9, False), (15, False), (24, True), (25, True)]"

definition sel351_analog :: analog_config where
  "sel351_analog = \<lparr>analog_s_var = Group30Var5, analog_e_var = Group32Var5, deadband = f64_lit 0\<rparr>"

definition sel351_binary :: binary_config where
  "sel351_binary = \<lparr>binary_s_var = Group1Var2, binary_e_var = Group2Var1\<rparr>"

definition seed_analog :: "'db db_lib \<Rightarrow> u16 \<times> fp \<Rightarrow> 'db \<Rightarrow> 'db" where
  "seed_analog lib iv db =
     snd (update_analog lib (fst iv) \<lparr>sample_value = snd iv, sample_flags = ONLINE, sample_time = Synchronized 0\<rparr>
       DefaultOptions (snd (add_analog lib (fst iv) (Some Class1) sel351_analog db)))"

definition seed_binary :: "'db db_lib \<Rightarrow> u16 \<times> bool \<Rightarrow> 'db \<Rightarrow> 'db" where
  "seed_binary lib iv db =
     snd (update_binary lib (fst iv) \<lparr>sample_value = snd iv, sample_flags = ONLINE, sample_time = Synchronized 0\<rparr>
       DefaultOptions (snd (add_binary lib (fst iv) (Some Class1) sel351_binary db)))"

definition dnp3_seed :: "'db db_lib \<Rightarrow> 'db \<Rightarrow> 'db" where
  "dnp3_seed lib db = fold (seed_binary lib) BINARIES (fold (seed_analog lib) ANALOGS db)"

subsection \<open>The control surface (control.rs)\<close>

text \<open>The system clock in milliseconds since the Unix epoch; earlier than that panics.\<close>

definition current_time :: "int \<Rightarrow> time_stamp option" where
  "current_time ms = (if ms < 0 then None else Some (Synchronized (of_int ms)))"

definition on_demand_analog :: analog_config where
  "on_demand_analog = \<lparr>analog_s_var = Group30Var1, analog_e_var = Group32Var1, deadband = f64_lit 0\<rparr>"

definition put_point :: "'db db_lib \<Rightarrow> u16 \<Rightarrow> fp sample \<Rightarrow> 'db \<Rightarrow> 'db" where
  "put_point lib i s db =
     (case update_analog lib i s DetectEvent db of (ok, db1) \<Rightarrow>
        if ok then db1
        else snd (update_analog lib i s DetectEvent (snd (add_analog lib i (Some Class1) on_demand_analog db1))))"

text \<open>The entries in the order the map is visited, each with the clock read for it.\<close>

type_synonym points_body = "((u16 \<times> fp) \<times> int) list"

fun put_points :: "'db db_lib \<Rightarrow> points_body \<Rightarrow> 'db \<Rightarrow> (http_status \<times> 'db) option" where
  "put_points lib [] db = Some (NO_CONTENT, db)"
| "put_points lib (((i, v), ms) # rest) db =
     (case current_time ms of
        None \<Rightarrow> None
      | Some t \<Rightarrow> put_points lib rest
          (put_point lib i \<lparr>sample_value = v, sample_flags = ONLINE, sample_time = t\<rparr> db))"

subsection \<open>Commands and configuration (outstation.rs)\<close>

datatype command = Group12Var1 | Group41Var1 | Group41Var2 | Group41Var3 | Group41Var4
datatype command_status = Success | NotSupported | OtherStatus u8

definition ctl_select :: "command \<Rightarrow> u16 \<Rightarrow> 'db \<Rightarrow> command_status \<times> 'db" where
  "ctl_select c i db = (NotSupported, db)"

definition ctl_operate :: "command \<Rightarrow> u16 \<Rightarrow> nat \<Rightarrow> 'db \<Rightarrow> command_status \<times> 'db" where
  "ctl_operate c i op_type db = (NotSupported, db)"

record outstation_link =
  outstation_addr :: u16
  master_addr :: u16
  event_buffers :: "nat list"

text \<open>\<open>try_new\<close> is the crate's check of a link address.\<close>

definition outstation_config :: "(u16 \<Rightarrow> u16 option) \<Rightarrow> outstation_link option" where
  "outstation_config try_new =
     (case try_new 1024 of None \<Rightarrow> None | Some oa \<Rightarrow> (case try_new 1 of None \<Rightarrow> None | Some ma \<Rightarrow>
        Some \<lparr>outstation_addr = oa, master_addr = ma, event_buffers = [0, 0, 0, 0, 0, 5, 0, 0]\<rparr>))"

subsection \<open>The process (main.rs)\<close>

definition DNP3_TLS_PORT :: nat where "DNP3_TLS_PORT = 19999"
definition DNP3_TCP_PORT :: nat where "DNP3_TCP_PORT = 20000"
definition DNP3_CONTROL_PORT :: nat where "DNP3_CONTROL_PORT = 8080"

record dnp3_settings =
  dnp3_tls :: bool
  dnp3_port :: nat
  dnp3_control_port :: nat

definition dnp3_settings_from_env :: "env \<Rightarrow> dnp3_settings" where
  "dnp3_settings_from_env env =
     (let tls = (env ''DNP3_TLS'' = Some ''1'') in
      \<lparr>dnp3_tls = tls,
       dnp3_port = env_uint env 16 ''PORT'' (if tls then DNP3_TLS_PORT else DNP3_TCP_PORT),
       dnp3_control_port = env_uint env 16 ''CONTROL_PORT'' DNP3_CONTROL_PORT\<rparr>)"

definition dnp3_tls_paths :: "env \<Rightarrow> startup_error + string list" where
  "dnp3_tls_paths env = require_env_paths env [''DNP3_TLS_CA'', ''DNP3_TLS_CERT'', ''DNP3_TLS_KEY'']"

text \<open>Start-up up to the sockets and the certificates, from the database the crate creates.\<close>

definition dnp3_main :: "'db db_lib \<Rightarrow> env \<Rightarrow> 'db \<Rightarrow> startup_error + dnp3_settings \<times> 'db" where
  "dnp3_main lib env db =
     (let cfg = dnp3_settings_from_env env in
      if dnp3_tls cfg then
        (case dnp3_tls_paths env of Inl e \<Rightarrow> Inl e | Inr _ \<Rightarrow> Inr (cfg, dnp3_seed lib db))
      else Inr (cfg, dnp3_seed lib db))"

datatype dnp3_event = PutPoints points_body | Select command u16 | Operate command u16 nat

definition dnp3_step :: "'db db_lib \<Rightarrow> dnp3_event \<Rightarrow> 'db \<Rightarrow> 'db option" where
  "dnp3_step lib ev db =
     (case ev of
        PutPoints body \<Rightarrow> map_option snd (put_points lib body db)
      | Select c i \<Rightarrow> Some (snd (ctl_select c i db))
      | Operate c i op \<Rightarrow> Some (snd (ctl_operate c i op db)))"

primrec dnp3_run :: "'db db_lib \<Rightarrow> dnp3_event list \<Rightarrow> 'db \<Rightarrow> 'db option" where
  "dnp3_run lib [] db = Some db"
| "dnp3_run lib (ev # evs) db = Option.bind (dnp3_step lib ev db) (dnp3_run lib evs)"

subsection \<open>Points after each operation\<close>

lemma db_lawsD:
  assumes "db_laws lib"
  shows "added (analogs_of lib db) i e c (fst (add_analog lib i e c db)) (analogs_of lib (snd (add_analog lib i e c db)))"
    and "binaries_of lib (snd (add_analog lib i e c db)) = binaries_of lib db"
    and "updated (analogs_of lib db) i s (fst (update_analog lib i s u db)) (analogs_of lib (snd (update_analog lib i s u db)))"
    and "binaries_of lib (snd (update_analog lib i s u db)) = binaries_of lib db"
    and "added (binaries_of lib db) i e b (fst (add_binary lib i e b db)) (binaries_of lib (snd (add_binary lib i e b db)))"
    and "analogs_of lib (snd (add_binary lib i e b db)) = analogs_of lib db"
    and "updated (binaries_of lib db) i x (fst (update_binary lib i x u db)) (binaries_of lib (snd (update_binary lib i x u db)))"
    and "analogs_of lib (snd (update_binary lib i x u db)) = analogs_of lib db"
  using assms unfolding db_laws_def by blast+

text \<open>Adding a missing point and updating it is one map update; on an existing point only the sample moves.\<close>

definition stored :: "(u16 \<rightharpoonup> 'e \<times> 'c \<times> 's) \<Rightarrow> u16 \<Rightarrow> 'e \<Rightarrow> 'c \<Rightarrow> 's \<Rightarrow> (u16 \<rightharpoonup> 'e \<times> 'c \<times> 's)" where
  "stored m i e c s = m(i \<mapsto> (case m i of None \<Rightarrow> (e, c, s) | Some (e', c', _) \<Rightarrow> (e', c', s)))"

lemma add_update_stored:
  assumes "added m i e c r m1" "updated m1 i s r' m2"
  shows "m2 = stored m i e c s"
proof (cases "m i")
  case None
  then obtain s0 where "m1 = m(i \<mapsto> (e, c, s0))" using assms(1) by (auto simp: added_def)
  then show ?thesis using assms(2) None by (simp add: updated_def stored_def)
next
  case (Some p)
  then have "m1 = m" using assms(1) by (simp add: added_def)
  then show ?thesis using assms(2) Some by (simp add: updated_def stored_def split: prod.splits)
qed

lemma put_point_points:
  assumes "db_laws lib"
  shows "analogs_of lib (put_point lib i s db) = stored (analogs_of lib db) i (Some Class1) on_demand_analog s"
    and "binaries_of lib (put_point lib i s db) = binaries_of lib db"
proof -
  note l = db_lawsD [OF assms]
  obtain ok db1 where u: "update_analog lib i s DetectEvent db = (ok, db1)" by fastforce
  have 1: "updated (analogs_of lib db) i s ok (analogs_of lib db1)" "binaries_of lib db1 = binaries_of lib db"
    using l(3) [of db i s DetectEvent] l(4) [of i s DetectEvent db] by (simp_all add: u)
  show "binaries_of lib (put_point lib i s db) = binaries_of lib db"
    using 1(2) l(2,4) by (simp add: put_point_def u)
  show "analogs_of lib (put_point lib i s db) = stored (analogs_of lib db) i (Some Class1) on_demand_analog s"
  proof (cases "analogs_of lib db i")
    case None
    then have "\<not> ok" "analogs_of lib db1 = analogs_of lib db" using 1(1) by (simp_all add: updated_def)
    then show ?thesis
      using add_update_stored [OF l(1) [of db1 i "Some Class1" on_demand_analog] l(3)]
      by (simp add: put_point_def u)
  next
    case (Some p)
    then show ?thesis using 1(1)
      by (simp add: put_point_def u updated_def stored_def split: prod.splits)
  qed
qed

lemma seed_analog_points:
  assumes "db_laws lib"
  shows "analogs_of lib (seed_analog lib iv db) = stored (analogs_of lib db) (fst iv) (Some Class1) sel351_analog
      \<lparr>sample_value = snd iv, sample_flags = ONLINE, sample_time = Synchronized 0\<rparr>"
    and "binaries_of lib (seed_analog lib iv db) = binaries_of lib db"
proof -
  note l = db_lawsD [OF assms]
  note d = seed_analog_def
  show "analogs_of lib (seed_analog lib iv db) = stored (analogs_of lib db) (fst iv) (Some Class1) sel351_analog
      \<lparr>sample_value = snd iv, sample_flags = ONLINE, sample_time = Synchronized 0\<rparr>"
    unfolding d by (rule add_update_stored [OF l(1) l(3)])
  show "binaries_of lib (seed_analog lib iv db) = binaries_of lib db" unfolding d l(2,4) ..
qed

lemma seed_binary_points:
  assumes "db_laws lib"
  shows "binaries_of lib (seed_binary lib iv db) = stored (binaries_of lib db) (fst iv) (Some Class1) sel351_binary
      \<lparr>sample_value = snd iv, sample_flags = ONLINE, sample_time = Synchronized 0\<rparr>"
    and "analogs_of lib (seed_binary lib iv db) = analogs_of lib db"
proof -
  note l = db_lawsD [OF assms]
  note d = seed_binary_def
  show "binaries_of lib (seed_binary lib iv db) = stored (binaries_of lib db) (fst iv) (Some Class1) sel351_binary
      \<lparr>sample_value = snd iv, sample_flags = ONLINE, sample_time = Synchronized 0\<rparr>"
    unfolding d by (rule add_update_stored [OF l(5) l(7)])
  show "analogs_of lib (seed_binary lib iv db) = analogs_of lib db" unfolding d l(6,8) ..
qed

text \<open>A database of two maps.\<close>

definition map_db :: "(analogs \<times> binaries) db_lib" where
  "map_db = \<lparr>
     add_analog = (\<lambda>i e c (a, b). if a i = None
       then (True, (a(i \<mapsto> (e, c, \<lparr>sample_value = Num 0, sample_flags = OtherFlags 2, sample_time = Unsynchronized 0\<rparr>)), b))
       else (False, (a, b))),
     update_analog = (\<lambda>i s u (a, b). case a i of None \<Rightarrow> (False, (a, b)) | Some (e, c, _) \<Rightarrow> (True, (a(i \<mapsto> (e, c, s)), b))),
     add_binary = (\<lambda>i e c (a, b). if b i = None
       then (True, (a, b(i \<mapsto> (e, c, \<lparr>sample_value = False, sample_flags = OtherFlags 2, sample_time = Unsynchronized 0\<rparr>))))
       else (False, (a, b))),
     update_binary = (\<lambda>i s u (a, b). case b i of None \<Rightarrow> (False, (a, b)) | Some (e, c, _) \<Rightarrow> (True, (a, b(i \<mapsto> (e, c, s))))),
     analogs_of = fst, binaries_of = snd\<rparr>"

lemma map_db_laws: "db_laws map_db"
  by (auto simp: db_laws_def map_db_def added_def updated_def split: option.splits)

end
