(* ===== verification/Dnp3Props.thy ===== *)
theory Dnp3Props
  imports Dnp3
begin

text \<open>
  What mock-dnp3-outstation promises: the seeded points of the relay, and what a point
  reads after any mix of control writes and commands.
\<close>

lemma seed_fold_points:
  assumes "db_laws lib"
  shows "analogs_of lib (fold (seed_analog lib) ps db) =
      fold (\<lambda>iv m. stored m (fst iv) (Some Class1) sel351_analog
        \<lparr>sample_value = snd iv, sample_flags = ONLINE, sample_time = Synchronized 0\<rparr>) ps (analogs_of lib db)"
    and "binaries_of lib (fold (seed_analog lib) ps db) = binaries_of lib db"
    and "binaries_of lib (fold (seed_binary lib) qs db) =
      fold (\<lambda>iv m. stored m (fst iv) (Some Class1) sel351_binary
        \<lparr>sample_value = snd iv, sample_flags = ONLINE, sample_time = Synchronized 0\<rparr>) qs (binaries_of lib db)"
    and "analogs_of lib (fold (seed_binary lib) qs db) = analogs_of lib db"
  using seed_analog_points [OF assms] seed_binary_points [OF assms]
  by (induction ps arbitrary: db, simp_all) (induction qs arbitrary: db, simp_all)+

text \<open>A fresh outstation has exactly the SEL-351 points: each analog input with its value,
  online, in class 1, served as a 32-bit float (variation 5), each binary input with its
  state, served with flags; and nothing else.\<close>

theorem relay_points_seeded:
  assumes "db_laws lib" "analogs_of lib db = Map.empty" "binaries_of lib db = Map.empty"
  shows "analogs_of lib (dnp3_seed lib db) i = map_option (\<lambda>v. (Some Class1, sel351_analog,
        \<lparr>sample_value = v, sample_flags = ONLINE, sample_time = Synchronized 0\<rparr>)) (map_of ANALOGS i)
    \<and> binaries_of lib (dnp3_seed lib db) i = map_option (\<lambda>b. (Some Class1, sel351_binary,
        \<lparr>sample_value = b, sample_flags = ONLINE, sample_time = Synchronized 0\<rparr>)) (map_of BINARIES i)"
  unfolding dnp3_seed_def seed_fold_points [OF assms(1)] assms(2,3)
  by (simp add: ANALOGS_def BINARIES_def stored_def)

theorem relay_points_seeded_witness:
  "map_option (\<lambda>p. sample_value (snd (snd p))) (binaries_of map_db (dnp3_seed map_db (Map.empty, Map.empty)) 24) = Some True"
  using relay_points_seeded [OF map_db_laws, of "(Map.empty, Map.empty)" 24]
  by (simp add: map_db_def BINARIES_def)

subsection \<open>Driven points\<close>

text \<open>The entries a sequence of requests puts, in order.\<close>

primrec puts_of :: "dnp3_event list \<Rightarrow> points_body" where
  "puts_of [] = []"
| "puts_of (ev # evs) = (case ev of PutPoints body \<Rightarrow> body | _ \<Rightarrow> []) @ puts_of evs"

lemma run_is_one_batch:
  "dnp3_run lib evs db = map_option snd (put_points lib (puts_of evs) db)"
proof (induction evs arbitrary: db)
  case (Cons ev evs)
  have app: "put_points lib (a @ b) db = Option.bind (put_points lib a db) (\<lambda>r. put_points lib b (snd r))" for a b db
  proof (induction lib a db rule: put_points.induct)
    case (1 lib db)
    then show ?case by simp
  qed (simp split: option.split)
  show ?case
    by (cases ev) (simp_all add: dnp3_step_def app Cons.IH ctl_select_def ctl_operate_def bind_map_option o_def
        map_option_bind split: Option.bind_splits)
qed simp

lemma put_points_total:
  assumes "\<forall>e\<in>set b. 0 \<le> snd e"
  shows "\<exists>db'. put_points lib b db = Some (NO_CONTENT, db')"
  using assms by (induction lib b db rule: put_points.induct) (simp_all add: current_time_def)

text \<open>The last entry of a point.\<close>

definition last_put :: "points_body \<Rightarrow> u16 \<Rightarrow> (fp \<times> int) option" where
  "last_put b = map_of (rev (map (\<lambda>e. (fst (fst e), (snd (fst e), snd e))) b))"

definition driven_sample :: "fp \<times> int \<Rightarrow> fp sample" where
  "driven_sample vt = \<lparr>sample_value = fst vt, sample_flags = ONLINE, sample_time = Synchronized (of_int (snd vt))\<rparr>"

definition point_after :: "(event_class option \<times> analog_config \<times> fp sample) option \<Rightarrow> (fp \<times> int) option
    \<Rightarrow> (event_class option \<times> analog_config \<times> fp sample) option" where
  "point_after old p = (case p of None \<Rightarrow> old
     | Some vt \<Rightarrow> (case old of None \<Rightarrow> Some (Some Class1, on_demand_analog, driven_sample vt)
         | Some (e, c, _) \<Rightarrow> Some (e, c, driven_sample vt)))"

lemma last_put_Cons:
  "last_put (e # b) i = (case last_put b i of Some vt \<Rightarrow> Some vt
     | None \<Rightarrow> if fst (fst e) = i then Some (snd (fst e), snd e) else None)"
  by (simp add: last_put_def map_add_def split: option.split)

lemma put_points_points:
  assumes "db_laws lib" "put_points lib b db = Some (st, db')"
  shows "binaries_of lib db' = binaries_of lib db
    \<and> analogs_of lib db' i = point_after (analogs_of lib db i) (last_put b i)"
  using assms
proof (induction lib b db rule: put_points.induct)
  case (1 lib db)
  then show ?case by (simp add: last_put_def point_after_def)
next
  case (2 lib j v ms rest db)
  from 2(3) obtain t where t: "current_time ms = Some t" by (auto split: option.splits)
  then have ts: "\<lparr>sample_value = v, sample_flags = ONLINE, sample_time = t\<rparr> = driven_sample (v, ms)"
    by (simp add: current_time_def driven_sample_def split: if_splits)
  from 2 t have ih: "binaries_of lib db' = binaries_of lib (put_point lib j (driven_sample (v, ms)) db)"
    "analogs_of lib db' i = point_after (analogs_of lib (put_point lib j (driven_sample (v, ms)) db) i) (last_put rest i)"
    by (simp_all add: ts)
  show ?case using ih put_point_points [OF 2(2)]
    by (auto simp: last_put_Cons point_after_def stored_def split: option.splits prod.splits)
qed

text \<open>C20: Whatever control writes and DNP3 commands follow the seeding, while the clock is past
  1970 each analog input reads the last value put to it, stamped with that moment, or its
  seeded value; a seeded point keeps its float variation, a point first named by a client is
  served as a 32-bit integer; no binary input ever changes and every command is refused.\<close>

theorem relay_points_driven:
  assumes "db_laws lib" "\<forall>e\<in>set (puts_of evs). 0 \<le> snd e"
  shows "\<exists>db'. dnp3_run lib evs (dnp3_seed lib db) = Some db'
    \<and> (\<forall>i. analogs_of lib db' i = point_after (analogs_of lib (dnp3_seed lib db) i) (last_put (puts_of evs) i))
    \<and> binaries_of lib db' = binaries_of lib (dnp3_seed lib db)
    \<and> fst (ctl_select c j db') = NotSupported \<and> fst (ctl_operate c j op db') = NotSupported"
proof -
  obtain db' where d: "put_points lib (puts_of evs) (dnp3_seed lib db) = Some (NO_CONTENT, db')"
    using put_points_total [OF assms(2), of lib "dnp3_seed lib db"] by blast
  then show ?thesis
    using put_points_points [OF assms(1) d] by (simp add: run_is_one_batch ctl_select_def ctl_operate_def)
qed

theorem relay_points_driven_witness:
  "\<exists>db'. dnp3_run map_db [PutPoints [((1, Num 5000000), 1000)], Select Group12Var1 0, PutPoints [((0, Num 410), 2000)]]
       (dnp3_seed map_db (Map.empty, Map.empty)) = Some db'
     \<and> analogs_of map_db db' 1 = Some (Some Class1, on_demand_analog, driven_sample (Num 5000000, 1000))
     \<and> analogs_of map_db db' 0 = Some (Some Class1, sel351_analog, driven_sample (Num 410, 2000))"
proof -
  let ?evs = "[PutPoints [((1, Num 5000000), 1000)], Select Group12Var1 0, PutPoints [((0, Num 410), 2000)]]"
  let ?db = "dnp3_seed map_db (Map.empty, Map.empty)"
  have s: "analogs_of map_db ?db 1 = None" "\<exists>x. analogs_of map_db ?db 0 = Some (Some Class1, sel351_analog, x)"
    by (simp_all add: dnp3_seed_def seed_fold_points [OF map_db_laws])
      (simp_all add: ANALOGS_def stored_def map_db_def)
  have l: "last_put (puts_of ?evs) 1 = Some (Num 5000000, 1000)" "last_put (puts_of ?evs) 0 = Some (Num 410, 2000)"
    by (simp_all add: last_put_def)
  have "\<forall>e\<in>set (puts_of ?evs). 0 \<le> snd e" by simp
  from relay_points_driven [OF map_db_laws this, of "(Map.empty, Map.empty)" Group12Var1 0 0] obtain db' where
    "dnp3_run map_db ?evs ?db = Some db'"
    "\<forall>i. analogs_of map_db db' i = point_after (analogs_of map_db ?db i) (last_put (puts_of ?evs) i)" by blast
  then show ?thesis using s l by (auto simp: point_after_def)
qed

end
