(* ===== verification/MockTests.thy ===== *)
theory MockTests
  imports RedfishProps BacnetProps
begin

text \<open>
  The unit tests that stand in the source files of mock-redfish-service (\<open>cdu.rs\<close>) and
  mock-bacnet-device (\<open>simulator.rs\<close>), translated to predicates over the model, with the
  proof that what they assert holds of it.
\<close>

subsection \<open>cdu.rs\<close>

definition the_secondary_loop_serves_supply_return_and_flow :: "'v json_lib \<Rightarrow> bool" where
  "the_secondary_loop_serves_supply_return_and_flow lib =
     (let json = secondary_connector_json lib in
      pointer lib json [''SupplyTemperatureCelsius'', ''Reading''] = Some (j_num lib (f64_lit 30))
      \<and> pointer lib json [''ReturnTemperatureCelsius'', ''Reading''] = Some (j_num lib (f64_lit 38))
      \<and> pointer lib json [''FlowLitersPerMinute'', ''Reading''] = Some (j_num lib (f64_lit 120)))"

lemma secondary_loop: "json_laws lib \<Longrightarrow> the_secondary_loop_serves_supply_return_and_flow lib"
  by (simp add: the_secondary_loop_serves_supply_return_and_flow_def secondary_connector_json_def json_lawsD
      SUPPLY_C_def RETURN_C_def FLOW_LPM_def)

definition the_pump_serves_speed_and_a_dmtf_state :: "'v json_lib \<Rightarrow> bool" where
  "the_pump_serves_speed_and_a_dmtf_state lib =
     (let json = pump_json lib in
      pointer lib json [''PumpSpeedPercent'', ''Reading''] = Some (j_num lib (f64_lit 65))
      \<and> pointer lib json [''Status'', ''State''] = Some (j_str lib ''Enabled''))"

lemma pump: "json_laws lib \<Longrightarrow> the_pump_serves_speed_and_a_dmtf_state lib"
  by (simp add: the_pump_serves_speed_and_a_dmtf_state_def pump_json_def json_lawsD PUMP_PERCENT_def)

subsection \<open>simulator.rs of mock-bacnet-device\<close>

definition strat :: strategies where
  "strat = [(1, \<lparr>strat_min = f32_lit 7, strat_max = f32_lit 15, strat_step = f32_lit (1 / 2)\<rparr>)]"

definition tick_increments_within_range :: bool where
  "tick_increments_within_range = (bac_tick strat (bac_seed strat) 1 = Some (f32_lit (75 / 10)))"

lemma tick_increments: tick_increments_within_range
  by (simp add: tick_increments_within_range_def strat_def bac_tick_def bac_tick_one_def bac_seed_def bac_next_def
      fp_eval flt_def)

definition tick_wraps_at_max :: bool where
  "tick_wraps_at_max = (bac_tick strat ((bac_seed strat)(1 \<mapsto> f32_lit (148 / 10))) 1 = Some (f32_lit 7))"

lemma tick_wraps: tick_wraps_at_max
  by (simp add: tick_wraps_at_max_def strat_def bac_tick_def bac_tick_one_def bac_seed_def bac_next_def fp_eval flt_def)

end
