(* ===== verification/Site.thy ===== *)
theory Site
  imports ModbusProps RedfishProps
begin

text \<open>
  The mocks of a site together: battery racks and a meter (mock-modbus-server) and a GPU
  node (mock-redfish-service).  The meter's loop in \<open>poi.rs\<close> starts one read per rack and one
  of the node, waits for all of them, and then publishes; the reads complete one at a time,
  in any order, while everything else goes on.
\<close>

subsection \<open>The state and its events\<close>

record site =
  site_racks :: "modbus_system list"
  site_node :: gpu_node
  site_meter :: modbus_system
  rack_reads :: "u16 list option option list"
  node_draw :: "fp option option"

text \<open>\<open>None\<close> is a read that has not completed, \<open>Some None\<close> one that failed.\<close>

datatype 'v site_event =
    AtRack nat modbus_event
  | AtNode nat 'v
  | AtMeter modbus_event
  | ReadRack nat bool
  | ReadNode bool
  | Publish

definition power_path :: string where
  "power_path = ''/redfish/v1/Chassis/1/Power''"

definition reads_done :: "site \<Rightarrow> bool" where
  "reads_done s \<longleftrightarrow> None \<notin> set (rack_reads s)
     \<and> (case poi_task (site_meter s) of None \<Rightarrow> True | Some p \<Rightarrow> compute p = None \<or> node_draw s \<noteq> None)"

definition publish :: "site \<Rightarrow> site option" where
  "publish s =
     (if \<not> reads_done s then Some s
      else map_option (\<lambda>m. s\<lparr>site_meter := m, rack_reads := replicate (length (site_racks s)) None, node_draw := None\<rparr>)
        (modbus_step (PoiTick (map the (rack_reads s)) (Option.bind (node_draw s) id)) (site_meter s)))"

text \<open>\<open>None\<close> is a panic of one of the mocks.\<close>

primrec site_step :: "'v json_lib \<Rightarrow> 'v site_event \<Rightarrow> site \<Rightarrow> site option" where
  "site_step lib (AtRack i e) s =
     (if i < length (site_racks s)
      then map_option (\<lambda>r. s\<lparr>site_racks := (site_racks s)[i := r]\<rparr>) (modbus_step e (site_racks s ! i))
      else Some s)"
| "site_step lib (AtNode i body) s =
     Some (if i < length (gpus (site_node s)) then s\<lparr>site_node := fst (patch_gpu lib i body (site_node s))\<rparr> else s)"
| "site_step lib (AtMeter e) s =
     (case e of PoiTick _ _ \<Rightarrow> Some s
      | _ \<Rightarrow> map_option (\<lambda>m. s\<lparr>site_meter := m\<rparr>) (modbus_step e (site_meter s)))"
| "site_step lib (ReadRack i ok) s =
     Some (if i < length (site_racks s) \<and> i < length (rack_reads s) \<and> rack_reads s ! i = None
       then s\<lparr>rack_reads := (rack_reads s)[i := Some (if ok then rack_reply (meter_of (site_racks s ! i)) else None)]\<rparr>
       else s)"
| "site_step lib (ReadNode ok) s =
     Some (if node_draw s = None
       then s\<lparr>node_draw := Some (if ok then node_power lib (redfish_get lib (site_node s) power_path) else None)\<rparr>
       else s)"
| "site_step lib Publish s = publish s"

primrec site_run :: "'v json_lib \<Rightarrow> 'v site_event list \<Rightarrow> site \<Rightarrow> site option" where
  "site_run lib [] s = Some s"
| "site_run lib (e # es) s = Option.bind (site_step lib e s) (site_run lib es)"

text \<open>Everything an event leaves alone, and what a reading can be.\<close>

lemma site_run_snoc: "site_run lib (es @ [e]) s = Option.bind (site_run lib es s) (site_step lib e)"
proof (induction es arbitrary: s)
  case Nil show ?case by (cases "site_step lib e s") simp_all
next
  case (Cons a es) then show ?case by (cases "site_step lib a s") simp_all
qed

lemma length_racks_step:
  "site_step lib e s = Some t \<Longrightarrow> length (site_racks t) = length (site_racks s)"
  by (cases e) (auto simp: publish_def split: if_splits modbus_event.splits simp del: modbus_step.simps)

subsection \<open>The window of a publication\<close>

definition all_pending :: "site \<Rightarrow> bool" where
  "all_pending s \<longleftrightarrow> rack_reads s = replicate (length (site_racks s)) None \<and> node_draw s = None"

definition rack_sampled :: "'v json_lib \<Rightarrow> 'v site_event list \<Rightarrow> site \<Rightarrow> nat \<Rightarrow> u16 list \<Rightarrow> bool" where
  "rack_sampled lib es s i ws \<longleftrightarrow> (\<exists>es1 es2 s1. es = es1 @ ReadRack i True # es2
     \<and> site_run lib es1 s = Some s1 \<and> rack_reply (meter_of (site_racks s1 ! i)) = Some ws)"

definition node_sampled :: "'v json_lib \<Rightarrow> 'v site_event list \<Rightarrow> site \<Rightarrow> fp \<Rightarrow> bool" where
  "node_sampled lib es s w \<longleftrightarrow> (\<exists>es1 es2 s1. es = es1 @ ReadNode True # es2
     \<and> site_run lib es1 s = Some s1 \<and> node_power lib (redfish_get lib (site_node s1) power_path) = Some w)"

lemma sampled_later:
  "rack_sampled lib es s i ws \<Longrightarrow> rack_sampled lib (es @ [e]) s i ws"
  "node_sampled lib es s w \<Longrightarrow> node_sampled lib (es @ [e]) s w"
  by (force simp: rack_sampled_def node_sampled_def)+

lemma sampled_now:
  "site_run lib es s = Some t \<Longrightarrow> rack_reply (meter_of (site_racks t ! i)) = Some ws
     \<Longrightarrow> rack_sampled lib (es @ [ReadRack i True]) s i ws"
  "site_run lib es s = Some t \<Longrightarrow> node_power lib (redfish_get lib (site_node t) power_path) = Some w
     \<Longrightarrow> node_sampled lib (es @ [ReadNode True]) s w"
  by (auto simp: rack_sampled_def node_sampled_def)

definition reads_ok :: "'v json_lib \<Rightarrow> 'v site_event list \<Rightarrow> site \<Rightarrow> site \<Rightarrow> bool" where
  "reads_ok lib es s t \<longleftrightarrow> length (rack_reads t) = length (site_racks t)
     \<and> length (site_racks t) = length (site_racks s)
     \<and> (\<forall>i ws. i < length (rack_reads t) \<longrightarrow> rack_reads t ! i = Some (Some ws) \<longrightarrow> rack_sampled lib es s i ws)
     \<and> (\<forall>w. node_draw t = Some (Some w) \<longrightarrow> node_sampled lib es s w)"

lemma reads_ok_idle:
  assumes "reads_ok lib es s t" "rack_reads u = rack_reads t" "node_draw u = node_draw t"
    "length (site_racks u) = length (site_racks t)"
  shows "reads_ok lib (es @ [e]) s u"
  using assms by (auto simp: reads_ok_def intro: sampled_later)

lemma reads_ok_rack:
  assumes "reads_ok lib es s t" "site_run lib es s = Some t" "i < length (rack_reads t)"
  shows "reads_ok lib (es @ [ReadRack i ok]) s
    (t\<lparr>rack_reads := (rack_reads t)[i := Some (if ok then rack_reply (meter_of (site_racks t ! i)) else None)]\<rparr>)"
  using assms(1,3)
  by (auto simp: reads_ok_def nth_list_update intro: sampled_later sampled_now(1) [OF assms(2)] split: if_splits)

lemma reads_ok_node:
  assumes "reads_ok lib es s t" "site_run lib es s = Some t"
  shows "reads_ok lib (es @ [ReadNode ok]) s
    (t\<lparr>node_draw := Some (if ok then node_power lib (redfish_get lib (site_node t) power_path) else None)\<rparr>)"
  using assms(1)
  by (auto simp: reads_ok_def intro: sampled_later sampled_now(2) [OF assms(2)] split: if_splits)

lemma reads_ok_step:
  assumes "reads_ok lib es s t" "site_run lib es s = Some t" "site_step lib e t = Some u" "e \<noteq> Publish"
  shows "reads_ok lib (es @ [e]) s u"
proof (cases e)
  case (ReadRack i ok)
  then show ?thesis using assms reads_ok_rack [OF assms(1,2), of i ok] reads_ok_idle [OF assms(1), of u]
    by (auto split: if_splits)
next
  case (ReadNode ok)
  then show ?thesis using assms reads_ok_node [OF assms(1,2), of ok] reads_ok_idle [OF assms(1), of u]
    by (auto split: if_splits)
qed (use assms reads_ok_idle [OF assms(1), of u] length_racks_step [OF assms(3)] in
    \<open>auto split: if_splits modbus_event.splits simp del: modbus_step.simps\<close>)

lemma reads_ok_run:
  assumes "all_pending s" "site_run lib es s = Some t" "Publish \<notin> set es"
  shows "reads_ok lib es s t"
  using assms(2,3)
proof (induction es arbitrary: t rule: rev_induct)
  case Nil then show ?case using assms(1) by (auto simp: reads_ok_def all_pending_def)
next
  case (snoc e es)
  then obtain t' where t': "site_run lib es s = Some t'" "site_step lib e t' = Some t"
    by (auto simp: site_run_snoc bind_eq_Some_conv)
  then show ?case using snoc reads_ok_step [OF _ t'] by auto
qed

lemma publish_done:
  assumes "reads_done t" "length (rack_reads t) = length (site_racks t)"
  shows "publish t = map_option
    (\<lambda>m. t\<lparr>site_meter := m, rack_reads := replicate (length (site_racks t)) None, node_draw := None\<rparr>)
    (modbus_step (PoiTick (map the (rack_reads t)) (Option.bind (node_draw t) id)) (site_meter t))"
  using assms by (simp add: publish_def)

lemma reads_done_nth: "reads_done t \<Longrightarrow> i < length (rack_reads t) \<Longrightarrow> \<exists>r. rack_reads t ! i = Some r"
  by (metis not_None_eq nth_mem reads_done_def)

text \<open>C10: What the meter publishes is one atomic update of it whose inputs were sampled inside the
  window: a rack that answered is counted with the register pair it served at some point
  after the reads were started, and so is the node, whatever racks, node, clients and
  control surfaces do in between.\<close>

theorem published_meter_samples_the_window:
  assumes "all_pending s" "site_run lib es s = Some t" "Publish \<notin> set es"
    and "reads_done t" "site_step lib Publish t = Some u"
  shows "\<exists>replies nd. length replies = length (site_racks s) \<and> all_pending u
    \<and> modbus_step (PoiTick replies nd) (site_meter t) = Some (site_meter u)
    \<and> (\<forall>i ws. i < length replies \<longrightarrow> replies ! i = Some ws \<longrightarrow> rack_sampled lib es s i ws)
    \<and> (\<forall>w. nd = Some w \<longrightarrow> node_sampled lib es s w)"
proof (intro exI conjI)
  note r = reads_ok_run [OF assms(1-3)]
  then have l: "length (rack_reads t) = length (site_racks t)" by (simp add: reads_ok_def)
  let ?replies = "map the (rack_reads t)" and ?nd = "Option.bind (node_draw t) id"
  show "length ?replies = length (site_racks s)" using r by (simp add: reads_ok_def)
  show "all_pending u" "modbus_step (PoiTick ?replies ?nd) (site_meter t) = Some (site_meter u)"
    using assms(5) publish_done [OF assms(4) l] by (auto simp: all_pending_def simp del: modbus_step.simps)
  show "\<forall>i ws. i < length ?replies \<longrightarrow> ?replies ! i = Some ws \<longrightarrow> rack_sampled lib es s i ws"
    using r reads_done_nth [OF assms(4)] by (fastforce simp: reads_ok_def)
  show "\<forall>w. ?nd = Some w \<longrightarrow> node_sampled lib es s w"
    using r by (auto simp: reads_ok_def bind_eq_Some_conv)
qed

subsection \<open>A site whose setpoint moves between two reads\<close>

primrec site_states :: "'v json_lib \<Rightarrow> 'v site_event list \<Rightarrow> site \<Rightarrow> site list" where
  "site_states lib [] s = [s]"
| "site_states lib (e # es) s =
     s # (case site_step lib e s of None \<Rightarrow> [] | Some t \<Rightarrow> site_states lib es t)"

definition delivered :: "site \<Rightarrow> int" where
  "delivered s = (\<Sum>r\<leftarrow>site_racks s. sint (read_i32 (holding (meter_of r)) ACTIVE_POWER))"

definition metered :: "site \<Rightarrow> rat" where
  "metered s = fval (f32_of_bits (read_i32 (holding (meter_of (site_meter s))) POI_ACTIVE_POWER))"

definition setpoint_write :: "i32 \<Rightarrow> modbus_event" where
  "setpoint_write w = WriteMultiple [(SETPOINT, hi16 w), (SETPOINT + 1, lo16 w)]"

definition running_rack :: "i32 \<Rightarrow> modbus_system" where
  "running_rack w = \<lparr>meter_of = (meter_new [SETPOINT \<mapsto> hi16 w, SETPOINT + 1 \<mapsto> lo16 w,
       ACTIVE_POWER \<mapsto> hi16 w, ACTIVE_POWER + 1 \<mapsto> lo16 w])\<lparr>writable := True\<rparr>,
     rack = Some demo_rack, poi_task = None, simulated = True, dt = from_millis 1000\<rparr>"

definition handover_site :: "gpu_node \<Rightarrow> site" where
  "handover_site node = \<lparr>site_racks = [running_rack 40000, running_rack 0], site_node = node,
     site_meter = demo_meter_system\<lparr>poi_task := Some (demo_poi\<lparr>fixed_load := Num 50000\<rparr>)\<rparr>,
     rack_reads = [None, None], node_draw = None\<rparr>"

definition handover :: "'v site_event list" where
  "handover = [ReadRack 0 True, AtRack 0 (setpoint_write 0), AtRack 0 SimulatorTick,
     AtRack 1 (setpoint_write 40000), AtRack 1 SimulatorTick, ReadRack 1 True, Publish]"

theorem published_meter_samples_the_window_witness:
  "\<exists>t u replies nd. site_run serde [ReadRack 1 True, ReadRack 0 True] (handover_site demo_node) = Some t
    \<and> site_step serde Publish t = Some u \<and> length replies = 2
    \<and> modbus_step (PoiTick replies nd) (site_meter t) = Some (site_meter u)
    \<and> (\<forall>ws. replies ! 0 = Some ws \<longrightarrow> rack_sampled serde [ReadRack 1 True, ReadRack 0 True] (handover_site demo_node) 0 ws)"
proof -
  let ?es = "[ReadRack 1 True, ReadRack 0 True] :: json site_event list" and ?s = "handover_site demo_node"
  have p: "poi_task (site_meter ?s) = Some (demo_poi\<lparr>fixed_load := Num 50000\<rparr>)" "compute demo_poi = None"
    by (simp_all add: handover_site_def demo_poi_def)
  have s: "length (site_racks ?s) = 2" "rack_reads ?s = [None, None]" "all_pending ?s"
    by (simp_all add: handover_site_def all_pending_def numeral_2_eq_2)
  then obtain t where t: "site_run serde ?es ?s = Some t" "reads_done t" "site_meter t = site_meter ?s"
    "length (rack_reads t) = length (site_racks t)"
    by (simp add: reads_done_def p)
  then obtain u where u: "site_step serde Publish t = Some u"
    using publish_done [OF t(2,4)] modbus_step_rest [of "PoiTick (map the (rack_reads t)) (Option.bind (node_draw t) id)" "site_meter t"]
    by auto
  have "Publish \<notin> set ?es" by simp
  from published_meter_samples_the_window [OF s(3) t(1) this t(2) u] obtain replies nd where
    "length replies = 2" "modbus_step (PoiTick replies nd) (site_meter t) = Some (site_meter u)"
    "\<forall>i ws. i < length replies \<longrightarrow> replies ! i = Some ws \<longrightarrow> rack_sampled serde ?es ?s i ws"
    unfolding s(1) by blast
  with t(1) u show ?thesis by (intro exI [of _ t] exI [of _ u] exI [of _ replies] exI [of _ nd]) simp
qed

text \<open>A rack of the example puts out what it is told within one tick.\<close>

lemma clip_inside:
  assumes "\<bar>k\<bar> \<le> 1927000" shows "max (- 1927000) (min 1927000 (of_int k)) = (of_int k :: rat)"
proof -
  have "of_int (- 1927000) \<le> (of_int k :: rat)" "(of_int k :: rat) \<le> of_int 1927000"
    using assms unfolding of_int_le_iff by simp_all
  then show ?thesis by simp
qed

lemma rack_follows:
  assumes r: "rack r = Some demo_rack" "simulated r" "dt r = from_millis 1000"
    and free: "SOC \<notin> driven (meter_of r)" "ACTIVE_POWER \<notin> driven (meter_of r)" "ACTIVE_POWER + 1 \<notin> driven (meter_of r)"
    and w: "read_i32 (holding (meter_of r)) SETPOINT = w" "\<bar>sint w\<bar> \<le> 1927000"
  shows "\<exists>r'. modbus_step SimulatorTick r = Some r' \<and> sint (read_i32 (holding (meter_of r')) ACTIVE_POWER) = sint w
    \<and> dom (holding (meter_of r)) \<subseteq> dom (holding (meter_of r'))"
proof -
  let ?h = "holding (meter_of r)" and ?d = "driven (meter_of r)"
  obtain b' h' where st: "battery_step demo_rack ?h ?d (from_millis 1000) = Some (b', h')"
    using battery_step_total [where driven = ?d, OF demo_rack_ok demo_tick_ok] free by blast
  have v: "power_limit_w (config demo_rack) = Num 1927000" "soc_percent demo_rack = Num 60"
    by (simp_all add: demo_rack_def battery_new_def)
  obtain c d where l: "limits demo_rack = Some (c, d)"
    using demo_rack_ok is_finite_not_nan [OF in_rangeD(1) [of 0 100 "soc_percent demo_rack"]]
    by (auto simp: battery_ok_def config_ok_def elim: limits_bounds)
  have "sint (read_i32 h' ACTIVE_POWER) = round_away (max (- fval c) (min (fval d) (of_int (sint w))))"
    using step_output [OF demo_rack_ok st free l] by (simp add: v w)
  also have "\<dots> = round_away (max (- 1927000) (min 1927000 (of_int (sint w))))"
    using limits_val [OF demo_rack_ok l] by (simp add: v frnd_numeral)
  also have "\<dots> = sint w" by (simp only: clip_inside [OF w(2)] round_away_of_int)
  finally have "sint (read_i32 h' ACTIVE_POWER) = sint w" .
  moreover have "dom ?h \<subseteq> dom h'" using battery_step_mono [OF st] by blast
  ultimately show ?thesis using r st by (simp add: Let_def)
qed

lemma running_rack_simps:
  "meter_of (running_rack w) = (meter_new (holding (meter_of (running_rack w))))\<lparr>writable := True\<rparr>"
  "rack (running_rack w) = Some demo_rack" "simulated (running_rack w)" "dt (running_rack w) = from_millis 1000"
  "read_i32 (holding (meter_of (running_rack w))) ACTIVE_POWER = w"
  "RACK_ACTIVE_POWER \<in> dom (holding (meter_of (running_rack w)))"
  "RACK_ACTIVE_POWER + 1 \<in> dom (holding (meter_of (running_rack w)))"
  by (simp_all add: running_rack_def meter_new_def read_i32_def word_or_0_def ACTIVE_POWER_def SETPOINT_def
      RACK_ACTIVE_POWER_def)

text \<open>Commanding it changes nothing but the setpoint; the next tick delivers.\<close>

lemma commanded_rack:
  "\<exists>r. modbus_step (setpoint_write v) (running_rack w) = Some r
    \<and> sint (read_i32 (holding (meter_of r)) ACTIVE_POWER) = sint w
    \<and> (\<bar>sint v\<bar> \<le> 1927000 \<longrightarrow> (\<exists>r'. modbus_step SimulatorTick r = Some r'
        \<and> sint (read_i32 (holding (meter_of r')) ACTIVE_POWER) = sint v
        \<and> RACK_ACTIVE_POWER \<in> dom (holding (meter_of r')) \<and> RACK_ACTIVE_POWER + 1 \<in> dom (holding (meter_of r'))))"
proof -
  let ?r = "(running_rack w)\<lparr>meter_of := apply_writes [(SETPOINT, hi16 v), (SETPOINT + 1, lo16 v)] (meter_of (running_rack w))\<rparr>"
  have "modbus_step (setpoint_write v) (running_rack w) = Some ?r"
    by (simp add: setpoint_write_def write_multiple_registers_def running_rack_def)
  moreover have "sint (read_i32 (holding (meter_of ?r)) ACTIVE_POWER) = sint w"
    by (simp add: running_rack_def meter_new_def read_i32_def word_or_0_def ACTIVE_POWER_def SETPOINT_def)
  moreover have "\<exists>r'. modbus_step SimulatorTick ?r = Some r'
      \<and> sint (read_i32 (holding (meter_of r')) ACTIVE_POWER) = sint v
      \<and> dom (holding (meter_of ?r)) \<subseteq> dom (holding (meter_of r'))" if "\<bar>sint v\<bar> \<le> 1927000"
    using that by (intro rack_follows)
      (simp_all add: running_rack_def meter_new_def read_i32_def word_or_0_def ACTIVE_POWER_def SETPOINT_def SOC_def)
  moreover have "RACK_ACTIVE_POWER \<in> dom (holding (meter_of ?r))" "RACK_ACTIVE_POWER + 1 \<in> dom (holding (meter_of ?r))"
    using running_rack_simps(6,7) [of w] by (simp_all add: running_rack_def meter_new_def RACK_ACTIVE_POWER_def ACTIVE_POWER_def)
  ultimately show ?thesis by fastforce
qed

lemma handover_meter:
  assumes "\<And>m. m \<in> set [m0, m1] \<Longrightarrow> RACK_ACTIVE_POWER \<in> dom (holding m) \<and> RACK_ACTIVE_POWER + 1 \<in> dom (holding m)"
    and "sint (read_i32 (holding m0) ACTIVE_POWER) = 40000" "sint (read_i32 (holding m1) ACTIVE_POWER) = 40000"
  shows "\<exists>t. modbus_step (PoiTick (map rack_reply [m0, m1]) None) (site_meter (handover_site node)) = Some t
    \<and> fval (f32_of_bits (read_i32 (holding (meter_of t)) POI_ACTIVE_POWER)) = - 30000"
proof -
  let ?s = "site_meter (handover_site node)" and ?p = "demo_poi\<lparr>fixed_load := Num 50000\<rparr>"
  have l: "site_load (fixed_load ?p) None = Num (of_int 50000)" by (rule site_load_whole) simp_all
  have e: "snd (poi_tick ?p rs None h d) = (let powers = List.map_filter rack_power rs in
      if length powers = length (racks ?p) then write_poi_power h d (poi_active_power (site_load (fixed_load ?p) None) powers)
      else h)" for rs h d
    by (simp add: poi_tick_def demo_poi_def Let_def)
  have "fval (f32_of_bits (read_i32 (snd (poi_tick ?p (map rack_reply [m0, m1]) None
      (holding (meter_of ?s)) (driven (meter_of ?s)))) POI_ACTIVE_POWER))
    = frnd F32 (of_int (50000 - (\<Sum>m\<leftarrow>[m0, m1]. sint (read_i32 (holding m) ACTIVE_POWER))))"
    unfolding e by (rule poi_meter_value [OF assms(1)])
      (simp_all only: l, simp_all add: demo_poi_def handover_site_def demo_meter_system_def meter_new_def)
  also have "\<dots> = - 30000" by (simp add: assms(2,3) frnd_numeral(1))
  finally show ?thesis by (simp add: handover_site_def demo_meter_system_def split_beta Let_def)
qed

text \<open>C16: The reads do not make the meter measure one instant.  At a site with a 50 kW load the
  battery power moves from one rack to the other, the first rack commanded down before the
  second is commanded up; with one rack read before and one after, the meter publishes an
  export of 30 kW although the racks together never delivered more than 40 kW, so that the
  site imported at least 10 kW all along.\<close>

theorem handover_shows_phantom_export:
  "\<exists>t. site_run lib handover (handover_site node) = Some t \<and> metered t = - 30000
    \<and> list_all (\<lambda>s. delivered s \<le> 40000) (site_states lib handover (handover_site node))"
proof -
  obtain r0 r0' where r0: "modbus_step (setpoint_write 0) (running_rack 40000) = Some r0"
      "sint (read_i32 (holding (meter_of r0)) ACTIVE_POWER) = 40000"
      "modbus_step SimulatorTick r0 = Some r0'" "sint (read_i32 (holding (meter_of r0')) ACTIVE_POWER) = 0"
    using commanded_rack [of 0 40000] by auto
  obtain r1 r1' where r1: "modbus_step (setpoint_write 40000) (running_rack 0) = Some r1"
      "sint (read_i32 (holding (meter_of r1)) ACTIVE_POWER) = 0"
      "modbus_step SimulatorTick r1 = Some r1'" "sint (read_i32 (holding (meter_of r1')) ACTIVE_POWER) = 40000"
      "RACK_ACTIVE_POWER \<in> dom (holding (meter_of r1'))" "RACK_ACTIVE_POWER + 1 \<in> dom (holding (meter_of r1'))"
    using commanded_rack [of 40000 0] by auto
  let ?m0 = "meter_of (running_rack 40000)"
  have a: "sint (read_i32 (holding ?m0) ACTIVE_POWER) = 40000" "sint (read_i32 (holding (meter_of (running_rack 0))) ACTIVE_POWER) = 0"
    by (simp_all add: running_rack_simps(5))
  have "RACK_ACTIVE_POWER \<in> dom (holding m) \<and> RACK_ACTIVE_POWER + 1 \<in> dom (holding m)" if "m \<in> set [?m0, meter_of r1']" for m
    using that running_rack_simps(6,7) r1(5,6) by auto
  from handover_meter [OF this a(1) r1(4), of node] obtain t where
    t: "modbus_step (PoiTick (map rack_reply [?m0, meter_of r1']) None) (site_meter (handover_site node)) = Some t"
      "fval (f32_of_bits (read_i32 (holding (meter_of t)) POI_ACTIVE_POWER)) = - 30000" by blast
  have p: "poi_task (site_meter (handover_site node)) = Some (demo_poi\<lparr>fixed_load := Num 50000\<rparr>)"
    "compute demo_poi = None" by (simp_all add: handover_site_def demo_poi_def)
  show ?thesis
    using t p r0(1,3) r1(1,3)
    by (simp add: handover_def handover_site_def publish_def reads_done_def metered_def delivered_def
        a r0(2,4) r1(2,4) del: modbus_step.simps)
qed

end
