(* ===== verification/Http.thy ===== *)
theory Http
  imports Prelude
begin

text \<open>
  What the HTTP surfaces of the mocks share: requests, routers and listeners.  axum and the
  sockets are parameters with their documented behaviour as laws; a router is the table
  that the source builds, and an interface says what every surface promises of the requests
  it refuses.
\<close>

subsection \<open>Routers (axum)\<close>

datatype http_method = GET | PUT | PATCH | OTHER string

record 'b http_request =
  req_method :: http_method
  req_path :: string
  req_body :: 'b

text \<open>
  \<open>routed\<close> decides over the paths of a router and the methods each one takes: which of them
  runs, or the status without one.  \<open>extract_json\<close> is the extractor \<open>Json\<close> at the type the
  handler asks for, over headers and body.
\<close>

record ('b, 't) axum_lib =
  routed :: "(string \<times> http_method list) list \<Rightarrow> http_method \<Rightarrow> string \<Rightarrow> http_status + http_method"
  extract_json :: "'b \<Rightarrow> 't option"

text \<open>
  Paths without parameters match literally; a path without the method is answered 405, an
  unknown path 404, and a HEAD runs the handler of GET, whose body is dropped on the way out.
\<close>

definition axum_laws :: "('b, 't) axum_lib \<Rightarrow> bool" where
  "axum_laws ax \<longleftrightarrow> (\<forall>table m path. routed ax table m path =
     (case map_of table path of None \<Rightarrow> Inl NOT_FOUND
      | Some ms \<Rightarrow> if m \<in> set ms then Inr m
          else if m = OTHER ''HEAD'' \<and> GET \<in> set ms then Inr GET else Inl METHOD_NOT_ALLOWED))"

lemma axum_lawsD:
  "axum_laws ax \<Longrightarrow> routed ax table m path =
     (case map_of table path of None \<Rightarrow> Inl NOT_FOUND
      | Some ms \<Rightarrow> if m \<in> set ms then Inr m
          else if m = OTHER ''HEAD'' \<and> GET \<in> set ms then Inr GET else Inl METHOD_NOT_ALLOWED)"
  by (simp add: axum_laws_def)

text \<open>An answer: the next state, the status, and a body; \<open>None\<close> is a panic of the handler.\<close>

type_synonym ('s, 'r) http_answer = "('s \<times> http_status \<times> 'r option) option"

text \<open>The handlers of a path by method; a method axum lets through has one.\<close>

definition serve_route ::
  "('b, 't) axum_lib \<Rightarrow> (string \<times> (http_method \<times> ('b \<Rightarrow> 's \<Rightarrow> ('s, 'r) http_answer)) list) list
     \<Rightarrow> 'b http_request \<Rightarrow> 's \<Rightarrow> ('s, 'r) http_answer" where
  "serve_route ax table r s =
     (case routed ax (map (\<lambda>(p, hs). (p, map fst hs)) table) (req_method r) (req_path r) of
        Inl status \<Rightarrow> Some (s, status, None)
      | Inr m \<Rightarrow>
          (case Option.bind (map_of table (req_path r)) (\<lambda>hs. map_of hs m) of
             None \<Rightarrow> Some (s, METHOD_NOT_ALLOWED, None)
           | Some handler \<Rightarrow> handler (req_body r) s))"

text \<open>A handler with a \<open>Json\<close> argument runs only when the extractor accepts.\<close>

definition with_json ::
  "('b, 't) axum_lib \<Rightarrow> ('t \<Rightarrow> 's \<Rightarrow> ('s, 'r) http_answer) \<Rightarrow> 'b \<Rightarrow> 's \<Rightarrow> ('s, 'r) http_answer" where
  "with_json ax handler body s =
     (case extract_json ax body of None \<Rightarrow> Some (s, REJECTED, None) | Some t \<Rightarrow> handler t s)"

definition refused :: "http_status \<Rightarrow> bool" where
  "refused st \<longleftrightarrow> st \<noteq> OK \<and> st \<noteq> NO_CONTENT"

lemma refused_simps [simp]:
  "\<not> refused OK" "\<not> refused NO_CONTENT" "refused NOT_FOUND" "refused METHOD_NOT_ALLOWED"
  "refused REJECTED" "refused BAD_REQUEST" "refused UNPROCESSABLE_ENTITY"
  by (simp_all add: refused_def)

lemma map_of_fst: "map_of (map (\<lambda>(p, hs). (p, f hs)) table) k = map_option f (map_of table k)"
  by (induction table) auto

text \<open>A request that meets its route, and one that does not.\<close>

lemma serve_route_hit:
  assumes "axum_laws ax" "map_of table (req_path r) = Some hs" "map_of hs (req_method r) = Some h"
  shows "serve_route ax table r s = h (req_body r) s"
proof -
  have "req_method r \<in> fst ` set hs" using assms(3) by (force dest: map_of_SomeD)
  then show ?thesis using assms by (simp add: serve_route_def axum_lawsD map_of_fst)
qed

lemma serve_route_miss:
  assumes "axum_laws ax" "req_method r \<noteq> OTHER ''HEAD''"
    "Option.bind (map_of table (req_path r)) (\<lambda>hs. map_of hs (req_method r)) = None"
  shows "serve_route ax table r s = Some (s, if map_of table (req_path r) = None then NOT_FOUND else METHOD_NOT_ALLOWED, None)"
proof (cases "map_of table (req_path r)")
  case None
  then show ?thesis using assms by (simp add: serve_route_def axum_lawsD map_of_fst)
next
  case (Some hs)
  then have "req_method r \<notin> fst ` set hs" using assms(3) by (simp add: map_of_eq_None_iff)
  then show ?thesis using assms Some by (simp add: serve_route_def axum_lawsD map_of_fst)
qed

text \<open>Whatever axum does, only a handler of the router changes anything.\<close>

lemma serve_route_cases:
  obtains st where "serve_route ax table r s = Some (s, st, None)"
  | hs m h where "(req_path r, hs) \<in> set table" "(m, h) \<in> set hs" "serve_route ax table r s = h (req_body r) s"
proof (cases "routed ax (map (\<lambda>(p, hs). (p, map fst hs)) table) (req_method r) (req_path r)")
  case (Inl st) then show ?thesis using that(1) by (simp add: serve_route_def)
next
  case (Inr m)
  show ?thesis
  proof (cases "Option.bind (map_of table (req_path r)) (\<lambda>hs. map_of hs m)")
    case None then show ?thesis using that(1) Inr by (simp add: serve_route_def)
  next
    case (Some h)
    then obtain hs where "map_of table (req_path r) = Some hs" "map_of hs m = Some h" by (auto simp: bind_eq_Some_conv)
    then show ?thesis using that(2) [of hs m h] Inr by (auto simp: serve_route_def dest: map_of_SomeD)
  qed
qed

text \<open>A handler that leaves the state alone when it refuses, and a router of such handlers.\<close>

definition careful :: "('b \<Rightarrow> 's \<Rightarrow> ('s, 'r) http_answer) \<Rightarrow> bool" where
  "careful h \<longleftrightarrow> (\<forall>b s t st x. h b s = Some (t, st, x) \<longrightarrow> refused st \<longrightarrow> t = s)"

lemma carefulI: "(\<And>b s t st x. h b s = Some (t, st, x) \<Longrightarrow> refused st \<Longrightarrow> t = s) \<Longrightarrow> careful h"
  by (auto simp: careful_def)

lemma careful_with_json: "(\<And>s t st x v. h v s = Some (t, st, x) \<Longrightarrow> refused st \<Longrightarrow> t = s) \<Longrightarrow> careful (with_json ax h)"
  by (rule carefulI) (auto simp: with_json_def split: option.splits)

lemma serve_route_refused:
  assumes "serve_route ax table r s = Some (t, st, x)" "refused st"
    and "list_all (\<lambda>(p, hs). list_all (\<lambda>(m, h). careful h) hs) table"
  shows "t = s"
proof (cases rule: serve_route_cases [of ax table r s])
  case (2 hs m h)
  then have "careful h" using assms(3) by (fastforce simp: list_all_iff)
  moreover have "h (req_body r) s = Some (t, st, x)" using 2(3) assms(1) by simp
  ultimately show ?thesis using assms(2) unfolding careful_def by blast
qed (use assms(1) in simp)

subsection \<open>A client's requests, one after the other\<close>

primrec serve_all ::
  "('q \<Rightarrow> 's \<Rightarrow> ('s, 'r) http_answer) \<Rightarrow> 'q list \<Rightarrow> 's \<Rightarrow> ('s \<times> (http_status \<times> 'r option) list) option" where
  "serve_all handle [] s = Some (s, [])"
| "serve_all handle (r # rs) s =
     (case handle r s of None \<Rightarrow> None
      | Some (t, a) \<Rightarrow> map_option (\<lambda>(u, as). (u, a # as)) (serve_all handle rs t))"

text \<open>The requests that were not refused, with their answers.\<close>

definition accepted_of :: "'q list \<Rightarrow> (http_status \<times> 'r option) list \<Rightarrow> ('q \<times> http_status \<times> 'r option) list" where
  "accepted_of rs as = filter (\<lambda>(r, st, x). \<not> refused st) (zip rs as)"

locale http_surface =
  fixes handle :: "'q \<Rightarrow> 's \<Rightarrow> ('s, 'r) http_answer"
  assumes refused_keeps: "handle r s = Some (t, st, x) \<Longrightarrow> refused st \<Longrightarrow> t = s"
begin

text \<open>What was refused might as well not have been sent.\<close>

lemma refusals_invisible:
  assumes "serve_all handle rs s = Some (t, as)"
  shows "serve_all handle (map fst (accepted_of rs as)) s = Some (t, map snd (accepted_of rs as))"
  using assms
proof (induction rs arbitrary: s as)
  case Nil then show ?case by (simp add: accepted_of_def)
next
  case (Cons r rs)
  then obtain s1 st x as' where h: "handle r s = Some (s1, st, x)" "as = (st, x) # as'"
    and t: "serve_all handle rs s1 = Some (t, as')"
    by (auto split: option.splits)
  show ?case
  proof (cases "refused st")
    case True
    with h(1) have "s1 = s" by (rule refused_keeps)
    with Cons.IH [OF t] True h(2) show ?thesis by (simp add: accepted_of_def)
  next
    case False
    with Cons.IH [OF t] h show ?thesis by (simp add: accepted_of_def)
  qed
qed

end

subsection \<open>Listeners\<close>

datatype endpoint = Tcp nat | Udp nat

primrec port_number :: "endpoint \<Rightarrow> nat" where
  "port_number (Tcp p) = p"
| "port_number (Udp p) = p"

text \<open>
  Whether the system lets the process bind an endpoint on all interfaces, given the ones it
  holds.  An endpoint is bound once; port 0 asks for any free port.
\<close>

type_synonym net = "endpoint set \<Rightarrow> endpoint \<Rightarrow> bool"

definition net_laws :: "net \<Rightarrow> bool" where
  "net_laws binds \<longleftrightarrow> (\<forall>held e. e \<in> held \<longrightarrow> port_number e \<noteq> 0 \<longrightarrow> \<not> binds held e)"

datatype 'e start_error = NotStarted 'e | BadCertificates | CannotBind endpoint

definition bind_endpoint :: "net \<Rightarrow> endpoint \<Rightarrow> endpoint set \<Rightarrow> 'e start_error + endpoint set" where
  "bind_endpoint binds e held = (if binds held e then Inr (insert e held) else Inl (CannotBind e))"

end
