(* ===== verification/HttpSurfaces.thy ===== *)
theory HttpSurfaces
  imports Http ModbusMain SnmpV3 Redfish Dnp3
begin

text \<open>
  The HTTP surfaces of the mocks as raw requests reach them, and the listeners they start
  on: the control routers of mock-modbus-server, mock-snmp-agent and mock-dnp3-outstation
  (\<open>control.rs\<close>), the Redfish service's router (\<open>gpu_chassis.rs\<close>, \<open>cdu.rs\<close>), and each
  \<open>main\<close> with the binding of its endpoints.
\<close>

subsection \<open>mock-modbus-server\<close>

definition modbus_router ::
  "('b, (u16 \<times> u16) list) axum_lib \<Rightarrow> (string \<times> (http_method \<times> ('b \<Rightarrow> meter \<Rightarrow> (meter, unit) http_answer)) list) list" where
  "modbus_router ax =
     [(''/registers'', [(PUT, \<lambda>body m. case put_registers (extract_json ax) body m of (t, st) \<Rightarrow> Some (t, st, None))])]"

definition modbus_http ::
  "('b, (u16 \<times> u16) list) axum_lib \<Rightarrow> 'b http_request \<Rightarrow> meter \<Rightarrow> (meter, unit) http_answer" where
  "modbus_http ax = serve_route ax (modbus_router ax)"

text \<open>The listener and what it serves.\<close>

definition modbus_spawn_control ::
  "net \<Rightarrow> ('b, (u16 \<times> u16) list) axum_lib \<Rightarrow> nat \<Rightarrow> endpoint set
     \<Rightarrow> startup_error start_error + endpoint set \<times> ('b http_request \<Rightarrow> meter \<Rightarrow> (meter, unit) http_answer)" where
  "modbus_spawn_control binds ax p held =
     (case bind_endpoint binds (Tcp p) held of Inl e \<Rightarrow> Inl e | Inr held' \<Rightarrow> Inr (held', modbus_http ax))"

text \<open>The listener in TLS mode (tls.rs); \<open>tls_ok\<close> is rodbus loading the certificates and the key.\<close>

definition spawn_tls ::
  "(string list \<Rightarrow> bool) \<Rightarrow> net \<Rightarrow> env \<Rightarrow> nat \<Rightarrow> startup_error start_error + endpoint set" where
  "spawn_tls tls_ok binds env p =
     (case tls_paths env of Inl e \<Rightarrow> Inl (NotStarted e)
      | Inr paths \<Rightarrow> if \<not> tls_ok paths then Inl BadCertificates else bind_endpoint binds (Tcp p) {})"

text \<open>
  \<open>main\<close> with its listeners, in its order: profile, the Modbus port with or without TLS, the
  control port, then the meter's settings.
\<close>

definition modbus_start ::
  "(string list \<Rightarrow> bool) \<Rightarrow> net \<Rightarrow> ('b, (u16 \<times> u16) list) axum_lib \<Rightarrow> env
     \<Rightarrow> (startup_error start_error
          + (endpoint set \<times> ('b http_request \<Rightarrow> meter \<Rightarrow> (meter, unit) http_answer)) \<times> modbus_settings \<times> modbus_system) option" where
  "modbus_start tls_ok binds ax env =
     (let cfg = modbus_settings_from_env env in
      map_option (\<lambda>r. case r of Inl e \<Rightarrow> Inl (NotStarted e)
        | Inr hib \<Rightarrow>
          (case (if tls_mode cfg then spawn_tls tls_ok binds env (port cfg)
                 else bind_endpoint binds (Tcp (port cfg)) {}) of Inl e \<Rightarrow> Inl e
           | Inr held \<Rightarrow>
             (case modbus_spawn_control binds ax (control_port cfg) held of Inl e \<Rightarrow> Inl e
              | Inr surface \<Rightarrow>
                (case modbus_wire env cfg hib of Inl e \<Rightarrow> Inl (NotStarted e) | Inr sys \<Rightarrow> Inr (surface, sys)))))
        (profile_registers env (profile cfg)))"

subsection \<open>mock-snmp-agent\<close>

definition snmp_router ::
  "('b, (string \<times> i64) list) axum_lib
     \<Rightarrow> (string \<times> (http_method \<times> ('b \<Rightarrow> snmp_state \<Rightarrow> (snmp_state, unit) http_answer)) list) list" where
  "snmp_router ax =
     [(''/oids'', [(PUT, \<lambda>body s. case put_oids (extract_json ax body) s of (t, st) \<Rightarrow> Some (t, st, None))])]"

definition snmp_http ::
  "('b, (string \<times> i64) list) axum_lib \<Rightarrow> 'b http_request \<Rightarrow> snmp_state \<Rightarrow> (snmp_state, unit) http_answer" where
  "snmp_http ax = serve_route ax (snmp_router ax)"

definition snmp_spawn_control ::
  "net \<Rightarrow> ('b, (string \<times> i64) list) axum_lib \<Rightarrow> nat \<Rightarrow> endpoint set
     \<Rightarrow> startup_error start_error + endpoint set \<times> ('b http_request \<Rightarrow> snmp_state \<Rightarrow> (snmp_state, unit) http_answer)" where
  "snmp_spawn_control binds ax p held =
     (case bind_endpoint binds (Tcp p) held of Inl e \<Rightarrow> Inl e | Inr held' \<Rightarrow> Inr (held', snmp_http ax))"

text \<open>\<open>main\<close> up to its loops: both endpoints first, then the load follower and the USM state.\<close>

definition snmp_start ::
  "net \<Rightarrow> ('b, (string \<times> i64) list) axum_lib \<Rightarrow> v3_lib \<Rightarrow> env
     \<Rightarrow> (startup_error start_error
          + (endpoint set \<times> ('b http_request \<Rightarrow> snmp_state \<Rightarrow> (snmp_state, unit) http_answer))
            \<times> snmp_settings \<times> snmp_state \<times> (string \<times> pdu_load) option \<times> agent_state option) option" where
  "snmp_start binds ax lib env =
     (let cfg = snmp_settings_from_env env in
      case bind_endpoint binds (Udp (snmp_port cfg)) {} of Inl e \<Rightarrow> Some (Inl e)
      | Inr held \<Rightarrow>
        (case snmp_spawn_control binds ax (snmp_control_port cfg) held of Inl e \<Rightarrow> Some (Inl e)
         | Inr surface \<Rightarrow>
           map_option (\<lambda>r. case r of Inl e \<Rightarrow> Inl (NotStarted e) | Inr sys \<Rightarrow> Inr (surface, sys)) (snmp_main lib env)))"

subsection \<open>mock-dnp3-outstation\<close>

text \<open>A request comes with the clock as it is read while its entries are applied.\<close>

definition dnp3_router ::
  "'db db_lib \<Rightarrow> ('b, (u16 \<times> fp) list) axum_lib
     \<Rightarrow> (string \<times> (http_method \<times> ('b \<times> (nat \<Rightarrow> int) \<Rightarrow> 'db \<Rightarrow> ('db, unit) http_answer)) list) list" where
  "dnp3_router lib ax =
     [(''/points'', [(PUT, \<lambda>(body, clock) db. case extract_json ax body of None \<Rightarrow> Some (db, REJECTED, None)
        | Some entries \<Rightarrow> map_option (\<lambda>(st, db'). (db', st, None))
            (put_points lib (map (\<lambda>(i, entry). (entry, clock i)) (enumerate 0 entries)) db))])]"

text \<open>axum sees the body only.\<close>

definition dnp3_http ::
  "'db db_lib \<Rightarrow> ('b, (u16 \<times> fp) list) axum_lib \<Rightarrow> ('b \<times> (nat \<Rightarrow> int)) http_request \<Rightarrow> 'db \<Rightarrow> ('db, unit) http_answer" where
  "dnp3_http lib ax = serve_route \<lparr>routed = routed ax, extract_json = \<lambda>(body, clock). extract_json ax body\<rparr> (dnp3_router lib ax)"

definition dnp3_spawn_control ::
  "net \<Rightarrow> 'db db_lib \<Rightarrow> ('b, (u16 \<times> fp) list) axum_lib \<Rightarrow> nat \<Rightarrow> endpoint set
     \<Rightarrow> startup_error start_error
        + endpoint set \<times> (('b \<times> (nat \<Rightarrow> int)) http_request \<Rightarrow> 'db \<Rightarrow> ('db, unit) http_answer)" where
  "dnp3_spawn_control binds lib ax p held =
     (case bind_endpoint binds (Tcp p) held of Inl e \<Rightarrow> Inl e | Inr held' \<Rightarrow> Inr (held', dnp3_http lib ax))"

text \<open>The certificates load before anything else; \<open>tls_ok\<close> is the dnp3 crate loading them.\<close>

definition dnp3_tls_config :: "(string list \<Rightarrow> bool) \<Rightarrow> env \<Rightarrow> startup_error start_error + unit" where
  "dnp3_tls_config tls_ok env =
     (case dnp3_tls_paths env of Inl e \<Rightarrow> Inl (NotStarted e)
      | Inr paths \<Rightarrow> if \<not> tls_ok paths then Inl BadCertificates else Inr ())"

definition dnp3_start ::
  "(string list \<Rightarrow> bool) \<Rightarrow> net \<Rightarrow> 'db db_lib \<Rightarrow> ('b, (u16 \<times> fp) list) axum_lib \<Rightarrow> env \<Rightarrow> 'db
     \<Rightarrow> startup_error start_error
        + (endpoint set \<times> (('b \<times> (nat \<Rightarrow> int)) http_request \<Rightarrow> 'db \<Rightarrow> ('db, unit) http_answer)) \<times> dnp3_settings \<times> 'db" where
  "dnp3_start tls_ok binds lib ax env db =
     (let cfg = dnp3_settings_from_env env in
      case (if dnp3_tls cfg then dnp3_tls_config tls_ok env else Inr ()) of Inl e \<Rightarrow> Inl e
      | Inr _ \<Rightarrow>
        (case bind_endpoint binds (Tcp (dnp3_port cfg)) {} of Inl e \<Rightarrow> Inl e
         | Inr held \<Rightarrow>
           (case dnp3_spawn_control binds lib ax (dnp3_control_port cfg) held of Inl e \<Rightarrow> Inl e
            | Inr surface \<Rightarrow> Inr (surface, cfg, dnp3_seed lib db))))"

subsection \<open>mock-redfish-service\<close>

definition redfish_serve :: "(gpu_node \<Rightarrow> 'v) \<Rightarrow> 'b \<Rightarrow> gpu_node \<Rightarrow> (gpu_node, patch_error + 'v) http_answer" where
  "redfish_serve render body n = Some (n, OK, Some (Inr (render n)))"

definition redfish_serve_gpu :: "nat \<Rightarrow> (gpu \<Rightarrow> 'v) \<Rightarrow> 'b \<Rightarrow> gpu_node \<Rightarrow> (gpu_node, patch_error + 'v) http_answer" where
  "redfish_serve_gpu i render body n = Some (n, OK, Some (Inr (render (gpus n ! i))))"

definition gpu_router ::
  "'v json_lib \<Rightarrow> ('b, 'v) axum_lib \<Rightarrow> nat
     \<Rightarrow> (string \<times> (http_method \<times> ('b \<Rightarrow> gpu_node \<Rightarrow> (gpu_node, patch_error + 'v) http_answer)) list) list" where
  "gpu_router lib ax i =
     [(gpu_base i @ ''/EnvironmentMetrics'',
        [(GET, redfish_serve_gpu i (environment_metrics_json lib)),
         (PATCH, with_json ax (\<lambda>v n. case patch_gpu lib i v n of (t, st, x) \<Rightarrow> Some (t, st, Some x)))]),
      (gpu_base i @ ''/ProcessorMetrics'', [(GET, redfish_serve_gpu i (processor_metrics_json lib))])]"

definition redfish_router ::
  "'v json_lib \<Rightarrow> ('b, 'v) axum_lib
     \<Rightarrow> (string \<times> (http_method \<times> ('b \<Rightarrow> gpu_node \<Rightarrow> (gpu_node, patch_error + 'v) http_answer)) list) list" where
  "redfish_router lib ax =
     [(''/redfish/v1/Chassis/1/Power'', [(GET, redfish_serve (\<lambda>n. power_json lib (chassis n) (gpus n)))]),
      (''/redfish/v1/Chassis/1/Thermal'', [(GET, redfish_serve (\<lambda>n. thermal_json lib (chassis n)))]),
      (''/redfish/v1/Chassis/1/Sensors/InletTemp'', [(GET, redfish_serve (\<lambda>n. inlet_sensor_json lib (chassis n)))])]
     @ concat (map (gpu_router lib ax) [0..<GPUS])"

definition cdu_router ::
  "'v json_lib \<Rightarrow> (string \<times> (http_method \<times> ('b \<Rightarrow> gpu_node \<Rightarrow> (gpu_node, patch_error + 'v) http_answer)) list) list" where
  "cdu_router lib = map (\<lambda>(path, json). (path, [(GET, redfish_serve (\<lambda>n. json))])) (cdu_routes lib)"

definition redfish_http ::
  "'v json_lib \<Rightarrow> ('b, 'v) axum_lib \<Rightarrow> 'b http_request \<Rightarrow> gpu_node \<Rightarrow> (gpu_node, patch_error + 'v) http_answer" where
  "redfish_http lib ax = serve_route ax (redfish_router lib ax @ cdu_router lib)"

subsection \<open>A refused request changes nothing\<close>

lemma put_registers_refused: "put_registers extract b m = (t, st) \<Longrightarrow> refused st \<Longrightarrow> t = m"
  by (auto simp: put_registers_def split: option.splits)

lemma put_oids_refused: "put_oids b s = (t, st) \<Longrightarrow> refused st \<Longrightarrow> t = s"
  by (auto simp: put_oids_def split: option.splits)

lemma put_points_status: "put_points lib ps db = Some (st, db') \<Longrightarrow> st = NO_CONTENT"
  by (induction lib ps db rule: put_points.induct) (auto split: option.splits)

lemma patch_gpu_refused: "patch_gpu lib i v n = (t, st, x) \<Longrightarrow> refused st \<Longrightarrow> t = n"
  by (auto simp: patch_gpu_def split: sum.splits)

lemma control_handlers_careful:
  "careful (\<lambda>body m. case put_registers extract body m of (t, st) \<Rightarrow> Some (t, st, None))"
  "careful (\<lambda>body s. case put_oids (extract' body) s of (t, st) \<Rightarrow> Some (t, st, None))"
  "careful (\<lambda>(body, clock) db. case extract'' body of None \<Rightarrow> Some (db, REJECTED, None)
     | Some entries \<Rightarrow> map_option (\<lambda>(st, db'). (db', st, None))
         (put_points lib (map (\<lambda>(i, entry). (entry, clock i)) (enumerate 0 entries)) db))"
  by (auto dest: put_registers_refused put_oids_refused
      intro!: carefulI split: prod.splits option.splits) (metis put_points_status refused_simps(2))

lemma redfish_handlers_careful:
  "careful (redfish_serve render)" "careful (redfish_serve_gpu i render')"
  "careful (with_json ax (\<lambda>v n. case patch_gpu lib i v n of (t, st, x) \<Rightarrow> Some (t, st, Some x)))"
  by (auto simp: redfish_serve_def redfish_serve_gpu_def dest: patch_gpu_refused
      intro!: carefulI careful_with_json split: prod.splits)

interpretation mh: http_surface "modbus_http ax"
  by unfold_locales (erule serve_route_refused [of ax "modbus_router ax", folded modbus_http_def],
    simp_all add: modbus_router_def control_handlers_careful)

interpretation sh: http_surface "snmp_http ax"
  by unfold_locales (erule serve_route_refused [of ax "snmp_router ax", folded snmp_http_def],
    simp_all add: snmp_router_def control_handlers_careful)

interpretation dh: http_surface "dnp3_http lib ax"
  by unfold_locales (unfold dnp3_http_def, erule serve_route_refused,
    simp_all add: dnp3_router_def control_handlers_careful)

interpretation rh: http_surface "redfish_http lib ax"
  by unfold_locales (unfold redfish_http_def, erule serve_route_refused,
    assumption, auto simp add: redfish_router_def gpu_router_def cdu_router_def redfish_handlers_careful list_all_iff)

end
