(* ===== verification/HttpProps.thy ===== *)
theory HttpProps
  imports HttpSurfaces ModbusProps SnmpProps RedfishProps Dnp3Props
begin

text \<open>
  What a client of the HTTP surfaces can rely on, from the raw request to the state: which
  requests take effect and how each one is answered, and when a mock starts at all.
\<close>

subsection \<open>A router with one PUT route\<close>

definition put_status :: "string \<Rightarrow> ('b, 't) axum_lib \<Rightarrow> ('t \<Rightarrow> http_status) \<Rightarrow> 'b http_request \<Rightarrow> http_status" where
  "put_status path ax verdict r =
     (if req_path r \<noteq> path then NOT_FOUND else if req_method r \<noteq> PUT then METHOD_NOT_ALLOWED
      else case extract_json ax (req_body r) of None \<Rightarrow> REJECTED | Some t \<Rightarrow> verdict t)"

text \<open>What a request asks to write: nothing unless it is routed and its body is accepted.\<close>

definition put_batch :: "string \<Rightarrow> ('b, ('k \<times> 'v) list) axum_lib \<Rightarrow> 'b http_request \<Rightarrow> ('k \<times> 'v) list" where
  "put_batch path ax r =
     (if req_path r = path \<and> req_method r = PUT
      then case extract_json ax (req_body r) of None \<Rightarrow> [] | Some b \<Rightarrow> b else [])"

lemma serve_put_route:
  assumes "axum_laws ax"
  shows "serve_route ax [(path, [(PUT, h)])] r s =
    (if req_path r = path \<and> req_method r = PUT then h (req_body r) s
     else Some (s, if req_path r \<noteq> path then NOT_FOUND else METHOD_NOT_ALLOWED, None))"
  using assms by (auto simp: serve_route_def axum_lawsD)

lemma modbus_http_one:
  assumes "axum_laws ax"
  shows "modbus_http ax r m =
    Some (apply_writes (put_batch ''/registers'' ax r) m, put_status ''/registers'' ax (\<lambda>b. NO_CONTENT) r, None)"
  using assms
  by (auto simp: modbus_http_def modbus_router_def serve_put_route put_batch_def put_status_def put_registers_def
      split: option.splits)

text \<open>
  A raw request is an event of the device's machine, so that what holds over its runs holds
  when the client is an HTTP client.
\<close>

lemma modbus_http_event:
  assumes "axum_laws ax"
  shows "\<exists>t st. modbus_http ax r (meter_of s) = Some (t, st, None)
    \<and> modbus_step (PutRegisters (if refused st then None else Some (put_batch ''/registers'' ax r))) s = Some (s\<lparr>meter_of := t\<rparr>)"
  unfolding modbus_http_one [OF assms]
  by (auto simp: put_status_def put_batch_def put_registers_def split: option.split)

lemma modbus_http_all:
  assumes "axum_laws ax"
  shows "serve_all (modbus_http ax) rs m =
    Some (apply_writes (concat (map (put_batch ''/registers'' ax) rs)) m,
      map (\<lambda>r. (put_status ''/registers'' ax (\<lambda>b. NO_CONTENT) r, None)) rs)"
proof (induction rs arbitrary: m)
  case (Cons r rs)
  have app: "apply_writes (xs @ ys) m' = apply_writes ys (apply_writes xs m')" for xs ys m'
    by (induction xs arbitrary: m') simp_all
  show ?case by (subst serve_all.simps, subst modbus_http_one [OF assms]) (simp add: Cons.IH app)
qed simp

text \<open>C17: Over any sequence of raw HTTP requests, the registers hold what the accepted ones
  wrote, in order: a PUT of /registers whose body is a register map is answered 204 and
  applied; another method, another path or another body is answered 405, 404 or by the
  extractor's rejection, and neither changes a register nor marks one as driven.\<close>

theorem modbus_http_writes:
  assumes "axum_laws ax"
  defines "W rs \<equiv> concat (map (put_batch ''/registers'' ax) rs)"
  shows "\<exists>t. serve_all (modbus_http ax) rs m =
      Some (t, map (\<lambda>r. (put_status ''/registers'' ax (\<lambda>b. NO_CONTENT) r, None)) rs)
    \<and> read_holding_register t a =
        (case map_of (rev (W rs)) a of None \<Rightarrow> read_holding_register m a | Some v \<Rightarrow> Inr v)
    \<and> (a \<in> driven t \<longleftrightarrow> a \<in> driven m \<or> a \<in> fst ` set (W rs))"
  using modbus_http_all [OF assms(1), of rs m]
  by (auto simp: W_def store_simps insert_all_lookup read_holding_register_def split: option.split)

text \<open>A client library whose bodies are the entries themselves, or nothing.\<close>

definition plain_axum :: "('t option, 't) axum_lib" where
  "plain_axum = \<lparr>routed = (\<lambda>table m path. case map_of table path of None \<Rightarrow> Inl NOT_FOUND
      | Some ms \<Rightarrow> if m \<in> set ms then Inr m
          else if m = OTHER ''HEAD'' \<and> GET \<in> set ms then Inr GET else Inl METHOD_NOT_ALLOWED),
     extract_json = \<lambda>b. b\<rparr>"

lemma plain_axum_laws: "axum_laws plain_axum"
  by (simp add: axum_laws_def plain_axum_def)

lemma plain_axum_json [simp]: "extract_json plain_axum b = b"
  by (simp add: plain_axum_def)

theorem modbus_http_writes_witness:
  "\<exists>t. serve_all (modbus_http plain_axum)
       [\<lparr>req_method = PUT, req_path = ''/registers'', req_body = Some [(10, 7)]\<rparr>,
        \<lparr>req_method = GET, req_path = ''/registers'', req_body = Some [(10, 9)]\<rparr>,
        \<lparr>req_method = PUT, req_path = ''/oids'', req_body = Some [(10, 9)]\<rparr>,
        \<lparr>req_method = PUT, req_path = ''/registers'', req_body = None\<rparr>] (meter_new Map.empty)
     = Some (t, [(NO_CONTENT, None), (METHOD_NOT_ALLOWED, None), (NOT_FOUND, None), (REJECTED, None)])
     \<and> read_holding_register t 10 = Inr 7 \<and> 10 \<in> driven t"
  using modbus_http_writes [OF plain_axum_laws, of
      "[\<lparr>req_method = PUT, req_path = ''/registers'', req_body = Some [(10, 7)]\<rparr>,
        \<lparr>req_method = GET, req_path = ''/registers'', req_body = Some [(10, 9)]\<rparr>,
        \<lparr>req_method = PUT, req_path = ''/oids'', req_body = Some [(10, 9)]\<rparr>,
        \<lparr>req_method = PUT, req_path = ''/registers'', req_body = None\<rparr>]" "meter_new Map.empty" 10]
  by (simp add: put_batch_def put_status_def)

subsection \<open>mock-snmp-agent and mock-dnp3-outstation\<close>

lemma snmp_http_one:
  assumes "axum_laws ax"
  shows "snmp_http ax r s =
    (if req_path r = ''/oids'' \<and> req_method r = PUT
     then case put_oids (extract_json ax (req_body r)) s of (t, st) \<Rightarrow> Some (t, st, None)
     else Some (s, if req_path r \<noteq> ''/oids'' then NOT_FOUND else METHOD_NOT_ALLOWED, None))"
  using assms by (simp add: snmp_http_def snmp_router_def serve_put_route)

text \<open>C39: For the SNMP control surface a refused request might as well not have been sent: a
  sequence of raw requests leaves the values and the driven set exactly as the subsequence
  of the requests that were answered 204 does, with the same answers for those.\<close>

theorem snmp_http_refusals_invisible:
  assumes "serve_all (snmp_http ax) rs s = Some (t, as)"
  shows "serve_all (snmp_http ax) (map fst (accepted_of rs as)) s = Some (t, map snd (accepted_of rs as))"
  using assms by (rule sh.refusals_invisible)

theorem snmp_http_refusals_invisible_witness:
  "\<exists>t. serve_all (snmp_http plain_axum)
       [\<lparr>req_method = PUT, req_path = ''/oids'', req_body = Some [(''1.3'', 5), (''x'', 6)]\<rparr>,
        \<lparr>req_method = PUT, req_path = ''/oids'', req_body = Some [(''1.3'', 7)]\<rparr>] snmp_init
     = Some (t, [(UNPROCESSABLE_ENTITY, None), (NO_CONTENT, None)])
   \<and> serve_all (snmp_http plain_axum)
       [\<lparr>req_method = PUT, req_path = ''/oids'', req_body = Some [(''1.3'', 7)]\<rparr>] snmp_init
     = Some (t, [(NO_CONTENT, None)])"
proof -
  let ?rs = "[\<lparr>req_method = PUT, req_path = ''/oids'', req_body = Some [(''1.3'', 5 :: i64), (''x'', 6)]\<rparr>,
    \<lparr>req_method = PUT, req_path = ''/oids'', req_body = Some [(''1.3'', 7)]\<rparr>]"
  have p: "parse_oid ''1.3'' = Some [1, 3]" "parse_oid ''x'' = None"
    by (simp_all add: parse_oid_def parse_uint_def digit_of_def Let_def)
  let ?t = "fold drive_oid [([1, 3], 7)] snmp_init"
  have "serve_all (snmp_http plain_axum) ?rs snmp_init = Some (?t, [(UNPROCESSABLE_ENTITY, None), (NO_CONTENT, None)])"
    by (simp add: snmp_http_one plain_axum_laws put_oids_def p)
  with snmp_http_refusals_invisible [OF this] show ?thesis by (auto simp: accepted_of_def)
qed

text \<open>A routed DNP3 batch is the event of the outstation's machine, refused requests are none.\<close>

lemma dnp3_http_step:
  assumes "axum_laws ax"
  shows "dnp3_http lib ax r db =
    (if req_path r \<noteq> ''/points'' then Some (db, NOT_FOUND, None)
     else if req_method r \<noteq> PUT then Some (db, METHOD_NOT_ALLOWED, None)
     else case extract_json ax (fst (req_body r)) of None \<Rightarrow> Some (db, REJECTED, None)
     | Some entries \<Rightarrow> map_option (\<lambda>db'. (db', NO_CONTENT, None))
         (dnp3_step lib (PutPoints (map (\<lambda>(i, entry). (entry, snd (req_body r) i)) (enumerate 0 entries))) db))"
proof -
  let ?ax = "\<lparr>routed = routed ax, extract_json = \<lambda>(body, clock). extract_json ax body\<rparr>"
  have "axum_laws ?ax" using assms by (simp add: axum_laws_def)
  note route = serve_put_route [OF this]
  have conv: "map_option (\<lambda>(st, db'). (db', st, None)) (put_points lib ps db)
    = map_option (\<lambda>x. (snd x, NO_CONTENT, None)) (put_points lib ps db)" for ps
    by (cases "put_points lib ps db") (auto dest: put_points_status)
  show ?thesis
    unfolding dnp3_http_def dnp3_router_def route
    by (cases "req_body r") (simp add: dnp3_step_def conv option.map_comp comp_def split: option.split)
qed

subsection \<open>mock-redfish-service\<close>

lemma map_of_rel:
  assumes "list_all2 (\<lambda>(p, hs) (q, v). p = q \<and> R hs v) xs ys"
  shows "(case map_of xs k of None \<Rightarrow> map_of ys k = None | Some hs \<Rightarrow> \<exists>v. map_of ys k = Some v \<and> R hs v)"
  using assms by (induction xs ys rule: list_all2_induct) (auto split: option.split)

text \<open>Every route of the service renders on GET what the tables of the resources say.\<close>

definition renders :: "gpu_node \<Rightarrow> (http_method \<times> ('b \<Rightarrow> gpu_node \<Rightarrow> (gpu_node, patch_error + 'v) http_answer)) list \<Rightarrow> 'v \<Rightarrow> bool" where
  "renders n hs v \<longleftrightarrow> (\<exists>h. map_of hs GET = Some h \<and> (\<forall>b. h b n = Some (n, OK, Some (Inr v))))"

lemma service_renders:
  "list_all2 (\<lambda>(p, hs) (q, v). p = q \<and> renders n hs v)
     (redfish_router lib ax @ cdu_router lib) (chassis_routes lib n @ cdu_routes lib)"
proof -
  have "list_all2 (\<lambda>(p, hs) (q, v). p = q \<and> renders n hs v) (concat (map (gpu_router lib ax) is)) (concat (map (gpu_routes lib n) is))" for "is"
    by (induction "is") (simp_all add: gpu_router_def gpu_routes_def renders_def redfish_serve_gpu_def)
  moreover have "list_all2 (\<lambda>(p, hs) (q, v). p = q \<and> renders n hs v) (cdu_router lib) (cdu_routes lib)"
    by (simp add: cdu_router_def list_all2_map1 list_all2_same renders_def redfish_serve_def split_beta)
  ultimately show ?thesis
    by (auto simp: redfish_router_def chassis_routes_def renders_def redfish_serve_def intro!: list_all2_appendI)
qed

definition patch_handler :: "'v json_lib \<Rightarrow> ('b, 'v) axum_lib \<Rightarrow> nat \<Rightarrow> 'b \<Rightarrow> gpu_node \<Rightarrow> (gpu_node, patch_error + 'v) http_answer" where
  "patch_handler lib ax i = with_json ax (\<lambda>v n. case patch_gpu lib i v n of (t, st, x) \<Rightarrow> Some (t, st, Some x))"

lemma no_patch_route:
  "map_of patch_routes (gpu_base i @ ''/ProcessorMetrics'') = None"
  "\<forall>i. path \<noteq> gpu_base i @ ''/EnvironmentMetrics'' \<Longrightarrow> map_of patch_routes path = None"
  using metrics_differ [symmetric] by (auto simp: map_of_eq_None_iff patch_routes_def)

lemma service_patches:
  assumes "(path, hs) \<in> set (redfish_router lib ax @ cdu_router lib)"
  shows "map_of hs PATCH = map_option (patch_handler lib ax) (map_of patch_routes path)"
proof -
  have ne: "\<forall>i. ''/redfish/v1/Chassis/1/'' @ x \<noteq> gpu_base i @ y" "\<forall>i. ''/redfish/v1/ThermalEquipment/'' @ x \<noteq> gpu_base i @ y" for x y
    by (simp_all add: gpu_base_def)
  show ?thesis
    using assms ne(1) [of "''Power''"] ne(1) [of "''Thermal''"] ne(1) [of "''Sensors/InletTemp''"]
      ne(2) [of "''CDUs/1/SecondaryCoolantConnectors/1''"] ne(2) [of "''CDUs/1/Pumps/1''"]
    by (auto simp: redfish_router_def gpu_router_def cdu_router_def cdu_routes_def patch_routes_lookup no_patch_route
        patch_handler_def)
qed

lemma only_get_and_patch:
  "(path, hs) \<in> set (redfish_router lib ax @ cdu_router lib) \<Longrightarrow> m \<noteq> GET \<Longrightarrow> m \<noteq> PATCH \<Longrightarrow> map_of hs m = None"
  by (auto simp: redfish_router_def gpu_router_def cdu_router_def)

text \<open>C18: The Redfish service answers a raw request exactly as its resource tables say: GET and HEAD
  render the resource of the path, a PATCH is routed only to the environment metrics of a
  GPU and applied only when the body is JSON, and everything else is answered 404 where
  there is no resource and 405 where there is one, without touching the node.\<close>

theorem redfish_http_serves_the_tables:
  assumes "axum_laws ax"
  shows "redfish_http lib ax r n =
    (case redfish_get lib n (req_path r) of
       None \<Rightarrow> Some (n, NOT_FOUND, None)
     | Some v \<Rightarrow>
         if req_method r = GET \<or> req_method r = OTHER ''HEAD'' then Some (n, OK, Some (Inr v))
         else if req_method r = PATCH \<and> map_of patch_routes (req_path r) \<noteq> None
         then (case extract_json ax (req_body r) of None \<Rightarrow> Some (n, REJECTED, None)
           | Some body \<Rightarrow> map_option (\<lambda>(t, st, x). (t, st, Some x)) (redfish_patch lib (req_path r) body n))
         else Some (n, METHOD_NOT_ALLOWED, None))"
proof -
  let ?T = "redfish_router lib ax @ cdu_router lib"
  note g = map_of_rel [OF service_renders [of n lib ax], of "req_path r", folded redfish_get_def]
  show ?thesis
  proof (cases "map_of ?T (req_path r)")
    case None
    then show ?thesis using g assms
      by (simp add: redfish_http_def serve_route_def axum_lawsD map_of_fst del: map_of_append map_append)
  next
    case (Some hs)
    then have hs: "(req_path r, hs) \<in> set ?T" by (rule map_of_SomeD)
    obtain v h where v: "redfish_get lib n (req_path r) = Some v" "map_of hs GET = Some h" "\<And>b. h b n = Some (n, OK, Some (Inr v))"
      using g Some by (auto simp: renders_def)
    have mem: "m \<in> fst ` set hs \<longleftrightarrow> map_of hs m \<noteq> None" for m by (simp add: map_of_eq_None_iff)
    have head: "map_of hs (OTHER ''HEAD'') = None" using only_get_and_patch [OF hs] by simp
    have serve: "redfish_http lib ax r n =
        (case map_of hs (if req_method r = OTHER ''HEAD'' then GET else req_method r) of
           None \<Rightarrow> Some (n, METHOD_NOT_ALLOWED, None) | Some h \<Rightarrow> h (req_body r) n)"
      using assms Some head v(2)
      by (simp add: redfish_http_def serve_route_def axum_lawsD map_of_fst mem del: map_of_append map_append split: option.split)
    show ?thesis
      using serve v service_patches [OF hs] only_get_and_patch [OF hs, of "req_method r"]
      by (cases "req_method r = PATCH")
        (auto simp: patch_handler_def with_json_def redfish_patch_def split: option.splits prod.splits)
  qed
qed

text \<open>A PATCH of GPU 2, and the answers around it.\<close>

definition serde_axum :: "(json option, json) axum_lib" where
  "serde_axum = plain_axum"

theorem redfish_http_serves_the_tables_witness:
  "redfish_http serde serde_axum
     \<lparr>req_method = PATCH, req_path = gpu_base 2 @ ''/EnvironmentMetrics'', req_body = Some (demo_patch 810)\<rparr> demo_node
   = map_option (\<lambda>(t, st, x). (t, st, Some x)) (redfish_patch serde (gpu_base 2 @ ''/EnvironmentMetrics'') (demo_patch 810) demo_node)"
proof -
  have "redfish_get serde demo_node (gpu_base 2 @ ''/EnvironmentMetrics'') \<noteq> None"
    "map_of patch_routes (gpu_base 2 @ ''/EnvironmentMetrics'') \<noteq> None"
    by (simp_all add: gpu_route_get patch_routes_lookup GPUS_def)
  moreover have "axum_laws serde_axum" by (simp add: serde_axum_def plain_axum_laws)
  note redfish_http_serves_the_tables [OF this, of serde
      "\<lparr>req_method = PATCH, req_path = gpu_base 2 @ ''/EnvironmentMetrics'', req_body = Some (demo_patch 810)\<rparr>" demo_node]
  ultimately show ?thesis by (auto simp: serde_axum_def split: option.splits)
qed

subsection \<open>Listeners\<close>

text \<open>A mock serves exactly when its settings are good and both endpoints can be bound.\<close>

lemma modbus_wire_cfg: "modbus_wire env cfg hib = Inr (cfg', s) \<Longrightarrow> cfg' = cfg"
  by (cases hib) (auto simp: modbus_wire_def Let_def split: sum.splits)

lemma modbus_main_cfg:
  assumes "modbus_main env = Some (Inr (cfg, s))" shows "cfg = modbus_settings_from_env env"
proof -
  obtain r where "(case r of Inl e \<Rightarrow> Inl e | Inr hib \<Rightarrow> modbus_wire env (modbus_settings_from_env env) hib) = Inr (cfg, s)"
    using assms by (auto simp: modbus_main_def Let_def)
  then show ?thesis by (cases r) (auto dest: modbus_wire_cfg)
qed

lemma modbus_start_iff:
  "modbus_start tls_ok binds ax env = Some (Inr ((held, h), cfg, s)) \<longleftrightarrow>
     modbus_main env = Some (Inr (cfg, s)) \<and> h = modbus_http ax \<and> held = {Tcp (port cfg), Tcp (control_port cfg)}
     \<and> (tls_mode cfg \<longrightarrow> (\<exists>paths. tls_paths env = Inr paths \<and> tls_ok paths))
     \<and> binds {} (Tcp (port cfg)) \<and> binds {Tcp (port cfg)} (Tcp (control_port cfg))"
proof (cases "profile_registers env (profile (modbus_settings_from_env env))")
  case None
  then show ?thesis by (simp add: modbus_start_def modbus_main_def Let_def)
next
  case (Some r)
  let ?cfg = "modbus_settings_from_env env"
  note d = modbus_start_def modbus_main_def modbus_spawn_control_def bind_endpoint_def spawn_tls_def
  show ?thesis
  proof (cases r)
    case (Inl e)
    then show ?thesis using Some by (simp add: d Let_def)
  next
    case (Inr hib)
    show ?thesis
    proof (cases "modbus_wire env ?cfg hib")
      case (Inl e)
      then show ?thesis using Some Inr by (simp add: d Let_def split: sum.split)
    next
      case w: (Inr x)
      obtain ps where "(if tls_mode ?cfg then tls_paths env else Inr []) = Inr ps"
        using w by (cases hib) (auto simp: modbus_wire_def Let_def split: sum.splits)
      moreover obtain s' where "x = (?cfg, s')" using w modbus_wire_cfg by (cases x) blast
      ultimately show ?thesis using Some Inr w by (cases "tls_mode ?cfg") (auto simp: d Let_def)
    qed
  qed
qed

text \<open>C40: The two listeners of a mock must be told apart: with PORT and CONTROL_PORT set to the
  same number (other than 0) neither the Modbus nor the DNP3 mock ever starts, whatever else
  is configured, while the SNMP agent, whose protocol is UDP, starts as it would otherwise.\<close>

theorem equal_ports_stop_the_mock:
  assumes "net_laws binds" "env ''PORT'' = Some v" "env ''CONTROL_PORT'' = Some v" "parse_uint 16 v = Some p" "p \<noteq> 0"
  shows "modbus_start tls_ok binds ax env \<noteq> Some (Inr r) \<and> dnp3_start tls_ok binds lib ax' env db \<noteq> Inr r'
    \<and> (binds {} (Udp p) \<and> binds {Udp p} (Tcp p) \<longrightarrow> snmp_start binds ax'' v3 env =
        map_option (\<lambda>x. case x of Inl e \<Rightarrow> Inl (NotStarted e) | Inr sys \<Rightarrow> Inr (({Tcp p, Udp p}, snmp_http ax''), sys))
          (snmp_main v3 env))"
proof (intro conjI impI)
  have env: "env_uint env 16 ''PORT'' d = p" "env_uint env 16 ''CONTROL_PORT'' d = p" for d
    using assms(2-4) by (simp_all add: env_uint_def)
  have clash: "\<not> binds {Tcp p} (Tcp p)" using assms(1,5) by (simp add: net_laws_def)
  show "modbus_start tls_ok binds ax env \<noteq> Some (Inr r)"
  proof
    assume "modbus_start tls_ok binds ax env = Some (Inr r)"
    moreover obtain held h cfg s where "r = ((held, h), cfg, s)" by (metis surj_pair)
    ultimately have "modbus_main env = Some (Inr (cfg, s))" "binds {Tcp (port cfg)} (Tcp (control_port cfg))"
      using modbus_start_iff [of tls_ok binds ax env held h cfg s] by simp_all
    moreover from this(1) have "cfg = modbus_settings_from_env env" by (rule modbus_main_cfg)
    ultimately show False using clash by (simp add: modbus_settings_from_env_def Let_def env)
  qed
  show "dnp3_start tls_ok binds lib ax' env db \<noteq> Inr r'"
    using clash
    by (auto simp: dnp3_start_def dnp3_settings_from_env_def Let_def env dnp3_spawn_control_def bind_endpoint_def
        split: sum.splits if_splits)
  assume "binds {} (Udp p) \<and> binds {Udp p} (Tcp p)"
  then show "snmp_start binds ax'' v3 env =
      map_option (\<lambda>x. case x of Inl e \<Rightarrow> Inl (NotStarted e) | Inr sys \<Rightarrow> Inr (({Tcp p, Udp p}, snmp_http ax''), sys))
        (snmp_main v3 env)"
    by (simp add: snmp_start_def snmp_settings_from_env_def Let_def env snmp_spawn_control_def bind_endpoint_def)
qed

text \<open>A system on which every port is free.\<close>

theorem equal_ports_stop_the_mock_witness:
  "\<forall>r. modbus_start (\<lambda>paths. True) (\<lambda>held e. e \<notin> held) plain_axum (demo_env [(''PORT'', ''8080''), (''CONTROL_PORT'', ''8080'')]) \<noteq> Some (Inr r)"
proof
  fix r
  let ?env = "demo_env [(''PORT'', ''8080''), (''CONTROL_PORT'', ''8080'')]"
  have "net_laws (\<lambda>held e. e \<notin> held)" by (simp add: net_laws_def)
  moreover have "?env ''PORT'' = Some ''8080''" "?env ''CONTROL_PORT'' = Some ''8080''" by (simp_all add: demo_env_def)
  moreover have "parse_uint 16 ''8080'' = Some 8080" by (simp add: parse_uint_def digit_of_def Let_def)
  moreover have "(8080 :: nat) \<noteq> 0" by simp
  ultimately show "modbus_start (\<lambda>paths. True) (\<lambda>held e. e \<notin> held) plain_axum ?env \<noteq> Some (Inr r)"
    by (rule conjunct1 [OF equal_ports_stop_the_mock])
qed

end
