(* ===== verification/HttpTests.thy ===== *)
theory HttpTests
  imports HttpProps
begin

text \<open>
  The tests of the control surfaces (\<open>control.rs\<close> of mock-modbus-server and of
  mock-snmp-agent) that send a request through the router, as predicates over the surfaces,
  with the proof that what they assert holds when bodies are JSON values.
\<close>

subsection \<open>Bodies that are JSON values\<close>

text \<open>
  A concrete library: a body is a JSON value, or \<open>None\<close> for text that is not JSON, and the
  structs are read from it as the derived \<open>Deserialize\<close> reads them from an object.
\<close>

definition json_axum :: "(json \<Rightarrow> 't option) \<Rightarrow> (json option, 't) axum_lib" where
  "json_axum reader = \<lparr>routed = routed (plain_axum :: ('t option, 't) axum_lib), extract_json = \<lambda>b. Option.bind b reader\<rparr>"

lemma json_axum_laws: "axum_laws (json_axum reader)"
  by (simp add: json_axum_def axum_laws_def plain_axum_def)

lemma json_axum_json [simp]: "extract_json (json_axum reader) b = Option.bind b reader"
  by (simp add: json_axum_def)

definition json_int :: "json \<Rightarrow> int option" where
  "json_int v = (case v of JNumber (Num q) \<Rightarrow> if of_int \<lfloor>q\<rfloor> = q then Some \<lfloor>q\<rfloor> else None | _ \<Rightarrow> None)"

text \<open>The entries of the map in a field; one bad key or value rejects it.\<close>

definition json_map :: "string \<Rightarrow> (string \<Rightarrow> 'k option) \<Rightarrow> (json \<Rightarrow> 'v option) \<Rightarrow> json \<Rightarrow> ('k \<times> 'v) list option" where
  "json_map field key val v =
     (case v of JObject fs \<Rightarrow>
        (case map_of fs field of Some (JObject kvs) \<Rightarrow>
           those (map (\<lambda>(k, x). Option.bind (key k) (\<lambda>k'. map_option (Pair k') (val x))) kvs)
         | _ \<Rightarrow> None)
      | _ \<Rightarrow> None)"

definition set_registers :: "json \<Rightarrow> (u16 \<times> u16) list option" where
  "set_registers = json_map ''registers'' (\<lambda>k. map_option of_nat (parse_uint 16 k))
     (\<lambda>x. Option.bind (json_int x) (\<lambda>i. if 0 \<le> i \<and> i < 2 ^ 16 then Some (of_int i) else None))"

definition set_oids :: "json \<Rightarrow> (string \<times> i64) list option" where
  "set_oids = json_map ''values'' Some
     (\<lambda>x. Option.bind (json_int x) (\<lambda>i. if - (2 ^ 63) \<le> i \<and> i < 2 ^ 63 then Some (of_int i) else None))"

subsection \<open>control.rs of mock-modbus-server\<close>

definition shared :: meter where
  "shared = meter_new Map.empty"

definition put_registers_applies_batch_and_returns_204 ::
  "('b, (u16 \<times> u16) list) axum_lib \<Rightarrow> 'b \<Rightarrow> bool" where
  "put_registers_applies_batch_and_returns_204 ax body =
     (case modbus_http ax \<lparr>req_method = PUT, req_path = ''/registers'', req_body = body\<rparr> shared of
        None \<Rightarrow> False
      | Some (h, status, _) \<Rightarrow>
          status = NO_CONTENT \<and> holding h 4000 = Some 15 \<and> holding h 4001 = Some 16960 \<and> 4000 \<in> driven h)"

lemma set_registers_test:
  "set_registers (JObject [(''registers'', JObject [(''4000'', JNumber (Num 15)), (''4001'', JNumber (Num 16960))])])
     = Some [(4000, 15), (4001, 16960)]"
  by (simp add: set_registers_def json_map_def json_int_def parse_uint_def digit_of_def Let_def)

lemma put_applies_batch:
  "put_registers_applies_batch_and_returns_204 (json_axum set_registers)
     (Some (JObject [(''registers'', JObject [(''4000'', JNumber (Num 15)), (''4001'', JNumber (Num 16960))])]))"
  by (simp add: put_registers_applies_batch_and_returns_204_def modbus_http_one json_axum_laws put_batch_def
      put_status_def set_registers_test shared_def meter_new_def)

definition malformed_body_is_rejected :: "('b, (u16 \<times> u16) list) axum_lib \<Rightarrow> 'b \<Rightarrow> bool" where
  "malformed_body_is_rejected ax body =
     (case modbus_http ax \<lparr>req_method = PUT, req_path = ''/registers'', req_body = body\<rparr> shared of
        None \<Rightarrow> False | Some (_, status, _) \<Rightarrow> refused status)"

lemma malformed_body:
  "malformed_body_is_rejected (json_axum set_registers)
     (Some (JObject [(''registers'', JObject [(''not_an_addr'', JNumber (Num 1))])]))"
proof -
  have "parse_uint 16 ''not_an_addr'' = None" by (simp add: parse_uint_def digit_of_def)
  then have "set_registers (JObject [(''registers'', JObject [(''not_an_addr'', JNumber (Num 1))])]) = None"
    by (simp add: set_registers_def json_map_def)
  then show ?thesis
    by (simp add: malformed_body_is_rejected_def modbus_http_one json_axum_laws put_status_def)
qed

subsection \<open>control.rs of mock-snmp-agent\<close>

definition wire_current :: string where
  "wire_current = ''1.3.6.1.4.1.1718.4.1.4.3.1.3.1.1.1''"

definition fresh_control :: snmp_state where
  "fresh_control = \<lparr>oid_values = [], oid_driven = {}\<rparr>"

definition put_oids_applies_batch_and_marks_driven ::
  "('b, (string \<times> i64) list) axum_lib \<Rightarrow> 'b \<Rightarrow> bool" where
  "put_oids_applies_batch_and_marks_driven ax body =
     (case snmp_http ax \<lparr>req_method = PUT, req_path = ''/oids'', req_body = body\<rparr> fresh_control of
        None \<Rightarrow> False
      | Some (s, status, _) \<Rightarrow>
          status = NO_CONTENT \<and> map_of (oid_values s) OID_INPUT_CURRENT = Some 32 \<and> OID_INPUT_CURRENT \<in> oid_driven s)"

lemma parse_wire_current: "parse_oid wire_current = Some OID_INPUT_CURRENT"
  by (simp add: wire_current_def parse_oid_def OID_INPUT_CURRENT_def parse_uint_def digit_of_def Let_def)

lemma put_oids_applies:
  "put_oids_applies_batch_and_marks_driven (json_axum set_oids)
     (Some (JObject [(''values'', JObject [(wire_current, JNumber (Num 32))])]))"
proof -
  have "set_oids (JObject [(''values'', JObject [(wire_current, JNumber (Num 32))])]) = Some [(wire_current, 32)]"
    by (simp add: set_oids_def json_map_def json_int_def)
  then show ?thesis
    by (simp add: put_oids_applies_batch_and_marks_driven_def snmp_http_one json_axum_laws put_oids_def
        parse_wire_current drive_oid_def fresh_control_def)
qed

text \<open>One good and one bad OID in a batch; the map may be visited in either order.\<close>

definition malformed_oid_rejects_whole_batch :: "('b, (string \<times> i64) list) axum_lib \<Rightarrow> 'b \<Rightarrow> bool" where
  "malformed_oid_rejects_whole_batch ax body =
     (case snmp_http ax \<lparr>req_method = PUT, req_path = ''/oids'', req_body = body\<rparr> fresh_control of
        None \<Rightarrow> False
      | Some (s, status, _) \<Rightarrow> status = UNPROCESSABLE_ENTITY \<and> oid_values s = [] \<and> oid_driven s = {})"

lemma malformed_oid:
  assumes "kvs = [(wire_current, JNumber (Num 32)), (''not.an.oid'', JNumber (Num 1))]
    \<or> kvs = [(''not.an.oid'', JNumber (Num 1)), (wire_current, JNumber (Num 32))]"
  shows "malformed_oid_rejects_whole_batch (json_axum set_oids) (Some (JObject [(''values'', JObject kvs)]))"
proof -
  have "parse_oid ''not.an.oid'' = None" by (simp add: parse_oid_def parse_uint_def digit_of_def)
  then show ?thesis
    using assms
    by (auto simp: malformed_oid_rejects_whole_batch_def snmp_http_one json_axum_laws set_oids_def json_map_def json_int_def
        put_oids_def parse_wire_current fresh_control_def)
qed

end
