(* ===== verification/Spec2Isabelle.thy ===== *)
theory Spec2Isabelle
  imports ModbusProps ModbusServer RackView ModbusTests SnmpProps SnmpTasks PduFollow SnmpV3Props SnmpSessionProps SnmpTests
    RedfishProps BacnetProps Dnp3Props MockTests Site HttpTests
begin

text \<open>
  A verification library for ems-industrial-fixtures: five mocks of industrial devices that a
  gateway is tested against, in Rust.  Each mock keeps a small map of values, moves it by a
  simulator, serves it over an industrial protocol and lets an external digital twin drive
  it over HTTP.  The mocks meet in two places: the Modbus POI meter reads racks over Modbus
  and a GPU node over Redfish, and the SNMP PDU reads the same node.

  \<^bold>\<open>Base theories.\<close>  \<open>Rounding\<close>, \<open>Floats\<close> and \<open>Casts\<close> are a model of IEEE binary32 and binary64
  over the rationals (NaN, infinities, the negative zero, round half to even, overflow, the
  total \<open>as\<close> casts, the bits of an \<open>f32\<close>); \<open>RustStd\<close> has the string, parsing and environment
  functions the mocks use; \<open>Prelude\<close> has the machine words, the halves of a 32-bit register
  pair, batches, the HTTP statuses, and the interfaces as locales: \<open>control_surface\<close> (what a
  client has taken over is not moved by the simulator; the last write wins over any
  interleaving), \<open>sawtooth\<close> (a value that climbs in a band and falls back), \<open>ordered_view\<close>
  (a walk by successor visits every key once).  They are interpreted on the code's models:
  \<open>control_surface\<close> for the Modbus registers and the SNMP values, \<open>sawtooth\<close> for the 32-bit,
  64-bit and single-precision ramps, \<open>ordered_view\<close> for GetNext.

  \<^bold>\<open>mock-modbus-server.\<close>  \<open>RackRegisters\<close> (rack_registers.rs, registers.rs, dc_external.rs,
  pv_inverter.rs), \<open>Battery\<close> and \<open>BatteryFacts\<close> (battery.rs, derate.rs), \<open>ModbusHandler\<close>
  (handler.rs, control.rs, simulator.rs), \<open>Poi\<close> (poi.rs, compute_load.rs), \<open>ModbusMain\<close>
  (main.rs, tls.rs); \<open>ModbusProps\<close> has the properties: client writes stick, the register mutex
  is never poisoned and the SoC stays a percentage, the rack delivers the clipped setpoint,
  the energy counter never falls, the meter balances the site, errors hold the last value.
  A step is an \<open>option\<close>: \<open>None\<close> is a Rust panic under the mutex.  \<open>ModbusServer\<close> is what
  reaches the handler over the protocol: unit id, TLS authorization, then one handler call;
  the server refines the machine of \<open>ModbusMain\<close>, and over TLS no request changes anything.
  \<open>RackView\<close> shows that the registers of a rack repeat its state, in their ranges, at any time.

  \<^bold>\<open>mock-snmp-agent.\<close>  \<open>SnmpValues\<close> (oids.rs, raritan.rs, simulator.rs, pdu_load.rs, control.rs),
  \<open>SnmpAgent\<close> (the v2c half of main.rs), \<open>SnmpV3\<close> (usm.rs, v3.rs, the start-up), \<open>SnmpLocks\<close>
  (the mutexes and their order), \<open>SnmpProps\<close> and \<open>SnmpV3Props\<close>.  \<open>SnmpAtomic\<close> and \<open>SnmpTasks\<close>
  justify treating a handler as one event: a machine that interleaves the statements of any
  number of handlers, guarded by the mutexes only, refines one that runs whole critical
  sections, which in turn produces the events of \<open>snmp_run\<close>; every reader sees the values
  between two events.  \<open>PduFollow\<close> is the task that follows a GPU node.
  \<open>SnmpSession\<close> has the v3 client of the tests and the laws of the codec, \<open>TlvCodec\<close> a codec
  proved to satisfy them, and \<open>SnmpSessionProps\<close> that a whole session, from discovery to the
  decrypted reply, gives the client the response that the agent's values determine; and that a
  request with neither security flag gets the same response in clear, from anyone.

  \<^bold>\<open>mock-redfish-service.\<close>  \<open>Redfish\<close> (gpu_processors.rs, gpu_chassis.rs, cdu.rs, main.rs) and
  \<open>RedfishProps\<close>: the operating point of a GPU under its cap, caps over any sequence of PATCHes,
  GET after PATCH, the node's power.

  \<^bold>\<open>mock-bacnet-device.\<close>  \<open>Bacnet\<close> (simulator.rs, lib.rs, main.rs) and \<open>BacnetProps\<close>: the wave of
  the analog input, exactly which frames are answered and how, what a client decodes.

  \<^bold>\<open>mock-dnp3-outstation.\<close>  \<open>Dnp3\<close> (sel351.rs, control.rs, outstation.rs, main.rs) and
  \<open>Dnp3Props\<close>: the seeded relay points, and the points after any control writes and commands.

  \<^bold>\<open>The site.\<close>  This theory states what the meter shows when racks and node answer at once.
  \<open>Site\<close> puts racks, node and meter side by side with the reads of the meter's loop (poi.rs)
  completing one at a time: a publication is one atomic update over replies sampled inside
  its window, and the samples can be of different instants, which an example shows.

  \<^bold>\<open>HTTP surfaces.\<close>  \<open>Http\<close> has requests, routers as tables of handlers, and listeners;
  its interface \<open>http_surface\<close> (a refused request changes nothing) is interpreted in
  \<open>HttpSurfaces\<close> on the three control routers and the Redfish router, each built as the source
  builds it, and each \<open>main\<close> is there with its listeners in order.  \<open>HttpProps\<close> shows from the
  raw request on what takes effect and how it is answered, and when a mock starts.

  \<^bold>\<open>Tests.\<close>  \<open>ModbusTests\<close>, \<open>SnmpTests\<close>, \<open>HttpTests\<close> and \<open>MockTests\<close> translate the unit tests that stand in
  the source files to predicates over the model and prove that they hold: a check that the
  model computes what the authors expect of the code, floats and words included.

  \<^bold>\<open>Correspondence.\<close>  Definitions keep the source's names, with a prefix where several mocks use
  the same one.  A struct is a record, a Rust \<open>Result\<close> a sum, a panic \<open>None\<close>.  A map whose order
  the code reads (SNMP) is an association list, any other a HOL map; the order in which a
  hash map is visited is the order of a list, and the properties hold for every list.
  Integers wrap as in a release build.

  \<^bold>\<open>Parameters.\<close>  Third-party crates are arguments with their documented behaviour as named
  laws: \<open>json_lib\<close> (serde_json, \<open>json_laws\<close>), \<open>axum_lib\<close> (axum, \<open>axum_laws\<close>), \<open>net\<close> (binding endpoints, \<open>net_laws\<close>), \<open>v3_lib\<close> and the message codecs (rasn, SHA-256,
  HMAC, AES-CFB; \<open>codec_laws\<close>, \<open>crypto_laws\<close>), \<open>rodbus_lib\<close> (rodbus, \<open>read_only_laws\<close>), \<open>tls_lib\<close> (rustls and its PEM parser), \<open>bac_lib\<close> (bacnet_rs, \<open>bac_laws\<close>), \<open>db_lib\<close> (dnp3, \<open>db_laws\<close>).  The ones the
  properties use have a concrete instance for the witnesses.

  \<^bold>\<open>Bounds.\<close>  Exact sums of watts are stated for whole watts and at most \<open>2 ^ 20\<close> racks, so that
  every partial sum stays below \<open>2 ^ 53\<close> and no addition rounds; the site property allows
  \<open>2 ^ 10\<close> nodes.  No definition uses fuel: every loop of the code that ends is structural
  recursion, and the endless ones are runs over a list of events.

  \<^bold>\<open>Not modelled.\<close>  The traffic on sockets, and timers (a tick is an event); how rodbus
  and dnp3 load certificates and bind, each one call of the crate and a parameter; the client half of rodbus in poi.rs (a rack read is
  what the rack's handler answers, or no reply); what rodbus answers to coil functions, a parameter; the wording
  of log and error messages; how axum takes a request apart (its extractor is a parameter, and
  a body that it rejects is an explicit case); the encoding of DNP3 points on the wire; the
  tests in files of their own (\<open>*_test.rs\<close>); and src/src/lib.rs, which has no code.
\<close>

subsection \<open>A site whose load follows its GPUs\<close>

lemma fmul_ints:
  assumes "\<bar>a * b\<bar> < 2 ^ 53" "is_finite x" "is_finite y" "fval x = of_int a" "fval y = of_int b"
  shows "is_finite (fmul F64 x y) \<and> fval (fmul F64 x y) = of_int (a * b)"
proof -
  have "bound_ok F64 (of_int (a * b))" using assms(1) by (intro bound_ok_of_int) simp
  then have "frnd F64 (of_int (a * b)) = of_int (a * b)" "\<bar>of_int (a * b) :: rat\<bar> < huge F64"
    by (simp_all add: bound_ok_def on_grid_def)
  then show ?thesis using fmul_finite [OF assms(2,3), of F64] by (simp add: assms(4,5))
qed

lemma site_load_ints:
  assumes "nodes c = Num (of_int N)" "is_finite w" "fval w = of_int k" "\<bar>N * k\<bar> < 2 ^ 53" "\<bar>L + N * k\<bar> < 2 ^ 53"
  shows "is_finite (site_load (Num (of_int L)) (Some (c, w)))"
    "fval (site_load (Num (of_int L)) (Some (c, w))) = of_int (L + N * k)"
  using fadd_ints [OF assms(5), of "Num (of_int L)" "fmul F64 (nodes c) w"]
    fmul_ints [OF assms(4), of "nodes c" w] assms(1-3) by (simp_all add: site_load_def)

text \<open>C7: The site behaves as one circuit: when the meter reads a node's Redfish Power resource
  and every rack answers, its float32 pair decodes to the fixed load plus, per node, the
  sum of what the GPUs draw under their current caps and the node's overhead, minus what
  the racks deliver, rounded to float32 once.\<close>

theorem site_power_follows_gpus:
  assumes "json_laws lib" "gpu_draws (gpus n) ks" "length (gpus n) = GPUS"
    and "overhead_w (chassis n) = Num (of_int b)" "\<bar>b\<bar> \<le> 2 ^ 40"
    and "compute p = Some (c, url)" "nodes c = Num (of_int N)" "0 \<le> N" "N \<le> 2 ^ 10"
    and "fixed_load p = Num (of_int L)" "\<bar>L\<bar> \<le> 2 ^ 51"
    and "\<And>m. m \<in> set ms \<Longrightarrow> RACK_ACTIVE_POWER \<in> dom (holding m) \<and> RACK_ACTIVE_POWER + 1 \<in> dom (holding m)"
    and "length ms = length (racks p)" "length ms \<le> 2 ^ 20"
    and "POI_ACTIVE_POWER \<notin> drv" "POI_ACTIVE_POWER + 1 \<notin> drv"
  defines "body \<equiv> redfish_get lib n ''/redfish/v1/Chassis/1/Power''"
  shows "fval (f32_of_bits (read_i32 (snd (poi_tick p (map rack_reply ms) (node_power lib body) h drv)) POI_ACTIVE_POWER))
    = frnd F32 (of_int (L + N * (sum_list ks + b) - (\<Sum>m\<leftarrow>ms. sint (read_i32 (holding m) ACTIVE_POWER))))"
proof -
  have "\<bar>b\<bar> \<le> 2 ^ 51" using assms(5) by simp
  then obtain w where w: "node_power lib body = Some w" "is_finite w" "fval w = of_int (sum_list ks + b)"
    using node_power_whole [OF assms(1,2) _ assms(4)] assms(3)
    by (auto simp: body_def redfish_get_def chassis_routes_def GPUS_def)
  have k: "\<bar>k\<bar> \<le> 2 ^ 31" if "k \<in> set ks" for k using assms(2) that by (auto simp: gpu_draws_def)
  have "length ks = 8" using assms(2,3) by (metis gpu_draws_def length_map GPUS_def)
  then have "\<bar>sum_list ks\<bar> \<le> 2 ^ 34" using sum_list_bound [of ks "2 ^ 31", OF k] by simp
  then have "\<bar>sum_list ks + b\<bar> \<le> 2 ^ 41" using assms(5) by simp
  then have "N * \<bar>sum_list ks + b\<bar> \<le> 2 ^ 10 * 2 ^ 41" using assms(8,9) by (intro mult_mono) simp_all
  then have nk: "\<bar>N * (sum_list ks + b)\<bar> \<le> 2 ^ 51" using assms(8) by (simp add: abs_mult)
  then have "\<bar>N * (sum_list ks + b)\<bar> < 2 ^ 53" "\<bar>L + N * (sum_list ks + b)\<bar> < 2 ^ 53"
    using assms(11) by simp_all
  note s = site_load_ints [OF assms(7) w(2,3) this]
  have "\<bar>L + N * (sum_list ks + b)\<bar> \<le> 2 ^ 52" using nk assms(11) by simp
  from poi_meter_value [OF assms(12-14) this assms(15,16) s, of h]
  show ?thesis by (simp add: poi_tick_def w(1) assms(6,10) Let_def split del: if_split cong: if_cong)
qed

text \<open>Two nodes with one GPU capped to 810 W, a fixed load of 72.8 kW and two racks.\<close>

theorem site_power_follows_gpus_witness:
  "fval (f32_of_bits (read_i32 (snd (poi_tick (demo_poi\<lparr>compute := Some (\<lparr>nodes = Num 2\<rparr>, ''url'')\<rparr>)
     (map rack_reply [demo_output 20000, demo_output 10000])
     (node_power serde (redfish_get serde (fst (patch_gpu serde 2 (demo_patch 810) demo_node))
        ''/redfish/v1/Chassis/1/Power'')) Map.empty {})) POI_ACTIVE_POWER)) = 63420"
proof -
  let ?n = "fst (patch_gpu serde 2 (demo_patch 810) demo_node)"
  let ?p = "demo_poi\<lparr>compute := Some (\<lparr>nodes = Num 2\<rparr>, ''url'')\<rparr>" and ?ms = "[demo_output 20000, demo_output 10000]"
  let ?ks = "[1000, 1000, 810, 1000, 1000, 1000, 1000, 1000] :: int list"
  have "set_power_limit serde (demo_patch 810) (whole_gpu 1000 1000 1980) = Inr (whole_gpu 1000 810 1980)"
    by (simp add: set_power_limit_accepted accepted_def demo_patch_def serde_def json_as_f64_def whole_gpu_def)
  then have g: "gpus ?n = map (\<lambda>k. whole_gpu 1000 k 1980) ?ks" "chassis ?n = chassis demo_node"
    by (simp_all add: patch_gpus demo_node_def new_node_def GPUS_def numeral_eq_Suc)
  have "gpu_draws (gpus ?n) ?ks" "length (gpus ?n) = GPUS" unfolding g
    by (simp_all add: gpu_draws_def power_whole GPUS_def)
  moreover have "overhead_w (chassis ?n) = Num (of_int 2500)" unfolding g by (simp add: demo_node_def new_node_def)
  moreover have "fixed_load ?p = Num (of_int 72800)" "length ?ms = length (racks ?p)"
    "compute ?p = Some (\<lparr>nodes = Num 2\<rparr>, ''url'')" by (simp_all add: demo_poi_def)
  moreover have "RACK_ACTIVE_POWER \<in> dom (holding m) \<and> RACK_ACTIVE_POWER + 1 \<in> dom (holding m)" if "m \<in> set ?ms" for m
    using that unfolding list.set insert_iff empty_iff by (elim disjE) simp_all
  moreover have "frnd F32 63420 = 63420" by (rule frnd_numeral) simp
  moreover have "sint (20000 :: i32) = 20000" "sint (10000 :: i32) = 10000" by simp_all
  ultimately show ?thesis
    using site_power_follows_gpus [OF serde_laws, of ?n ?ks 2500 ?p "\<lparr>nodes = Num 2\<rparr>" "''url''" 2 72800 ?ms "{}" Map.empty]
    by simp
qed

end
